theory Spec2Isabelle
  imports Complex_Main "HOL-Library.Multiset"
begin

section \<open>Shared list primitives of the JavaScript runtime\<close>

text \<open>
  \<^verbatim>\<open>Array.prototype.findIndex\<close> returns the index of the first element that satisfies the
  predicate, or \<^verbatim>\<open>-1\<close>. The miss is modelled as \<open>None\<close>.
\<close>

fun findIndex :: "('a \<Rightarrow> bool) \<Rightarrow> 'a list \<Rightarrow> nat option" where
  "findIndex P [] = None"
| "findIndex P (x # xs) = (if P x then Some 0 else map_option Suc (findIndex P xs))"

text \<open>\<^verbatim>\<open>xs.splice(i, 1)\<close> removes the element at index \<open>i\<close>.\<close>

definition splice_remove :: "nat \<Rightarrow> 'a list \<Rightarrow> 'a list" where
  "splice_remove i xs = take i xs @ drop (Suc i) xs"

text \<open>\<^verbatim>\<open>xs.splice(i, 0, x)\<close> inserts \<open>x\<close> in front of index \<open>i\<close>.\<close>

definition splice_insert :: "nat \<Rightarrow> 'a \<Rightarrow> 'a list \<Rightarrow> 'a list" where
  "splice_insert i x xs = take i xs @ x # drop i xs"


section \<open>The bounded broadcast scheduler (src/broadcast-scheduler.ts)\<close>

datatype priority = High | Medium | Low

record 'c BroadcastMessage =
  bm_id :: string
  bm_type :: string
  bm_content :: 'c
  bm_priority :: priority
  bm_timestamp :: int

text \<open>
  The scheduler object. \<open>maxQueueSize\<close> is a number of queue slots, a natural number.
  The fields \<^verbatim>\<open>isRunning\<close> and \<^verbatim>\<open>subscribers\<close> are neither read nor written by
  \<^verbatim>\<open>enqueue\<close> and \<^verbatim>\<open>insertByPriority\<close> and are left out.
\<close>

record 'c Scheduler =
  maxQueueSize :: nat
  queue :: "'c BroadcastMessage list"

definition DEFAULT_MAX_QUEUE_SIZE :: nat where
  "DEFAULT_MAX_QUEUE_SIZE = 1000"

text \<open>The constructor: \<^verbatim>\<open>options.maxQueueSize ?? DEFAULT_MAX_QUEUE_SIZE\<close>, empty queue.\<close>

definition newScheduler :: "nat option \<Rightarrow> 'c Scheduler" where
  "newScheduler opt =
     \<lparr> maxQueueSize = (case opt of None \<Rightarrow> DEFAULT_MAX_QUEUE_SIZE | Some n \<Rightarrow> n),
       queue = [] \<rparr>"

fun priorityOrder :: "priority \<Rightarrow> nat" where
  "priorityOrder High = 0"
| "priorityOrder Medium = 1"
| "priorityOrder Low = 2"

definition insertByPriority ::
  "'c BroadcastMessage list \<Rightarrow> 'c BroadcastMessage \<Rightarrow> 'c BroadcastMessage list" where
  "insertByPriority q message =
     (case findIndex
             (\<lambda>m. priorityOrder (bm_priority m) > priorityOrder (bm_priority message)) q of
        None \<Rightarrow> q @ [message]
      | Some insertIndex \<Rightarrow> splice_insert insertIndex message q)"

text \<open>
  \<^verbatim>\<open>enqueue\<close> returns the accepted flag; the mutated scheduler is returned with it. The
  first \<^verbatim>\<open>if\<close> of the full-queue branch, \<^verbatim>\<open>lowPriorityIndex !== -1 && message.priority !==
  'low'\<close>, is the \<open>Some\<close> case with its inner test; where it fails the source goes on to
  \<^verbatim>\<open>message.priority === 'low'\<close>, which in the \<open>Some\<close> case is then true.
\<close>

definition enqueue :: "'c Scheduler \<Rightarrow> 'c BroadcastMessage \<Rightarrow> 'c Scheduler \<times> bool" where
  "enqueue s message =
     (if length (queue s) \<ge> maxQueueSize s then
        (case findIndex (\<lambda>m. bm_priority m = Low) (queue s) of
           Some lowPriorityIndex \<Rightarrow>
             if bm_priority message \<noteq> Low then
               (s\<lparr>queue := insertByPriority (splice_remove lowPriorityIndex (queue s)) message\<rparr>,
                True)
             else (s, False)
         | None \<Rightarrow>
             if bm_priority message = Low then (s, False)
             else
               (case findIndex (\<lambda>m. bm_priority m = Medium) (queue s) of
                  Some mediumPriorityIndex \<Rightarrow>
                    if bm_priority message = High then
                      (s\<lparr>queue := insertByPriority
                                     (splice_remove mediumPriorityIndex (queue s)) message\<rparr>,
                       True)
                    else (s, False)
                | None \<Rightarrow> (s, False)))
      else (s\<lparr>queue := insertByPriority (queue s) message\<rparr>, True))"

text \<open>A run of enqueue calls, the returned flags dropped.\<close>

definition enqueueAll :: "'c Scheduler \<Rightarrow> 'c BroadcastMessage list \<Rightarrow> 'c Scheduler" where
  "enqueueAll s ms = foldl (\<lambda>st m. fst (enqueue st m)) s ms"

subsection \<open>The admission rule in the words of the specification\<close>

text \<open>Removing the first element that satisfies a predicate.\<close>

fun evictFirst :: "('a \<Rightarrow> bool) \<Rightarrow> 'a list \<Rightarrow> 'a list" where
  "evictFirst P [] = []"
| "evictFirst P (x # xs) = (if P x then xs else x # evictFirst P xs)"

text \<open>
  Insertion in priority order: every queued task of the same or a higher priority stays in
  front of the incoming task (so equal priorities are served in the order of their enqueue),
  every task of a lower priority stays behind it.
\<close>

definition insertInPriorityOrder ::
  "'c BroadcastMessage list \<Rightarrow> 'c BroadcastMessage \<Rightarrow> 'c BroadcastMessage list" where
  "insertInPriorityOrder q m =
     filter (\<lambda>x. priorityOrder (bm_priority x) \<le> priorityOrder (bm_priority m)) q
     @ [m]
     @ filter (\<lambda>x. priorityOrder (bm_priority x) > priorityOrder (bm_priority m)) q"

definition admissionRule ::
  "'c BroadcastMessage list \<Rightarrow> 'c BroadcastMessage \<Rightarrow> 'c BroadcastMessage list \<times> bool" where
  "admissionRule q m =
     (if (\<exists>x \<in> set q. bm_priority x = Low) \<and> bm_priority m \<noteq> Low then
        (insertInPriorityOrder (evictFirst (\<lambda>x. bm_priority x = Low) q) m, True)
      else if bm_priority m = Low then (q, False)
      else if (\<exists>x \<in> set q. bm_priority x = Medium) \<and> bm_priority m = High then
        (insertInPriorityOrder (evictFirst (\<lambda>x. bm_priority x = Medium) q) m, True)
      else (q, False))"

definition prioritySorted :: "'c BroadcastMessage list \<Rightarrow> bool" where
  "prioritySorted q = sorted (map (\<lambda>m. priorityOrder (bm_priority m)) q)"

text \<open>
  The order by priority and, among equal priorities, by timestamp: \<open>a\<close> may stand in front
  of \<open>b\<close>.
\<close>

definition messageBefore :: "'c BroadcastMessage \<Rightarrow> 'c BroadcastMessage \<Rightarrow> bool" where
  "messageBefore a b \<longleftrightarrow>
     priorityOrder (bm_priority a) < priorityOrder (bm_priority b)
     \<or> (priorityOrder (bm_priority a) = priorityOrder (bm_priority b)
         \<and> bm_timestamp a \<le> bm_timestamp b)"

definition priorityTimeSorted :: "'c BroadcastMessage list \<Rightarrow> bool" where
  "priorityTimeSorted q = sorted_wrt messageBefore q"

text \<open>Example messages used to instantiate the theorems below.\<close>

definition mkMessage :: "string \<Rightarrow> priority \<Rightarrow> int \<Rightarrow> unit BroadcastMessage" where
  "mkMessage i p t =
     \<lparr> bm_id = i, bm_type = ''test'', bm_content = (), bm_priority = p, bm_timestamp = t \<rparr>"


section \<open>The websocket protocol types (types.ts, found in backend/src/routes/system.ts)\<close>

datatype MessageType =
  MT_status | MT_stats | MT_health | MT_config | MT_system | MT_error | MT_all

datatype ServerEvent =
  Ev_connected | Ev_disconnected | Ev_status_update | Ev_stats_update | Ev_health_alert
| Ev_health_recovery | Ev_pong | Ev_history_data | Ev_error | Ev_subscribed | Ev_unsubscribed
| Ev_batch_update

datatype MessageDirection = ClientToServer | ServerToClient

datatype MessagePriority = P_high | P_normal | P_low

text \<open>
  A broadcast task. The payload \<^verbatim>\<open>data: unknown\<close> is a type parameter; \<^verbatim>\<open>timestamp\<close> is
  a millisecond count as \<^verbatim>\<open>Date.now()\<close> returns it, an integer.
\<close>

record 'd BroadcastTask =
  bt_type :: MessageType
  bt_event :: ServerEvent
  bt_data :: 'd
  bt_priority :: MessagePriority
  bt_timestamp :: int

text \<open>One entry of \<^verbatim>\<open>data.events\<close> in a merged message.\<close>

record 'd BatchEvent =
  be_event :: ServerEvent
  be_data :: 'd
  be_timestamp :: int

text \<open>
  The \<^verbatim>\<open>data\<close> of a server message built by the scheduler: the data of a single task, or
  the object \<^verbatim>\<open>{ events: [...] }\<close>.
\<close>

datatype 'd MessageData = TaskData 'd | BatchData "'d BatchEvent list"

record 'd ServerMessage =
  sm_id :: string
  sm_type :: MessageType
  sm_timestamp :: int
  sm_direction :: MessageDirection
  sm_event :: ServerEvent
  sm_data :: "'d MessageData"

text \<open>
  The part of \<^verbatim>\<open>ConnectionMetadata\<close> that the fan-out reads: the id, the subscription set,
  the \<^verbatim>\<open>isAlive\<close> flag and whether \<^verbatim>\<open>socket.readyState === WebSocket.OPEN\<close>.
\<close>

record ConnectionMetadata =
  cm_id :: string
  cm_userId :: string
  cm_subscriptions :: "MessageType set"
  cm_isAlive :: bool
  cm_socketOpen :: bool

text \<open>
  \<^verbatim>\<open>ConnectionManager.getConnectionsBySubscription\<close>; the manager is the list of its
  connections, in the insertion order of its \<^verbatim>\<open>Map\<close>.
\<close>

definition getConnectionsBySubscription ::
  "ConnectionMetadata list \<Rightarrow> MessageType \<Rightarrow> ConnectionMetadata list" where
  "getConnectionsBySubscription connections ty =
     filter (\<lambda>conn. ty \<in> cm_subscriptions conn \<or> MT_all \<in> cm_subscriptions conn) connections"


section \<open>The websocket broadcast scheduler (src/unnamed/part_003)\<close>

record WebSocketConfig =
  broadcastBatchSize :: nat
  broadcastFlushInterval :: nat

text \<open>
  The scheduler object and its connection manager. \<^verbatim>\<open>processQueue\<close> is an \<^verbatim>\<open>async\<close>
  function: it runs up to its first \<^verbatim>\<open>await\<close> inside the call and the rest when the awaited
  promises settle. \<open>inFlight\<close> is the suspended call, if there is one: the number of merged
  messages it has built and the groups of its batch it has still to broadcast.
\<close>

record 'd WsScheduler =
  messageQueue :: "'d BroadcastTask list"
  isProcessing :: bool
  config :: WebSocketConfig
  connectionManager :: "ConnectionMetadata list"
  inFlight :: "(nat \<times> (MessageType \<times> 'd BroadcastTask list) list) option"

text \<open>
  What one group of a batch produces: the merged message, its one serialization, and the
  \<^verbatim>\<open>socket.send\<close> calls made with it, each a pair of connection id and string written.
\<close>

record 'd Emission =
  em_message :: "'d ServerMessage"
  em_serialized :: string
  em_writes :: "(string \<times> string) list"

text \<open>
  The environment of a drain: \<open>env k\<close> is the pair of \<^verbatim>\<open>generateUUID()\<close> and
  \<^verbatim>\<open>Date.now()\<close> read for the \<open>k\<close>-th merged message, and \<open>stringify\<close> stands for
  \<^verbatim>\<open>JSON.stringify\<close>, which throws on some values (a cyclic object, a \<^verbatim>\<open>BigInt\<close>): the
  result is \<open>None\<close> then.
\<close>

type_synonym Env = "nat \<Rightarrow> string \<times> int"

fun priorityWeight :: "MessagePriority \<Rightarrow> int" where
  "priorityWeight P_high = 0"
| "priorityWeight P_normal = 1"
| "priorityWeight P_low = 2"

text \<open>The comparator handed to \<^verbatim>\<open>Array.prototype.sort\<close> in \<^verbatim>\<open>sortQueue\<close>.\<close>

definition compareTasks :: "'d BroadcastTask \<Rightarrow> 'd BroadcastTask \<Rightarrow> int" where
  "compareTasks a b =
     (let priorityDiff = priorityWeight (bt_priority a) - priorityWeight (bt_priority b)
      in if priorityDiff \<noteq> 0 then priorityDiff else bt_timestamp a - bt_timestamp b)"

text \<open>
  \<^verbatim>\<open>Array.prototype.sort\<close> is a stable sort. For a comparator that is a total preorder, as
  \<open>compareTasks\<close> is, every stable sort returns the same list; it is computed here by
  insertion, an element going in front of the first one it does not exceed.
\<close>

fun insertBy :: "('a \<Rightarrow> 'a \<Rightarrow> int) \<Rightarrow> 'a \<Rightarrow> 'a list \<Rightarrow> 'a list" where
  "insertBy cmp x [] = [x]"
| "insertBy cmp x (y # ys) = (if cmp x y \<le> 0 then x # y # ys else y # insertBy cmp x ys)"

definition sortBy :: "('a \<Rightarrow> 'a \<Rightarrow> int) \<Rightarrow> 'a list \<Rightarrow> 'a list" where
  "sortBy cmp xs = foldr (insertBy cmp) xs []"

definition sortQueue :: "'d BroadcastTask list \<Rightarrow> 'd BroadcastTask list" where
  "sortQueue q = sortBy compareTasks q"

text \<open>
  \<^verbatim>\<open>groupByType\<close> fills a \<^verbatim>\<open>Map\<close>, which iterates in the order its keys were first set;
  the map is an association list in that order. \<open>groupPush\<close> is one turn of the loop.
\<close>

fun groupPush ::
  "(MessageType \<times> 'd BroadcastTask list) list \<Rightarrow> 'd BroadcastTask \<Rightarrow>
   (MessageType \<times> 'd BroadcastTask list) list" where
  "groupPush [] task = [(bt_type task, [task])]"
| "groupPush ((k, ts) # groups) task =
     (if k = bt_type task then (k, ts @ [task]) # groups
      else (k, ts) # groupPush groups task)"

definition groupByType ::
  "'d BroadcastTask list \<Rightarrow> (MessageType \<times> 'd BroadcastTask list) list" where
  "groupByType tasks = foldl groupPush [] tasks"

definition toBatchEvent :: "'d BroadcastTask \<Rightarrow> 'd BatchEvent" where
  "toBatchEvent t = \<lparr> be_event = bt_event t, be_data = bt_data t, be_timestamp = bt_timestamp t \<rparr>"

text \<open>
  \<^verbatim>\<open>createMergedMessage\<close>, with the fresh id and the clock reading passed in. It is only
  called on the non-empty groups of \<open>groupByType\<close>; \<^verbatim>\<open>tasks[0]\<close> is the head of the list.
\<close>

definition createMergedMessage ::
  "string \<Rightarrow> int \<Rightarrow> MessageType \<Rightarrow> 'd BroadcastTask list \<Rightarrow> 'd ServerMessage" where
  "createMergedMessage uuid now ty tasks =
     (case tasks of
        [t] \<Rightarrow>
          \<lparr> sm_id = uuid, sm_type = ty, sm_timestamp = now, sm_direction = ServerToClient,
            sm_event = bt_event t, sm_data = TaskData (bt_data t) \<rparr>
      | _ \<Rightarrow>
          \<lparr> sm_id = uuid, sm_type = ty, sm_timestamp = now, sm_direction = ServerToClient,
            sm_event = Ev_batch_update, sm_data = BatchData (map toBatchEvent tasks) \<rparr>)"

text \<open>
  \<^verbatim>\<open>sendToConnection\<close>: the string is handed to \<^verbatim>\<open>socket.send\<close> when the connection is
  alive and its socket open; an exception of \<^verbatim>\<open>send\<close> is caught and logged.
\<close>

definition sendToConnection :: "ConnectionMetadata \<Rightarrow> string \<Rightarrow> (string \<times> string) list" where
  "sendToConnection connection message =
     (if cm_isAlive connection \<and> cm_socketOpen connection then [(cm_id connection, message)]
      else [])"

text \<open>
  The loop of \<^verbatim>\<open>broadcastBatch\<close> over the groups, run until every \<^verbatim>\<open>await\<close> has
  settled; \<open>n\<close> counts the merged messages built so far. A group without a matching
  connection is skipped before anything is built. An exception of \<^verbatim>\<open>JSON.stringify\<close>
  leaves the loop: the groups not yet reached are not broadcast.
\<close>

fun broadcastGroups ::
  "ConnectionMetadata list \<Rightarrow> Env \<Rightarrow> ('d ServerMessage \<Rightarrow> string option) \<Rightarrow> nat \<Rightarrow>
   (MessageType \<times> 'd BroadcastTask list) list \<Rightarrow> 'd Emission list" where
  "broadcastGroups conns env stringify n [] = []"
| "broadcastGroups conns env stringify n ((ty, typeTasks) # groups) =
     (let connections = getConnectionsBySubscription conns ty in
      if connections = [] then broadcastGroups conns env stringify n groups
      else
        (let mergedMessage = createMergedMessage (fst (env n)) (snd (env n)) ty typeTasks
         in case stringify mergedMessage of
              None \<Rightarrow> []
            | Some serialized \<Rightarrow>
                \<lparr> em_message = mergedMessage, em_serialized = serialized,
                  em_writes = concat (map (\<lambda>conn. sendToConnection conn serialized)
                                          connections) \<rparr>
                # broadcastGroups conns env stringify (Suc n) groups))"

text \<open>
  The same loop run only as far as its first \<^verbatim>\<open>await\<close>, which stands behind the sends of
  the first group that has a matching connection. The result is what has been emitted, the
  count of merged messages, and the groups still to come (none when the loop has ended or
  has been left by an exception).
\<close>

fun broadcastUntilAwait ::
  "ConnectionMetadata list \<Rightarrow> Env \<Rightarrow> ('d ServerMessage \<Rightarrow> string option) \<Rightarrow> nat \<Rightarrow>
   (MessageType \<times> 'd BroadcastTask list) list \<Rightarrow>
   'd Emission list \<times> nat \<times> (MessageType \<times> 'd BroadcastTask list) list" where
  "broadcastUntilAwait conns env stringify n [] = ([], n, [])"
| "broadcastUntilAwait conns env stringify n ((ty, typeTasks) # groups) =
     (let connections = getConnectionsBySubscription conns ty in
      if connections = [] then broadcastUntilAwait conns env stringify n groups
      else
        (let mergedMessage = createMergedMessage (fst (env n)) (snd (env n)) ty typeTasks
         in case stringify mergedMessage of
              None \<Rightarrow> ([], n, [])
            | Some serialized \<Rightarrow>
                ([\<lparr> em_message = mergedMessage, em_serialized = serialized,
                    em_writes = concat (map (\<lambda>conn. sendToConnection conn serialized)
                                            connections) \<rparr>],
                 Suc n, groups)))"

text \<open>
  The groups \<^verbatim>\<open>broadcastBatch\<close> loops over: none for an empty batch, on which it returns at
  once.
\<close>

definition batchGroups ::
  "'d BroadcastTask list \<Rightarrow> (MessageType \<times> 'd BroadcastTask list) list" where
  "batchGroups tasks = (if tasks = [] then [] else groupByType tasks)"

definition broadcastBatch ::
  "ConnectionMetadata list \<Rightarrow> Env \<Rightarrow> ('d ServerMessage \<Rightarrow> string option) \<Rightarrow>
   'd BroadcastTask list \<Rightarrow> 'd Emission list" where
  "broadcastBatch conns env stringify tasks =
     broadcastGroups conns env stringify 0 (batchGroups tasks)"

text \<open>\<^verbatim>\<open>this.config.broadcastBatchSize || 100\<close>: a zero batch size is falsy.\<close>

definition batchSizeOf :: "WebSocketConfig \<Rightarrow> nat" where
  "batchSizeOf c = (if broadcastBatchSize c = 0 then 100 else broadcastBatchSize c)"

text \<open>
  The part of \<^verbatim>\<open>processQueue\<close> that runs inside the call: the guard, the sort, the cut of
  the batch, and \<^verbatim>\<open>broadcastBatch\<close> up to its first \<^verbatim>\<open>await\<close>. When it returns,
  \<open>isProcessing\<close> is still set.
\<close>

definition processQueueStart ::
  "Env \<Rightarrow> ('d ServerMessage \<Rightarrow> string option) \<Rightarrow> 'd WsScheduler \<Rightarrow>
   'd WsScheduler \<times> 'd Emission list" where
  "processQueueStart env stringify s =
     (if isProcessing s \<or> messageQueue s = [] then (s, [])
      else
        (let sortedQueue = sortQueue (messageQueue s);
             batchSize = batchSizeOf (config s);
             batch = take batchSize sortedQueue;
             remaining = drop batchSize sortedQueue;
             started = broadcastUntilAwait (connectionManager s) env stringify 0
                         (batchGroups batch)
         in (s\<lparr>messageQueue := remaining, isProcessing := True,
               inFlight := Some (snd started)\<rparr>,
             fst started)))"

text \<open>
  The rest of a suspended \<^verbatim>\<open>processQueue\<close>, run when its promises settle: the remaining
  groups, then the \<^verbatim>\<open>finally\<close> block, which clears \<open>isProcessing\<close> and asks for a further
  drain with \<^verbatim>\<open>setImmediate\<close> when the queue is not empty (the flag returned). An exception
  of \<^verbatim>\<open>broadcastBatch\<close> is caught and logged in between.
\<close>

definition processQueueSettle ::
  "Env \<Rightarrow> ('d ServerMessage \<Rightarrow> string option) \<Rightarrow> 'd WsScheduler \<Rightarrow>
   'd WsScheduler \<times> 'd Emission list \<times> bool" where
  "processQueueSettle env stringify s =
     (case inFlight s of
        None \<Rightarrow> (s, [], False)
      | Some (n, groups) \<Rightarrow>
          (s\<lparr>isProcessing := False, inFlight := None\<rparr>,
           broadcastGroups (connectionManager s) env stringify n groups,
           messageQueue s \<noteq> []))"

text \<open>
  \<^verbatim>\<open>processQueue\<close> from the call to the end of its \<^verbatim>\<open>finally\<close> block, one whole drain. It
  returns the scheduler after the drain, the emissions of the batch, and whether a further
  drain was asked for. The promises it awaits are settled already (\<^verbatim>\<open>sendToConnection\<close>
  resolves inside its executor), so the rest runs before any timer or socket event; the
  connections are the same throughout.
\<close>

definition processQueue ::
  "Env \<Rightarrow> ('d ServerMessage \<Rightarrow> string option) \<Rightarrow> 'd WsScheduler \<Rightarrow>
   'd WsScheduler \<times> 'd Emission list \<times> bool" where
  "processQueue env stringify s =
     (if isProcessing s \<or> messageQueue s = [] then (s, [], False)
      else
        (let started = processQueueStart env stringify s;
             settled = processQueueSettle env stringify (fst started)
         in (fst settled, snd started @ fst (snd settled), snd (snd settled))))"

text \<open>
  \<^verbatim>\<open>enqueue\<close> of the websocket scheduler: push, and for a high priority call
  \<^verbatim>\<open>processQueue\<close>, whose promise is dropped. The result is the scheduler as the call leaves
  it and what has been emitted by then: a drain that was started is still in flight.
\<close>

definition wsEnqueue ::
  "Env \<Rightarrow> ('d ServerMessage \<Rightarrow> string option) \<Rightarrow> 'd WsScheduler \<Rightarrow> 'd BroadcastTask \<Rightarrow>
   'd WsScheduler \<times> 'd Emission list" where
  "wsEnqueue env stringify s task =
     (let s' = s\<lparr>messageQueue := messageQueue s @ [task]\<rparr>
      in if bt_priority task = P_high then processQueueStart env stringify s'
         else (s', []))"

text \<open>
  A run of enqueue calls on the websocket scheduler, one after the other with nothing
  settling in between, the emissions dropped.
\<close>

definition wsEnqueueAll ::
  "Env \<Rightarrow> ('d ServerMessage \<Rightarrow> string option) \<Rightarrow> 'd WsScheduler \<Rightarrow> 'd BroadcastTask list \<Rightarrow>
   'd WsScheduler" where
  "wsEnqueueAll env stringify s tasks =
     foldl (\<lambda>st task. fst (wsEnqueue env stringify st task)) s tasks"

text \<open>The drain order as a relation on tasks: \<open>a\<close> may stand in front of \<open>b\<close>.\<close>

definition taskBefore :: "'d BroadcastTask \<Rightarrow> 'd BroadcastTask \<Rightarrow> bool" where
  "taskBefore a b \<longleftrightarrow>
     priorityWeight (bt_priority a) < priorityWeight (bt_priority b)
     \<or> (priorityWeight (bt_priority a) = priorityWeight (bt_priority b)
         \<and> bt_timestamp a \<le> bt_timestamp b)"

text \<open>The events of a merged message; a single-task message has none.\<close>

fun dataEvents :: "'d MessageData \<Rightarrow> 'd BatchEvent list" where
  "dataEvents (TaskData d) = []"
| "dataEvents (BatchData es) = es"

text \<open>
  The batch of a drain (the local \<^verbatim>\<open>batch\<close> of \<^verbatim>\<open>processQueue\<close>) and the tasks of one
  type in a batch, in batch order.
\<close>

definition drainBatch :: "'d WsScheduler \<Rightarrow> 'd BroadcastTask list" where
  "drainBatch s = take (batchSizeOf (config s)) (sortQueue (messageQueue s))"

definition typeGroup :: "MessageType \<Rightarrow> 'd BroadcastTask list \<Rightarrow> 'd BroadcastTask list" where
  "typeGroup ty batch = filter (\<lambda>t. bt_type t = ty) batch"

subsection \<open>The drain in the words of the specification\<close>

text \<open>
  The order of a drain, by (priority, enqueuedAt): a high task stands before every task that
  is not high, a normal task before every low one, and of two tasks of one priority the one
  with the earlier timestamp (the time of its enqueue) stands first.
\<close>

definition drainsBefore :: "'d BroadcastTask \<Rightarrow> 'd BroadcastTask \<Rightarrow> bool" where
  "drainsBefore a b \<longleftrightarrow>
     (bt_priority a = P_high \<and> bt_priority b \<noteq> P_high)
     \<or> (bt_priority a = P_normal \<and> bt_priority b = P_low)
     \<or> (bt_priority a = bt_priority b \<and> bt_timestamp a \<le> bt_timestamp b)"

text \<open>
  The size of the prefix a drain takes: the configured \<open>broadcastBatchSize\<close>, and 100 when
  that is 0. (The second half is the amendment of the claim, which names the configured
  size only.)
\<close>

definition prefixSize :: "WebSocketConfig \<Rightarrow> nat" where
  "prefixSize c = (if broadcastBatchSize c = 0 then 100 else broadcastBatchSize c)"

text \<open>
  The types of a batch, each once, in the order of their first task; \<open>seen\<close> are the types
  met already.
\<close>

fun typesInOrder :: "MessageType list \<Rightarrow> 'd BroadcastTask list \<Rightarrow> MessageType list" where
  "typesInOrder seen [] = []"
| "typesInOrder seen (t # ts) =
     (if bt_type t \<in> set seen then typesInOrder seen ts
      else bt_type t # typesInOrder (seen @ [bt_type t]) ts)"

text \<open>
  A matching subscriber of a type is a connection subscribed to the type or to \<open>all\<close>; a
  recipient is a matching subscriber that is alive with an open socket.
\<close>

definition matchingSubscriber :: "MessageType \<Rightarrow> ConnectionMetadata \<Rightarrow> bool" where
  "matchingSubscriber ty conn \<longleftrightarrow> ty \<in> cm_subscriptions conn \<or> MT_all \<in> cm_subscriptions conn"

definition recipients :: "ConnectionMetadata list \<Rightarrow> MessageType \<Rightarrow> ConnectionMetadata list" where
  "recipients conns ty =
     filter (\<lambda>conn. matchingSubscriber ty conn \<and> cm_isAlive conn \<and> cm_socketOpen conn) conns"

text \<open>
  The envelope of a group: for exactly one task, that task's event and data; otherwise
  \<open>batch_update\<close> with the list of the \<^verbatim>\<open>{event, data, timestamp}\<close> of the group's tasks, in the
  order of the group.
\<close>

definition envelope ::
  "string \<Rightarrow> int \<Rightarrow> MessageType \<Rightarrow> 'd BroadcastTask list \<Rightarrow> 'd ServerMessage" where
  "envelope uuid now ty g =
     \<lparr> sm_id = uuid, sm_type = ty, sm_timestamp = now, sm_direction = ServerToClient,
       sm_event = (if length g = 1 then bt_event (hd g) else Ev_batch_update),
       sm_data = (if length g = 1 then TaskData (bt_data (hd g))
                  else BatchData (map (\<lambda>t. \<lparr> be_event = bt_event t, be_data = bt_data t,
                                             be_timestamp = bt_timestamp t \<rparr>) g)) \<rparr>"

text \<open>
  What a batch emits, type by type: nothing for a type without a matching subscriber; for
  the others the envelope of the type's tasks, serialized once, and that one string written
  to every recipient. A serialization that fails ends the drain: the types after it emit
  nothing (the second amendment of the claim). \<open>n\<close> counts the envelopes built.
\<close>

fun emitted ::
  "ConnectionMetadata list \<Rightarrow> Env \<Rightarrow> ('d ServerMessage \<Rightarrow> string option) \<Rightarrow>
   'd BroadcastTask list \<Rightarrow> nat \<Rightarrow> MessageType list \<Rightarrow> 'd Emission list" where
  "emitted conns env stringify batch n [] = []"
| "emitted conns env stringify batch n (ty # tys) =
     (if \<exists>conn \<in> set conns. matchingSubscriber ty conn
      then
        (case stringify (envelope (fst (env n)) (snd (env n)) ty
                           (filter (\<lambda>t. bt_type t = ty) batch)) of
           None \<Rightarrow> []
         | Some bytes \<Rightarrow>
             \<lparr> em_message = envelope (fst (env n)) (snd (env n)) ty
                              (filter (\<lambda>t. bt_type t = ty) batch),
               em_serialized = bytes,
               em_writes = map (\<lambda>conn. (cm_id conn, bytes)) (recipients conns ty) \<rparr>
             # emitted conns env stringify batch (Suc n) tys)
      else emitted conns env stringify batch n tys)"

text \<open>Example inputs used to instantiate the theorems below.\<close>

definition exampleEnv :: Env where
  "exampleEnv k = (''uuid'', 1000)"

definition exampleStringify :: "nat ServerMessage \<Rightarrow> string option" where
  "exampleStringify m = Some (sm_id m)"

text \<open>A \<^verbatim>\<open>JSON.stringify\<close> that throws on the messages of type \<open>stats\<close>.\<close>

definition failingStringify :: "nat ServerMessage \<Rightarrow> string option" where
  "failingStringify m = (if sm_type m = MT_stats then None else Some (sm_id m))"

definition exampleTask :: "MessageType \<Rightarrow> nat \<Rightarrow> MessagePriority \<Rightarrow> int \<Rightarrow> nat BroadcastTask" where
  "exampleTask ty d p t =
     \<lparr> bt_type = ty, bt_event = Ev_status_update, bt_data = d, bt_priority = p,
       bt_timestamp = t \<rparr>"

definition exampleConnection :: ConnectionMetadata where
  "exampleConnection =
     \<lparr> cm_id = ''c1'', cm_userId = ''u1'', cm_subscriptions = {MT_status},
       cm_isAlive = True, cm_socketOpen = True \<rparr>"

definition exampleScheduler :: "nat BroadcastTask list \<Rightarrow> nat WsScheduler" where
  "exampleScheduler q =
     \<lparr> messageQueue = q, isProcessing = False,
       config = \<lparr> broadcastBatchSize = 100, broadcastFlushInterval = 50 \<rparr>,
       connectionManager = [exampleConnection], inFlight = None \<rparr>"

text \<open>
  A fan-out with three connections: one subscribed to \<open>status\<close>, one to \<open>all\<close>, and one
  subscribed to \<open>status\<close> that is no longer alive; ids and clock readings that tell the merged
  messages apart; a scheduler with a given batch size.
\<close>

definition exampleConnections :: "ConnectionMetadata list" where
  "exampleConnections =
     [exampleConnection,
      \<lparr> cm_id = ''c2'', cm_userId = ''u2'', cm_subscriptions = {MT_all},
        cm_isAlive = True, cm_socketOpen = True \<rparr>,
      \<lparr> cm_id = ''c3'', cm_userId = ''u3'', cm_subscriptions = {MT_status},
        cm_isAlive = False, cm_socketOpen = True \<rparr>]"

definition exampleIds :: Env where
  "exampleIds k = (replicate (Suc k) CHR ''#'', 1000 + int k)"

definition exampleFanout :: "nat \<Rightarrow> nat BroadcastTask list \<Rightarrow> nat WsScheduler" where
  "exampleFanout batchSize q =
     \<lparr> messageQueue = q, isProcessing = False,
       config = \<lparr> broadcastBatchSize = batchSize, broadcastFlushInterval = 50 \<rparr>,
       connectionManager = exampleConnections, inFlight = None \<rparr>"


section \<open>The message router (src/message-router.js)\<close>

text \<open>
  The registry \<^verbatim>\<open>subscribers\<close> is a \<^verbatim>\<open>Map\<close> from a type name to a \<^verbatim>\<open>Set\<close> of
  callbacks. Callbacks are compared by identity; their type is a parameter.
\<close>

record 'cb MessageRouter =
  maxMessageSize :: nat
  subscribers :: "string \<rightharpoonup> 'cb set"

definition DEFAULT_MAX_MESSAGE_SIZE :: nat where
  "DEFAULT_MAX_MESSAGE_SIZE = 64 * 1024"

definition RESERVED_TYPES :: "string list" where
  "RESERVED_TYPES = [''error'']"

definition newMessageRouter :: "nat option \<Rightarrow> 'cb MessageRouter" where
  "newMessageRouter opt =
     \<lparr> maxMessageSize = (case opt of None \<Rightarrow> DEFAULT_MAX_MESSAGE_SIZE | Some n \<Rightarrow> n),
       subscribers = Map.empty \<rparr>"

text \<open>
  The result object of \<^verbatim>\<open>subscribe\<close>: the failure with its message, or the success, whose
  \<^verbatim>\<open>unsubscribe\<close> closure is determined by the type and the callback it captured.
\<close>

datatype 'cb SubscribeResult =
  SubscribeFailure string
| SubscribeSuccess string 'cb

definition subscribe ::
  "'cb MessageRouter \<Rightarrow> string \<Rightarrow> 'cb \<Rightarrow> 'cb MessageRouter \<times> 'cb SubscribeResult" where
  "subscribe r ty callback =
     (if ty \<in> set RESERVED_TYPES then
        (r, SubscribeFailure
              (''Cannot subscribe to reserved type '' @ [CHR 0x27] @ ty @ [CHR 0x27]
               @ ''. This type is reserved for system internal use.''))
      else
        (let subs = (if subscribers r ty = None then (subscribers r)(ty \<mapsto> {})
                     else subscribers r);
             subs' = (case subs ty of
                        None \<Rightarrow> subs
                      | Some callbacks \<Rightarrow> subs(ty \<mapsto> insert callback callbacks))
         in (r\<lparr>subscribers := subs'\<rparr>, SubscribeSuccess ty callback)))"

text \<open>Calling the closure: \<^verbatim>\<open>this.subscribers.get(type)?.delete(callback)\<close>.\<close>

definition unsubscribe :: "'cb MessageRouter \<Rightarrow> string \<Rightarrow> 'cb \<Rightarrow> 'cb MessageRouter" where
  "unsubscribe r ty callback =
     (case subscribers r ty of
        None \<Rightarrow> r
      | Some callbacks \<Rightarrow> r\<lparr>subscribers := (subscribers r)(ty \<mapsto> callbacks - {callback})\<rparr>)"

text \<open>\<^verbatim>\<open>this.subscribers.get(type)?.size ?? 0\<close>\<close>

definition getSubscriberCount :: "'cb MessageRouter \<Rightarrow> string \<Rightarrow> nat" where
  "getSubscriberCount r ty = (case subscribers r ty of None \<Rightarrow> 0 | Some callbacks \<Rightarrow> card callbacks)"

text \<open>
  What a client of the router can do to the registry: subscribe, and call an
  \<^verbatim>\<open>unsubscribe\<close> closure.
\<close>

datatype 'cb RouterRequest = Subscribe string 'cb | Unsubscribe string 'cb

fun routerStep :: "'cb MessageRouter \<Rightarrow> 'cb RouterRequest \<Rightarrow> 'cb MessageRouter" where
  "routerStep r (Subscribe ty callback) = fst (subscribe r ty callback)"
| "routerStep r (Unsubscribe ty callback) = unsubscribe r ty callback"

definition routerRun :: "'cb MessageRouter \<Rightarrow> 'cb RouterRequest list \<Rightarrow> 'cb MessageRouter" where
  "routerRun r reqs = foldl routerStep r reqs"


section \<open>The websocket message router (MessageRouter in backend/src/routes/system.ts)\<close>

datatype ErrorCode =
  PARSE_ERROR | INVALID_TYPE | INVALID_ACTION | MAX_CONNECTIONS_EXCEEDED | UNAUTHORIZED
| INTERNAL_ERROR | HEARTBEAT_TIMEOUT | QUEUE_OVERFLOW | SUBSCRIPTION_INVALID

text \<open>
  The elements of a payload's \<^verbatim>\<open>types\<close> array arrive as JSON strings. \<open>parseMessageType\<close>
  is the membership test \<^verbatim>\<open>VALID_MESSAGE_TYPES.has(type)\<close> together with the typed value.
\<close>

definition parseMessageType :: "string \<Rightarrow> MessageType option" where
  "parseMessageType str =
     (if str = ''status'' then Some MT_status
      else if str = ''stats'' then Some MT_stats
      else if str = ''health'' then Some MT_health
      else if str = ''config'' then Some MT_config
      else if str = ''system'' then Some MT_system
      else if str = ''error'' then Some MT_error
      else if str = ''all'' then Some MT_all
      else None)"

text \<open>The reply sent to the connection: \<^verbatim>\<open>sendError\<close> or \<^verbatim>\<open>sendAck\<close>.\<close>

datatype RouterReply =
  ErrorReply ErrorCode string
| AckReply ServerEvent "MessageType list"
| UnsubscribedReply "string list"

text \<open>\<^verbatim>\<open>ConnectionManager.updateSubscription\<close> and \<^verbatim>\<open>removeSubscription\<close>.\<close>

definition updateSubscription ::
  "ConnectionMetadata list \<Rightarrow> string \<Rightarrow> MessageType list \<Rightarrow> ConnectionMetadata list" where
  "updateSubscription conns connectionId types =
     map (\<lambda>conn. if cm_id conn = connectionId then conn\<lparr>cm_subscriptions := set types\<rparr>
                  else conn) conns"

definition removeSubscription ::
  "ConnectionMetadata list \<Rightarrow> string \<Rightarrow> string \<Rightarrow> ConnectionMetadata list" where
  "removeSubscription conns connectionId str =
     map (\<lambda>conn. if cm_id conn = connectionId
                  then conn\<lparr>cm_subscriptions :=
                              cm_subscriptions conn - set_option (parseMessageType str)\<rparr>
                  else conn) conns"

text \<open>
  \<^verbatim>\<open>handleSubscribe\<close>. The payload is \<open>None\<close> when it is missing or its \<^verbatim>\<open>types\<close> is not
  an array.
\<close>

definition handleSubscribe ::
  "ConnectionMetadata list \<Rightarrow> string \<Rightarrow> string list option \<Rightarrow>
   ConnectionMetadata list \<times> RouterReply" where
  "handleSubscribe conns connectionId payload =
     (case payload of
        None \<Rightarrow> (conns, ErrorReply SUBSCRIPTION_INVALID ''Invalid subscribe payload'')
      | Some types \<Rightarrow>
          (let validTypes =
                 filter (\<lambda>ty. ty \<noteq> MT_error) (List.map_filter parseMessageType types)
           in if validTypes = [] then
                (conns, ErrorReply SUBSCRIPTION_INVALID ''No valid message types provided'')
              else
                (updateSubscription conns connectionId validTypes,
                 AckReply Ev_subscribed validTypes)))"

definition handleUnsubscribe ::
  "ConnectionMetadata list \<Rightarrow> string \<Rightarrow> string list option \<Rightarrow>
   ConnectionMetadata list \<times> RouterReply" where
  "handleUnsubscribe conns connectionId payload =
     (case payload of
        None \<Rightarrow> (conns, ErrorReply SUBSCRIPTION_INVALID ''Invalid unsubscribe payload'')
      | Some types \<Rightarrow>
          (foldl (\<lambda>cs str. removeSubscription cs connectionId str) conns types,
           UnsubscribedReply types))"

text \<open>A subscription request of a client on its connection, and a run of such requests.\<close>

datatype SubscriptionRequest =
  SubscribeFrame string "string list option"
| UnsubscribeFrame string "string list option"

fun subscriptionStep ::
  "ConnectionMetadata list \<Rightarrow> SubscriptionRequest \<Rightarrow> ConnectionMetadata list" where
  "subscriptionStep conns (SubscribeFrame connectionId payload) =
     fst (handleSubscribe conns connectionId payload)"
| "subscriptionStep conns (UnsubscribeFrame connectionId payload) =
     fst (handleUnsubscribe conns connectionId payload)"

definition noErrorSubscription :: "ConnectionMetadata list \<Rightarrow> bool" where
  "noErrorSubscription conns = (\<forall>conn \<in> set conns. MT_error \<notin> cm_subscriptions conn)"


section \<open>The change detector (backend/src/websocket/change-detector.ts)\<close>

text \<open>
  JavaScript numbers are modelled as real numbers, the doubles being among them: the usage
  figures are fractions, and the detector compares them, which is exact on doubles, and
  subtracts two of them. The one sum that decides something, \<^verbatim>\<open>threshold + 15\<close> in
  \<^verbatim>\<open>getAlertLevel\<close>, is a sum of doubles, rounded to a double: the addition of the doubles is
  a parameter \<open>fadd\<close> of the health check. Counts and clock readings are integers.
\<close>

record SystemStatus =
  systemOnline :: bool
  cpuUsage :: real
  memoryUsage :: real
  diskUsage :: real
  activeConnections :: nat
  uptime :: nat
  st_timestamp :: int
  version :: string

record ChangeDetectorConfig =
  checkInterval :: nat
  cpuThreshold :: real
  memoryThreshold :: real
  diskThreshold :: real

definition defaultChangeDetectorConfig :: ChangeDetectorConfig where
  "defaultChangeDetectorConfig =
     \<lparr> checkInterval = 1000, cpuThreshold = 80, memoryThreshold = 80, diskThreshold = 90 \<rparr>"

text \<open>The value of a monitored field: a number or a boolean.\<close>

datatype FieldValue = NumberValue real | BooleanValue bool

record Change =
  ch_field :: string
  ch_oldValue :: FieldValue
  ch_newValue :: FieldValue
  ch_delta :: "real option"

datatype AlertLevel = Info | Warning | Critical

text \<open>
  A health alert. The \<^verbatim>\<open>message\<close> text, which is built from the component name and the
  threshold and decides nothing, is left out.
\<close>

record HealthAlert =
  ha_level :: AlertLevel
  ha_component :: string
  ha_threshold :: real
  ha_currentValue :: real
  ha_timestamp :: int

text \<open>The \<^verbatim>\<open>data\<close> argument of the detector's calls of \<^verbatim>\<open>broadcaster.broadcast\<close>.\<close>

datatype DetectorData =
  FirstStatusData SystemStatus
| StatusUpdateData SystemStatus "Change list" int
| HealthAlertData HealthAlert
| HealthRecoveryData string int

text \<open>One call \<^verbatim>\<open>broadcaster.broadcast(type, event, data, priority)\<close>.\<close>

record BroadcastCall =
  bc_type :: MessageType
  bc_event :: ServerEvent
  bc_data :: DetectorData
  bc_priority :: MessagePriority

text \<open>
  The detector's state: the last status, the last health record \<^verbatim>\<open>{value, level}\<close> of each
  component, and the configuration. (\<^verbatim>\<open>lastStats\<close> belongs to the statistics check.)
\<close>

record ChangeDetector =
  lastStatus :: "SystemStatus option"
  lastHealthStatus :: "string \<rightharpoonup> real \<times> AlertLevel"
  cd_config :: ChangeDetectorConfig

definition fieldsToMonitor :: "string list" where
  "fieldsToMonitor =
     [''cpuUsage'', ''memoryUsage'', ''diskUsage'', ''activeConnections'', ''systemOnline'']"

text \<open>\<^verbatim>\<open>status[field]\<close> for a monitored field.\<close>

definition statusField :: "SystemStatus \<Rightarrow> string \<Rightarrow> FieldValue" where
  "statusField st field =
     (if field = ''cpuUsage'' then NumberValue (cpuUsage st)
      else if field = ''memoryUsage'' then NumberValue (memoryUsage st)
      else if field = ''diskUsage'' then NumberValue (diskUsage st)
      else if field = ''activeConnections'' then NumberValue (real (activeConnections st))
      else BooleanValue (systemOnline st))"

text \<open>The body of the loop in \<^verbatim>\<open>detectStatusChanges\<close>, for one field.\<close>

definition detectFieldChange :: "SystemStatus \<Rightarrow> SystemStatus \<Rightarrow> string \<Rightarrow> Change option" where
  "detectFieldChange oldStatus currentStatus field =
     (let oldValue = statusField oldStatus field;
          newValue = statusField currentStatus field
      in if oldValue \<noteq> newValue then
           Some \<lparr> ch_field = field, ch_oldValue = oldValue, ch_newValue = newValue,
                  ch_delta = (case (oldValue, newValue) of
                                (NumberValue a, NumberValue b) \<Rightarrow> Some (b - a)
                              | _ \<Rightarrow> None) \<rparr>
         else None)"

definition detectStatusChanges :: "SystemStatus \<Rightarrow> SystemStatus \<Rightarrow> Change list" where
  "detectStatusChanges oldStatus currentStatus =
     List.map_filter (detectFieldChange oldStatus currentStatus) fieldsToMonitor"

definition criticalFields :: "string list" where
  "criticalFields = [''cpuUsage'', ''memoryUsage'']"

text \<open>The predicate of \<^verbatim>\<open>changes.some\<close> in \<^verbatim>\<open>calculateStatusPriority\<close>.\<close>

definition isCriticalChange :: "ChangeDetectorConfig \<Rightarrow> Change \<Rightarrow> bool" where
  "isCriticalChange cfg c =
     (if ch_field c \<notin> set criticalFields then False
      else
        (let threshold = (if ch_field c = ''cpuUsage'' then cpuThreshold cfg
                          else memoryThreshold cfg)
         in case ch_newValue c of
              NumberValue newValue \<Rightarrow> newValue > threshold
            | BooleanValue b \<Rightarrow> False))"

definition calculateStatusPriority :: "ChangeDetectorConfig \<Rightarrow> Change list \<Rightarrow> MessagePriority" where
  "calculateStatusPriority cfg changes =
     (let hasCritical = list_ex (isCriticalChange cfg) changes
      in if hasCritical then P_high
         else if length changes > 3 then P_normal
         else P_low)"

text \<open>
  \<^verbatim>\<open>checkStatusChange\<close>, given the result of \<^verbatim>\<open>fetchCurrentStatus\<close> (\<open>None\<close> for
  \<^verbatim>\<open>null\<close>) and the clock. It returns the detector and the broadcast calls it made.
\<close>

definition checkStatusChange ::
  "ChangeDetector \<Rightarrow> int \<Rightarrow> SystemStatus option \<Rightarrow> ChangeDetector \<times> BroadcastCall list" where
  "checkStatusChange d now fetched =
     (case fetched of
        None \<Rightarrow> (d, [])
      | Some currentStatus \<Rightarrow>
          (case lastStatus d of
             None \<Rightarrow>
               (d\<lparr>lastStatus := Some currentStatus\<rparr>,
                [\<lparr> bc_type = MT_status, bc_event = Ev_status_update,
                   bc_data = FirstStatusData currentStatus, bc_priority = P_normal \<rparr>])
           | Some oldStatus \<Rightarrow>
               (let changes = detectStatusChanges oldStatus currentStatus
                in (d\<lparr>lastStatus := Some currentStatus\<rparr>,
                    if length changes > 0 then
                      [\<lparr> bc_type = MT_status, bc_event = Ev_status_update,
                         bc_data = StatusUpdateData currentStatus changes now,
                         bc_priority = calculateStatusPriority (cd_config d) changes \<rparr>]
                    else []))))"

text \<open>\<^verbatim>\<open>getAlertLevel\<close>; \<open>fadd threshold 15\<close> is the double \<^verbatim>\<open>threshold + 15\<close>.\<close>

definition getAlertLevel :: "(real \<Rightarrow> real \<Rightarrow> real) \<Rightarrow> real \<Rightarrow> real \<Rightarrow> AlertLevel" where
  "getAlertLevel fadd v threshold =
     (if v > fadd threshold 15 then Critical
      else if v > threshold then Warning
      else Info)"

text \<open>
  The body of the loop in \<^verbatim>\<open>checkHealthAlerts\<close>, for one check \<open>(name, value, threshold)\<close>:
  the health map and the calls made so far go in and come out.
\<close>

definition healthCheckStep ::
  "(real \<Rightarrow> real \<Rightarrow> real) \<Rightarrow> int \<Rightarrow> (string \<rightharpoonup> real \<times> AlertLevel) \<times> BroadcastCall list \<Rightarrow>
   string \<times> real \<times> real \<Rightarrow> (string \<rightharpoonup> real \<times> AlertLevel) \<times> BroadcastCall list" where
  "healthCheckStep fadd now acc check =
     (case (acc, check) of ((health, calls), (name, v, threshold)) \<Rightarrow>
        (let lastHealth = health name;
             currentLevel = getAlertLevel fadd v threshold
         in if lastHealth = None \<or> map_option snd lastHealth \<noteq> Some currentLevel then
              (health(name \<mapsto> (v, currentLevel)),
               if currentLevel \<noteq> Info then
                 calls @
                 [\<lparr> bc_type = MT_health, bc_event = Ev_health_alert,
                    bc_data = HealthAlertData
                      \<lparr> ha_level = currentLevel, ha_component = name, ha_threshold = threshold,
                        ha_currentValue = v, ha_timestamp = now \<rparr>,
                    bc_priority = (if currentLevel = Critical then P_high else P_normal) \<rparr>]
               else if lastHealth \<noteq> None \<and> map_option snd lastHealth \<noteq> Some Info then
                 calls @
                 [\<lparr> bc_type = MT_health, bc_event = Ev_health_recovery,
                    bc_data = HealthRecoveryData name now, bc_priority = P_normal \<rparr>]
               else calls)
            else (health, calls)))"

definition checkHealthAlerts ::
  "(real \<Rightarrow> real \<Rightarrow> real) \<Rightarrow> ChangeDetector \<Rightarrow> int \<Rightarrow> ChangeDetector \<times> BroadcastCall list" where
  "checkHealthAlerts fadd d now =
     (case lastStatus d of
        None \<Rightarrow> (d, [])
      | Some currentStatus \<Rightarrow>
          (let checks =
                 [(''cpu'', cpuUsage currentStatus, cpuThreshold (cd_config d)),
                  (''memory'', memoryUsage currentStatus, memoryThreshold (cd_config d)),
                  (''disk'', diskUsage currentStatus, diskThreshold (cd_config d))];
               result = foldl (healthCheckStep fadd now) (lastHealthStatus d, []) checks
           in (d\<lparr>lastHealthStatus := fst result\<rparr>, snd result)))"

text \<open>
  One tick of the detector as far as status and health go: \<^verbatim>\<open>checkStatusChange\<close>, then
  \<^verbatim>\<open>checkHealthAlerts\<close> on the status just stored. \<open>detectorRun\<close> feeds a list of samples.
\<close>

definition detectorTick ::
  "(real \<Rightarrow> real \<Rightarrow> real) \<Rightarrow> int \<Rightarrow> ChangeDetector \<times> BroadcastCall list list \<Rightarrow> SystemStatus \<Rightarrow>
   ChangeDetector \<times> BroadcastCall list list" where
  "detectorTick fadd now acc sample =
     (let r1 = checkStatusChange (fst acc) now (Some sample);
          r2 = checkHealthAlerts fadd (fst r1) now
      in (fst r2, snd acc @ [snd r2]))"

definition healthRun ::
  "(real \<Rightarrow> real \<Rightarrow> real) \<Rightarrow> int \<Rightarrow> ChangeDetector \<Rightarrow> SystemStatus list \<Rightarrow>
   BroadcastCall list list" where
  "healthRun fadd now d samples = snd (foldl (detectorTick fadd now) (d, []) samples)"

definition newChangeDetector :: "ChangeDetectorConfig \<Rightarrow> ChangeDetector" where
  "newChangeDetector cfg = \<lparr> lastStatus = None, lastHealthStatus = Map.empty, cd_config = cfg \<rparr>"

text \<open>
  The addition of doubles on operands whose sum is a double, as the sums of 15 and the
  default thresholds 80 and 90 are.
\<close>

definition exactSum :: "real \<Rightarrow> real \<Rightarrow> real" where
  "exactSum a b = a + b"

text \<open>A sample with the given CPU usage and everything else at rest.\<close>

definition cpuSample :: "real \<Rightarrow> SystemStatus" where
  "cpuSample c =
     \<lparr> systemOnline = True, cpuUsage = c, memoryUsage = 40, diskUsage = 65,
       activeConnections = 0, uptime = 0, st_timestamp = 0, version = ''2.0.0'' \<rparr>"

text \<open>The event and the priority of a call, and the alert level it carries if any.\<close>

definition callSummary :: "BroadcastCall \<Rightarrow> ServerEvent \<times> MessagePriority \<times> AlertLevel option" where
  "callSummary c =
     (bc_event c, bc_priority c,
      case bc_data c of HealthAlertData a \<Rightarrow> Some (ha_level a) | _ \<Rightarrow> None)"

text \<open>A sample with the given CPU, memory and disk usage.\<close>

definition usageSample :: "real \<Rightarrow> real \<Rightarrow> real \<Rightarrow> SystemStatus" where
  "usageSample c m k =
     \<lparr> systemOnline = True, cpuUsage = c, memoryUsage = m, diskUsage = k,
       activeConnections = 0, uptime = 0, st_timestamp = 0, version = ''2.0.0'' \<rparr>"

text \<open>
  A detector at the default thresholds that has recorded the CPU at info, the memory at
  critical and the disk at info, and has just stored a sample with the CPU at 85 and the
  memory at 40.
\<close>

definition exampleDetector :: ChangeDetector where
  "exampleDetector =
     \<lparr> lastStatus = Some (usageSample 85 40 65),
       lastHealthStatus =
         [''cpu'' \<mapsto> (70, Info), ''memory'' \<mapsto> (97, Critical), ''disk'' \<mapsto> (65, Info)],
       cd_config = defaultChangeDetectorConfig \<rparr>"

subsection \<open>The health levels in the words of the specification\<close>

text \<open>
  The monitored components: the name, the sampled value and the configured threshold of
  each.
\<close>

definition monitored ::
  "(string \<times> (SystemStatus \<Rightarrow> real) \<times> (ChangeDetectorConfig \<Rightarrow> real)) list" where
  "monitored =
     [(''cpu'', cpuUsage, cpuThreshold),
      (''memory'', memoryUsage, memoryThreshold),
      (''disk'', diskUsage, diskThreshold)]"

text \<open>
  The level of a value against a threshold \<open>T\<close>: critical when the value exceeds \<open>T + 15\<close>
  (the sum as the program's numbers give it), warning when it exceeds \<open>T\<close>, info otherwise.
\<close>

definition levelOf :: "(real \<Rightarrow> real \<Rightarrow> real) \<Rightarrow> real \<Rightarrow> real \<Rightarrow> AlertLevel" where
  "levelOf fadd T v =
     (if fadd T 15 < v then Critical else if T < v then Warning else Info)"

text \<open>
  The events of one component on one sample, from the level before (\<open>None\<close> before the first
  sample) and the level of the sample. While the level is unchanged there is none. A change
  to a level that is not info is a \<open>health_alert\<close>, at priority high if the new level is
  critical and normal otherwise; that covers the transition away from info, and the code does
  the same on a change between warning and critical and on a first sample above the
  threshold. A change back to info from a level that is not info is a \<open>health_recovery\<close> at
  priority normal.
\<close>

definition transitionEvents ::
  "int \<Rightarrow> string \<Rightarrow> real \<Rightarrow> real \<Rightarrow> AlertLevel option \<Rightarrow> AlertLevel \<Rightarrow> BroadcastCall list" where
  "transitionEvents now name T v before level =
     (if before = Some level then []
      else if level \<noteq> Info then
        [\<lparr> bc_type = MT_health, bc_event = Ev_health_alert,
           bc_data = HealthAlertData
             \<lparr> ha_level = level, ha_component = name, ha_threshold = T,
               ha_currentValue = v, ha_timestamp = now \<rparr>,
           bc_priority = (if level = Critical then P_high else P_normal) \<rparr>]
      else if before = None then []
      else
        [\<lparr> bc_type = MT_health, bc_event = Ev_health_recovery,
           bc_data = HealthRecoveryData name now, bc_priority = P_normal \<rparr>])"

text \<open>
  The events of a sequence of samples, one list for each sample: for every monitored
  component in turn, the events of the transition from the level of the sample before to the
  level of this sample.
\<close>

fun expectedHealthEvents ::
  "(real \<Rightarrow> real \<Rightarrow> real) \<Rightarrow> int \<Rightarrow> ChangeDetectorConfig \<Rightarrow> SystemStatus option \<Rightarrow>
   SystemStatus list \<Rightarrow> BroadcastCall list list" where
  "expectedHealthEvents fadd now cfg before [] = []"
| "expectedHealthEvents fadd now cfg before (sample # samples) =
     concat (map (\<lambda>(name, usage, threshold).
                    transitionEvents now name (threshold cfg) (usage sample)
                      (map_option (\<lambda>b. levelOf fadd (threshold cfg) (usage b)) before)
                      (levelOf fadd (threshold cfg) (usage sample)))
                 monitored)
     # expectedHealthEvents fadd now cfg (Some sample) samples"

text \<open>The component a health call is about.\<close>

definition callComponent :: "BroadcastCall \<Rightarrow> string option" where
  "callComponent c =
     (case bc_data c of
        HealthAlertData a \<Rightarrow> Some (ha_component a)
      | HealthRecoveryData name t \<Rightarrow> Some name
      | _ \<Rightarrow> None)"

subsection \<open>The status priority in the words of the specification\<close>

text \<open>The number of monitored fields in which two samples differ.\<close>

definition changedFieldCount :: "SystemStatus \<Rightarrow> SystemStatus \<Rightarrow> nat" where
  "changedFieldCount a b =
     (if cpuUsage a \<noteq> cpuUsage b then 1 else 0)
     + (if memoryUsage a \<noteq> memoryUsage b then 1 else 0)
     + (if diskUsage a \<noteq> diskUsage b then 1 else 0)
     + (if activeConnections a \<noteq> activeConnections b then 1 else 0)
     + (if systemOnline a \<noteq> systemOnline b then 1 else 0)"

text \<open>
  A value crosses above a threshold when it was at or below it and now exceeds it. This is
  the priority rule as the claim words it.
\<close>

definition crossesAbove :: "real \<Rightarrow> real \<Rightarrow> real \<Rightarrow> bool" where
  "crossesAbove threshold oldValue newValue \<longleftrightarrow> oldValue \<le> threshold \<and> threshold < newValue"

definition crossingPriority ::
  "ChangeDetectorConfig \<Rightarrow> SystemStatus \<Rightarrow> SystemStatus \<Rightarrow> MessagePriority" where
  "crossingPriority cfg a b =
     (if crossesAbove (cpuThreshold cfg) (cpuUsage a) (cpuUsage b)
         \<or> crossesAbove (memoryThreshold cfg) (memoryUsage a) (memoryUsage b)
      then P_high
      else if changedFieldCount a b > 3 then P_normal
      else P_low)"

text \<open>
  The rule the code implements: a changed critical field counts when its new value exceeds
  the threshold, wherever the old value was.
\<close>

definition exceedingPriority ::
  "ChangeDetectorConfig \<Rightarrow> SystemStatus \<Rightarrow> SystemStatus \<Rightarrow> MessagePriority" where
  "exceedingPriority cfg a b =
     (if (cpuUsage a \<noteq> cpuUsage b \<and> cpuUsage b > cpuThreshold cfg)
         \<or> (memoryUsage a \<noteq> memoryUsage b \<and> memoryUsage b > memoryThreshold cfg)
      then P_high
      else if changedFieldCount a b > 3 then P_normal
      else P_low)"


section \<open>The websocket client (src/unnamed/part_004)\<close>

text \<open>
  A value as \<^verbatim>\<open>JSON.parse\<close> returns it. An object is the list of its members; the parser
  has already resolved duplicate keys.
\<close>

datatype json =
  JNull | JBool bool | JNumber real | JString string | JArray "json list"
| JObject "(string \<times> json) list"

text \<open>
  Reading a property of a value that is neither \<^verbatim>\<open>null\<close> nor \<^verbatim>\<open>undefined\<close>: a member of
  an object, \<^verbatim>\<open>undefined\<close> (here \<open>None\<close>) otherwise. The properties read by the client,
  \<^verbatim>\<open>event\<close>, \<^verbatim>\<open>data\<close> and \<^verbatim>\<open>connectionId\<close>, exist on no primitive and no array.
\<close>

fun getProp :: "json \<Rightarrow> string \<Rightarrow> json option" where
  "getProp (JObject members) key = map_of members key"
| "getProp _ key = None"

text \<open>Truthiness of a defined value.\<close>

fun truthy :: "json \<Rightarrow> bool" where
  "truthy JNull = False"
| "truthy (JBool b) = b"
| "truthy (JNumber n) = (n \<noteq> 0)"
| "truthy (JString str) = (str \<noteq> [])"
| "truthy (JArray xs) = True"
| "truthy (JObject members) = True"

datatype ConnectionState = Disconnected | Connecting | Connected | Reconnecting

datatype ReadyState = WS_CONNECTING | WS_OPEN | WS_CLOSING | WS_CLOSED

record ClientMessage =
  cl_id :: string
  cl_type :: string
  cl_timestamp :: int
  cl_action :: string
  cl_payload :: "json option"

record WebSocketClientOptions =
  url :: string
  autoConnect :: bool
  reconnectInterval :: real
  maxReconnectAttempts :: nat
  heartbeatInterval :: int
  heartbeatTimeout :: int

text \<open>\<^verbatim>\<open>DEFAULT_OPTIONS\<close> merged with the one required option.\<close>

definition defaultOptions :: "string \<Rightarrow> WebSocketClientOptions" where
  "defaultOptions u =
     \<lparr> url = u, autoConnect = True, reconnectInterval = 3000, maxReconnectAttempts = 5,
       heartbeatInterval = 30000, heartbeatTimeout = 60000 \<rparr>"

text \<open>A call of one of the callbacks in \<^verbatim>\<open>options\<close>, with its argument.\<close>

datatype CallbackEvent =
  OnOpen | OnClose | OnMessage json | OnError string | OnReconnecting nat

text \<open>
  The client object. \<open>c_ws\<close> is the ready state of the socket the client holds, \<open>None\<close> for
  \<^verbatim>\<open>null\<close>; \<open>c_reconnectTimer\<close> holds the delay of the pending \<^verbatim>\<open>setTimeout\<close>;
  \<open>c_heartbeatTimer\<close> tells whether an interval is set. Two logs record what the client does
  to its surroundings: \<open>c_wire\<close> the frames handed to \<^verbatim>\<open>ws.send\<close>, in order, and
  \<open>c_callbacks\<close> the callbacks invoked; \<open>c_closeRequests\<close> counts the calls of
  \<^verbatim>\<open>ws.close\<close>. \<^verbatim>\<open>ws.send\<close> and the callbacks are taken not to throw.
\<close>

record WebSocketClient =
  c_ws :: "ReadyState option"
  c_state :: ConnectionState
  c_reconnectAttempts :: nat
  c_reconnectTimer :: "real option"
  c_heartbeatTimer :: bool
  c_lastPongTime :: int
  c_messageQueue :: "ClientMessage list"
  c_subscriptions :: "string list"
  c_connectionId :: "json option"
  c_options :: WebSocketClientOptions
  c_wire :: "ClientMessage list"
  c_callbacks :: "CallbackEvent list"
  c_closeRequests :: nat

definition send :: "WebSocketClient \<Rightarrow> ClientMessage \<Rightarrow> WebSocketClient \<times> bool" where
  "send c message =
     (if c_state c = Connected \<and> c_ws c = Some WS_OPEN then
        (c\<lparr>c_wire := c_wire c @ [message]\<rparr>, True)
      else (c\<lparr>c_messageQueue := c_messageQueue c @ [message]\<rparr>, False))"

definition ping :: "WebSocketClient \<Rightarrow> string \<Rightarrow> int \<Rightarrow> WebSocketClient" where
  "ping c uuid now =
     fst (send c \<lparr> cl_id = uuid, cl_type = ''system'', cl_timestamp = now,
                   cl_action = ''ping'', cl_payload = None \<rparr>)"

text \<open>The payload \<^verbatim>\<open>{ types }\<close>.\<close>

definition typesPayload :: "string list \<Rightarrow> json" where
  "typesPayload types = JObject [(''types'', JArray (map JString types))]"

definition subscribeFrame :: "string \<Rightarrow> int \<Rightarrow> string list \<Rightarrow> ClientMessage" where
  "subscribeFrame uuid now types =
     \<lparr> cl_id = uuid, cl_type = ''config'', cl_timestamp = now, cl_action = ''subscribe'',
       cl_payload = Some (typesPayload types) \<rparr>"

text \<open>\<^verbatim>\<open>Set.add\<close> and \<^verbatim>\<open>Set.delete\<close> on a set that iterates in insertion order.\<close>

definition setAdd :: "string list \<Rightarrow> string \<Rightarrow> string list" where
  "setAdd xs x = (if x \<in> set xs then xs else xs @ [x])"

definition setDelete :: "string list \<Rightarrow> string \<Rightarrow> string list" where
  "setDelete xs x = filter (\<lambda>y. y \<noteq> x) xs"

definition clientSubscribe ::
  "WebSocketClient \<Rightarrow> string \<Rightarrow> int \<Rightarrow> string list \<Rightarrow> WebSocketClient" where
  "clientSubscribe c uuid now types =
     (let c' = c\<lparr>c_subscriptions := foldl setAdd (c_subscriptions c) types\<rparr>
      in if c_state c' = Connected then fst (send c' (subscribeFrame uuid now types))
         else c')"

definition clientUnsubscribe ::
  "WebSocketClient \<Rightarrow> string \<Rightarrow> int \<Rightarrow> string list \<Rightarrow> WebSocketClient" where
  "clientUnsubscribe c uuid now types =
     (let c' = c\<lparr>c_subscriptions := foldl setDelete (c_subscriptions c) types\<rparr>
      in if c_state c' = Connected then
           fst (send c' \<lparr> cl_id = uuid, cl_type = ''config'', cl_timestamp = now,
                          cl_action = ''unsubscribe'',
                          cl_payload = Some (typesPayload types) \<rparr>)
         else c')"

definition cleanup :: "WebSocketClient \<Rightarrow> WebSocketClient" where
  "cleanup c = c\<lparr>c_reconnectTimer := None, c_heartbeatTimer := False\<rparr>"

definition attemptReconnect :: "WebSocketClient \<Rightarrow> WebSocketClient" where
  "attemptReconnect c =
     (if c_reconnectAttempts c \<ge> maxReconnectAttempts (c_options c) then
        c\<lparr>c_state := Disconnected,
          c_callbacks := c_callbacks c @ [OnError ''Max reconnection attempts reached'']\<rparr>
      else
        (let attempts = c_reconnectAttempts c + 1;
             baseInterval = reconnectInterval (c_options c);
             delay = min (baseInterval * (3 / 2) ^ (attempts - 1)) 30000
         in c\<lparr>c_state := Reconnecting,
              c_reconnectAttempts := attempts,
              c_callbacks := c_callbacks c @ [OnReconnecting attempts],
              c_reconnectTimer := Some delay\<rparr>))"

text \<open>
  \<^verbatim>\<open>connect\<close>. The flag tells whether the \<^verbatim>\<open>WebSocket\<close> constructor throws (it does on a
  malformed URL); the error it throws is logged by the text of its message.
\<close>

definition connect :: "WebSocketClient \<Rightarrow> bool \<Rightarrow> WebSocketClient" where
  "connect c constructorThrows =
     (if c_state c = Connected \<or> c_state c = Connecting then c
      else
        (let c' = c\<lparr>c_state := Connecting\<rparr>
         in if constructorThrows then
              attemptReconnect (c'\<lparr>c_callbacks := c_callbacks c' @ [OnError ''SyntaxError'']\<rparr>)
            else c'\<lparr>c_ws := Some WS_CONNECTING\<rparr>))"

definition disconnect :: "WebSocketClient \<Rightarrow> WebSocketClient" where
  "disconnect c =
     (let c1 = cleanup c;
          c2 = (if c_ws c1 \<noteq> None
                then c1\<lparr>c_closeRequests := c_closeRequests c1 + 1, c_ws := None\<rparr>
                else c1)
      in c2\<lparr>c_state := Disconnected, c_connectionId := None\<rparr>)"

definition startHeartbeat :: "WebSocketClient \<Rightarrow> WebSocketClient" where
  "startHeartbeat c = c\<lparr>c_heartbeatTimer := True\<rparr>"

text \<open>
  The \<^verbatim>\<open>while\<close> loop of \<^verbatim>\<open>flushMessageQueue\<close>. \<^verbatim>\<open>send\<close> puts a message back at the end of
  the queue when the client cannot write, so the loop need not end: the result is \<open>None\<close>
  when it does not.
\<close>

partial_function (option) flushLoop :: "WebSocketClient \<Rightarrow> WebSocketClient option" where
  "flushLoop c =
     (case c_messageQueue c of
        [] \<Rightarrow> Some c
      | message # rest \<Rightarrow> flushLoop (fst (send (c\<lparr>c_messageQueue := rest\<rparr>) message)))"

declare flushLoop.simps [code]

definition flushMessageQueue ::
  "WebSocketClient \<Rightarrow> string \<Rightarrow> int \<Rightarrow> WebSocketClient option" where
  "flushMessageQueue c uuid now =
     (if c_messageQueue c = [] then Some c
      else
        (case flushLoop c of
           None \<Rightarrow> None
         | Some c' \<Rightarrow>
             if c_subscriptions c' \<noteq> [] then
               Some (fst (send c' (subscribeFrame uuid now (c_subscriptions c'))))
             else Some c'))"

definition handleOpen :: "WebSocketClient \<Rightarrow> string \<Rightarrow> int \<Rightarrow> WebSocketClient option" where
  "handleOpen c uuid now =
     (let c1 = c\<lparr>c_state := Connected, c_reconnectAttempts := 0, c_lastPongTime := now\<rparr>;
          c2 = startHeartbeat c1
      in case flushMessageQueue c2 uuid now of
           None \<Rightarrow> None
         | Some c3 \<Rightarrow> Some (c3\<lparr>c_callbacks := c_callbacks c3 @ [OnOpen]\<rparr>))"

definition handleClose :: "WebSocketClient \<Rightarrow> WebSocketClient" where
  "handleClose c =
     (let c1 = cleanup c;
          c2 = c1\<lparr>c_connectionId := None\<rparr>;
          c3 = c2\<lparr>c_callbacks := c_callbacks c2 @ [OnClose]\<rparr>
      in if c_state c3 \<noteq> Disconnected then attemptReconnect c3 else c3)"

definition handleError :: "WebSocketClient \<Rightarrow> WebSocketClient" where
  "handleError c = c\<lparr>c_callbacks := c_callbacks c @ [OnError ''WebSocket connection error'']\<rparr>"

text \<open>
  \<^verbatim>\<open>handleMessage\<close>, given the clock and the outcome of \<^verbatim>\<open>JSON.parse(event.data)\<close>, \<open>None\<close>
  when the parser throws. The whole body stands in one \<^verbatim>\<open>try\<close>: a \<^verbatim>\<open>TypeError\<close> from
  reading a property of \<^verbatim>\<open>null\<close> or \<^verbatim>\<open>undefined\<close> ends in the same \<^verbatim>\<open>catch\<close> as a parse
  error. \<open>failedToParse\<close> is that \<^verbatim>\<open>catch\<close> block.
\<close>

definition failedToParse :: "WebSocketClient \<Rightarrow> WebSocketClient" where
  "failedToParse c = c\<lparr>c_callbacks := c_callbacks c @ [OnError ''Failed to parse message'']\<rparr>"

definition handleMessage :: "WebSocketClient \<Rightarrow> int \<Rightarrow> json option \<Rightarrow> WebSocketClient" where
  "handleMessage c now parsed =
     (case parsed of
        None \<Rightarrow> failedToParse c
      | Some JNull \<Rightarrow> failedToParse c
      | Some message \<Rightarrow>
          if getProp message ''event'' = Some (JString ''pong'') then c\<lparr>c_lastPongTime := now\<rparr>
          else if getProp message ''event'' = Some (JString ''connected'') then
            (case getProp message ''data'' of
               None \<Rightarrow> failedToParse c
             | Some JNull \<Rightarrow> failedToParse c
             | Some data \<Rightarrow>
                 (let c' = (case getProp data ''connectionId'' of
                              None \<Rightarrow> c
                            | Some connectionId \<Rightarrow>
                                if truthy connectionId
                                then c\<lparr>c_connectionId := Some connectionId\<rparr> else c)
                  in c'\<lparr>c_callbacks := c_callbacks c' @ [OnMessage message]\<rparr>))
          else c\<lparr>c_callbacks := c_callbacks c @ [OnMessage message]\<rparr>)"

text \<open>The callback of the heartbeat interval.\<close>

definition heartbeatTick :: "WebSocketClient \<Rightarrow> string \<Rightarrow> int \<Rightarrow> WebSocketClient" where
  "heartbeatTick c uuid now =
     (let timeSinceLastPong = now - c_lastPongTime c
      in if timeSinceLastPong > heartbeatTimeout (c_options c) then
           (if c_ws c \<noteq> None then c\<lparr>c_closeRequests := c_closeRequests c + 1\<rparr> else c)
         else ping c uuid now)"

text \<open>The constructor; the flag is handed to \<^verbatim>\<open>connect\<close> when \<^verbatim>\<open>autoConnect\<close> is set.\<close>

definition newClient :: "WebSocketClientOptions \<Rightarrow> int \<Rightarrow> bool \<Rightarrow> WebSocketClient" where
  "newClient opts now constructorThrows =
     (let c = \<lparr> c_ws = None, c_state = Disconnected, c_reconnectAttempts = 0,
                c_reconnectTimer = None, c_heartbeatTimer = False, c_lastPongTime = now,
                c_messageQueue = [], c_subscriptions = [], c_connectionId = None,
                c_options = opts, c_wire = [], c_callbacks = [], c_closeRequests = 0 \<rparr>
      in if autoConnect opts then connect c constructorThrows else c)"

text \<open>
  Everything that can happen to a client: the events of its socket, its two timers, and the
  calls of its public methods. A socket event carries the ready state the socket has when
  the event is delivered.
\<close>

datatype ClientEvent =
  SocketOpened string int
| SocketClosed
| SocketErrored
| FrameReceived int "json option"
| ReconnectTimerFired bool
| HeartbeatTimerFired string int
| CallConnect bool
| CallDisconnect
| CallSend ClientMessage
| CallSubscribe string int "string list"
| CallUnsubscribe string int "string list"

fun clientStep :: "WebSocketClient \<Rightarrow> ClientEvent \<Rightarrow> WebSocketClient option" where
  "clientStep c (SocketOpened uuid now) =
     handleOpen (c\<lparr>c_ws := map_option (\<lambda>r. WS_OPEN) (c_ws c)\<rparr>) uuid now"
| "clientStep c SocketClosed =
     Some (handleClose (c\<lparr>c_ws := map_option (\<lambda>r. WS_CLOSED) (c_ws c)\<rparr>))"
| "clientStep c SocketErrored = Some (handleError c)"
| "clientStep c (FrameReceived now parsed) = Some (handleMessage c now parsed)"
| "clientStep c (ReconnectTimerFired constructorThrows) =
     Some (if c_reconnectTimer c \<noteq> None then connect c constructorThrows else c)"
| "clientStep c (HeartbeatTimerFired uuid now) =
     Some (if c_heartbeatTimer c then heartbeatTick c uuid now else c)"
| "clientStep c (CallConnect constructorThrows) = Some (connect c constructorThrows)"
| "clientStep c CallDisconnect = Some (disconnect c)"
| "clientStep c (CallSend message) = Some (fst (send c message))"
| "clientStep c (CallSubscribe uuid now types) = Some (clientSubscribe c uuid now types)"
| "clientStep c (CallUnsubscribe uuid now types) = Some (clientUnsubscribe c uuid now types)"

fun clientRun :: "WebSocketClient \<Rightarrow> ClientEvent list \<Rightarrow> WebSocketClient option" where
  "clientRun c [] = Some c"
| "clientRun c (e # es) =
     (case clientStep c e of None \<Rightarrow> None | Some c' \<Rightarrow> clientRun c' es)"


text \<open>The attempt counter is within the configured ceiling.\<close>

definition attemptsBounded :: "WebSocketClientOptions \<Rightarrow> WebSocketClient \<Rightarrow> bool" where
  "attemptsBounded opts c \<longleftrightarrow>
     c_reconnectAttempts c \<le> maxReconnectAttempts opts \<and> c_options c = opts"


text \<open>A client for the examples: default options, not connecting by itself.\<close>

definition exampleClient :: WebSocketClient where
  "exampleClient =
     newClient ((defaultOptions ''wss://host/ws'')\<lparr>autoConnect := False\<rparr>) 0 False"


text \<open>
  The client of the reconnect scenario at the moment its second socket opens: it has
  subscribed to status and stats while connected, lost the socket, and is one attempt into
  reconnecting, with nothing in its offline queue.
\<close>

definition reconnectedClient :: WebSocketClient where
  "reconnectedClient =
     exampleClient
       \<lparr>c_ws := Some WS_OPEN, c_state := Connecting, c_reconnectAttempts := 1,
         c_reconnectTimer := Some 3000, c_lastPongTime := 10,
         c_subscriptions := [''status'', ''stats''],
         c_wire := [subscribeFrame ''u2'' 11 [''status'', ''stats'']],
         c_callbacks := [OnOpen, OnClose, OnReconnecting 1]\<rparr>"


text \<open>Example frames, as parsed.\<close>

definition pongFrame :: json where
  "pongFrame = JObject [(''event'', JString ''pong''), (''data'', JObject [(''serverTime'', JNumber 99)])]"

definition connectedFrame :: json where
  "connectedFrame =
     JObject [(''event'', JString ''connected''),
              (''data'', JObject [(''connectionId'', JString ''abc'')])]"

definition statusFrame :: json where
  "statusFrame = JObject [(''event'', JString ''status_update''), (''data'', JNull)]"

definition connectedFrameWithoutData :: json where
  "connectedFrameWithoutData = JObject [(''type'', JString ''system''), (''event'', JString ''connected'')]"


section \<open>Verified properties\<close>

subsection \<open>The bounded scheduler: queue bound and displacement\<close>

lemma findIndex_None_iff: "findIndex P xs = None \<longleftrightarrow> (\<forall>x \<in> set xs. \<not> P x)"
  by (induction xs) auto

lemma findIndex_Some_less: "findIndex P xs = Some i \<Longrightarrow> i < length xs"
  by (induction xs arbitrary: i) (auto split: if_splits)

lemma findIndex_Some_split:
  "findIndex P xs = Some i \<Longrightarrow>
     (\<forall>x \<in> set (take i xs). \<not> P x) \<and> P (xs ! i) \<and> i < length xs"
proof (induction xs arbitrary: i)
  case Nil
  then show ?case by simp
next
  case (Cons x xs)
  show ?case
  proof (cases "P x")
    case True
    with Cons.prems show ?thesis by simp
  next
    case False
    with Cons.prems obtain j where j: "findIndex P xs = Some j" "i = Suc j"
      by auto
    from Cons.IH [OF j(1)] False j(2) show ?thesis by simp
  qed
qed

lemma splice_remove_evictFirst:
  "findIndex P xs = Some i \<Longrightarrow> splice_remove i xs = evictFirst P xs"
proof (induction xs arbitrary: i)
  case Nil
  then show ?case by simp
next
  case (Cons x xs)
  show ?case
  proof (cases "P x")
    case True
    with Cons.prems show ?thesis by (simp add: splice_remove_def)
  next
    case False
    with Cons.prems obtain j where j: "findIndex P xs = Some j" "i = Suc j"
      by auto
    from Cons.IH [OF j(1)] False j(2) show ?thesis by (simp add: splice_remove_def)
  qed
qed

lemma length_splice_remove: "i < length xs \<Longrightarrow> Suc (length (splice_remove i xs)) = length xs"
  by (simp add: splice_remove_def)

lemma length_insertByPriority: "length (insertByPriority q m) = Suc (length q)"
  by (auto simp: insertByPriority_def splice_insert_def split: option.splits
           dest: findIndex_Some_less)

lemma length_enqueue_below:
  "length (queue s) < maxQueueSize s \<Longrightarrow>
     length (queue (fst (enqueue s m))) = Suc (length (queue s))"
  by (simp add: enqueue_def length_insertByPriority)

lemma length_enqueue_full:
  "maxQueueSize s \<le> length (queue s) \<Longrightarrow>
     length (queue (fst (enqueue s m))) = length (queue s)"
  by (auto simp: enqueue_def length_insertByPriority split: option.splits
           dest!: findIndex_Some_less length_splice_remove)

lemma maxQueueSize_enqueue: "maxQueueSize (fst (enqueue s m)) = maxQueueSize s"
  by (simp add: enqueue_def split: option.splits)

lemma enqueue_keeps_bound:
  assumes "length (queue s) \<le> maxQueueSize s"
  shows "length (queue (fst (enqueue s m))) \<le> maxQueueSize (fst (enqueue s m))"
proof (cases "length (queue s) < maxQueueSize s")
  case True
  then show ?thesis
    by (simp add: length_enqueue_below maxQueueSize_enqueue)
next
  case False
  with assms have "maxQueueSize s \<le> length (queue s)" by simp
  from length_enqueue_full [OF this] assms show ?thesis
    by (simp add: maxQueueSize_enqueue)
qed

lemma enqueueAll_keeps_bound:
  "length (queue s) \<le> maxQueueSize s \<Longrightarrow>
     length (queue (enqueueAll s ms)) \<le> maxQueueSize (enqueueAll s ms)"
  unfolding enqueueAll_def
proof (induction ms arbitrary: s)
  case Nil
  then show ?case by simp
next
  case (Cons m ms)
  from Cons.IH [OF enqueue_keeps_bound [OF Cons.prems]] show ?case by simp
qed

lemma maxQueueSize_enqueueAll: "maxQueueSize (enqueueAll s ms) = maxQueueSize s"
  unfolding enqueueAll_def
  by (induction ms arbitrary: s) (simp_all add: maxQueueSize_enqueue)


subsection \<open>Insertion on a priority-sorted queue\<close>

lemma sorted_key_above:
  "sorted (map k (x # xs)) \<Longrightarrow> n < k x \<Longrightarrow> \<forall>y \<in> set xs. n < k y"
  by (induction xs) auto

lemma findIndex_insert_sorted:
  fixes k :: "'a \<Rightarrow> nat"
  assumes "sorted (map k q)"
  shows "(case findIndex (\<lambda>x. k x > n) q of
            None \<Rightarrow> q @ [m]
          | Some i \<Rightarrow> splice_insert i m q)
         = filter (\<lambda>x. k x \<le> n) q @ [m] @ filter (\<lambda>x. k x > n) q"
  using assms
proof (induction q)
  case Nil
  then show ?case by simp
next
  case (Cons x xs)
  show ?case
  proof (cases "n < k x")
    case True
    from sorted_key_above [OF Cons.prems True]
    have all: "\<forall>y \<in> set xs. n < k y" .
    then have "filter (\<lambda>x. k x \<le> n) xs = []" "filter (\<lambda>x. k x > n) xs = xs"
      by (auto simp: filter_empty_conv filter_id_conv)
    with True show ?thesis by (simp add: splice_insert_def)
  next
    case False
    from Cons.prems have "sorted (map k xs)" by simp
    from Cons.IH [OF this] False show ?thesis
      by (cases "findIndex (\<lambda>x. k x > n) xs") (simp_all add: splice_insert_def)
  qed
qed

lemma insertByPriority_sorted:
  "prioritySorted q \<Longrightarrow> insertByPriority q m = insertInPriorityOrder q m"
  unfolding prioritySorted_def insertByPriority_def insertInPriorityOrder_def
  by (rule findIndex_insert_sorted)

lemma sorted_map_evictFirst:
  fixes k :: "'a \<Rightarrow> nat"
  shows "sorted (map k xs) \<Longrightarrow> sorted (map k (evictFirst P xs))"
proof (induction xs)
  case Nil
  then show ?case by simp
next
  case (Cons x xs)
  have sub: "set (evictFirst P xs) \<subseteq> set xs"
    by (induction xs) auto
  from Cons sub show ?case by auto
qed

lemma prioritySorted_evictFirst:
  "prioritySorted q \<Longrightarrow> prioritySorted (evictFirst P q)"
  unfolding prioritySorted_def by (rule sorted_map_evictFirst)

lemma sorted_filter_insert:
  fixes k :: "'a \<Rightarrow> nat"
  assumes "sorted (map k q)"
  shows "sorted (map k (filter (\<lambda>x. k x \<le> k m) q @ [m] @ filter (\<lambda>x. k x > k m) q))"
proof -
  have 1: "sorted (map k (filter (\<lambda>x. k x \<le> k m) q))"
    using assms by (simp add: sorted_filter)
  have 2: "sorted (map k (filter (\<lambda>x. k x > k m) q))"
    using assms by (simp add: sorted_filter)
  show ?thesis
    using 1 2 by (auto simp: sorted_append)
qed

lemma prioritySorted_insertInPriorityOrder:
  "prioritySorted q \<Longrightarrow> prioritySorted (insertInPriorityOrder q m)"
  unfolding prioritySorted_def insertInPriorityOrder_def
  by (rule sorted_filter_insert [where k = "\<lambda>m. priorityOrder (bm_priority m)"])

lemma enqueue_full_admissionRule:
  assumes full: "maxQueueSize s \<le> length (queue s)"
      and srt: "prioritySorted (queue s)"
  shows "enqueue s m =
           (s\<lparr>queue := fst (admissionRule (queue s) m)\<rparr>, snd (admissionRule (queue s) m))"
proof (cases "findIndex (\<lambda>x. bm_priority x = Low) (queue s)")
  case None
  then have nolow: "\<not> (\<exists>x \<in> set (queue s). bm_priority x = Low)"
    by (simp add: findIndex_None_iff)
  show ?thesis
  proof (cases "findIndex (\<lambda>x. bm_priority x = Medium) (queue s)")
    case None
    then have "\<not> (\<exists>x \<in> set (queue s). bm_priority x = Medium)"
      by (simp add: findIndex_None_iff)
    with nolow full None \<open>findIndex (\<lambda>x. bm_priority x = Low) (queue s) = None\<close>
    show ?thesis by (simp add: enqueue_def admissionRule_def)
  next
    case (Some j)
    then have ex: "\<exists>x \<in> set (queue s). bm_priority x = Medium"
      using findIndex_None_iff [of "\<lambda>x. bm_priority x = Medium" "queue s"] by auto
    have ev: "splice_remove j (queue s) = evictFirst (\<lambda>x. bm_priority x = Medium) (queue s)"
      by (rule splice_remove_evictFirst [OF Some])
    have "insertByPriority (evictFirst (\<lambda>x. bm_priority x = Medium) (queue s)) m
          = insertInPriorityOrder (evictFirst (\<lambda>x. bm_priority x = Medium) (queue s)) m"
      by (rule insertByPriority_sorted [OF prioritySorted_evictFirst [OF srt]])
    with nolow ex full Some ev \<open>findIndex (\<lambda>x. bm_priority x = Low) (queue s) = None\<close>
    show ?thesis by (simp add: enqueue_def admissionRule_def)
  qed
next
  case (Some i)
  then have ex: "\<exists>x \<in> set (queue s). bm_priority x = Low"
    using findIndex_None_iff [of "\<lambda>x. bm_priority x = Low" "queue s"] by auto
  have ev: "splice_remove i (queue s) = evictFirst (\<lambda>x. bm_priority x = Low) (queue s)"
    by (rule splice_remove_evictFirst [OF Some])
  have "insertByPriority (evictFirst (\<lambda>x. bm_priority x = Low) (queue s)) m
        = insertInPriorityOrder (evictFirst (\<lambda>x. bm_priority x = Low) (queue s)) m"
    by (rule insertByPriority_sorted [OF prioritySorted_evictFirst [OF srt]])
  with ex full Some ev show ?thesis by (simp add: enqueue_def admissionRule_def)
qed

lemma prioritySorted_enqueue:
  assumes "prioritySorted (queue s)"
  shows "prioritySorted (queue (fst (enqueue s m)))"
proof (cases "maxQueueSize s \<le> length (queue s)")
  case True
  from enqueue_full_admissionRule [OF True assms, of m] assms show ?thesis
    by (simp add: admissionRule_def prioritySorted_insertInPriorityOrder
                  prioritySorted_evictFirst)
next
  case False
  then have "queue (fst (enqueue s m)) = insertByPriority (queue s) m"
    by (simp add: enqueue_def)
  with assms show ?thesis
    by (simp add: insertByPriority_sorted prioritySorted_insertInPriorityOrder)
qed

lemma prioritySorted_enqueueAll:
  "prioritySorted (queue s) \<Longrightarrow> prioritySorted (queue (enqueueAll s ms))"
  unfolding enqueueAll_def
proof (induction ms arbitrary: s)
  case Nil
  then show ?case by simp
next
  case (Cons m ms)
  from Cons.IH [OF prioritySorted_enqueue [OF Cons.prems]] show ?case by simp
qed


text \<open>
  The queue of the bounded scheduler never holds more than \<open>maxQueueSize\<close> messages: after
  every sequence of \<^verbatim>\<open>enqueue\<close> calls on a freshly constructed scheduler the queue length is
  at most \<open>maxQueueSize\<close>, the default bound is 1000, and an \<^verbatim>\<open>enqueue\<close> on a queue that
  has reached the bound never appends (the length stays what it was, whether the message is
  admitted by displacement or rejected).
\<close>

lemma bounded_scheduler_queue_bound:
  "length (queue (enqueueAll (newScheduler opt :: 'c Scheduler) ms))
     \<le> maxQueueSize (newScheduler opt :: 'c Scheduler)
   \<and> maxQueueSize (newScheduler None :: 'c Scheduler) = 1000
   \<and> (maxQueueSize s \<le> length (queue s) \<longrightarrow>
        length (queue (fst (enqueue s m))) = length (queue s))"
proof -
  have "length (queue (newScheduler opt :: 'c Scheduler))
          \<le> maxQueueSize (newScheduler opt :: 'c Scheduler)"
    by (simp add: newScheduler_def)
  from enqueueAll_keeps_bound [OF this, of ms]
  have "length (queue (enqueueAll (newScheduler opt :: 'c Scheduler) ms))
          \<le> maxQueueSize (newScheduler opt :: 'c Scheduler)"
    by (simp add: maxQueueSize_enqueueAll)
  moreover have "maxQueueSize (newScheduler None :: 'c Scheduler) = 1000"
    by (simp add: newScheduler_def DEFAULT_MAX_QUEUE_SIZE_def)
  ultimately show ?thesis
    using length_enqueue_full [of s m] by blast
qed

lemma bounded_scheduler_queue_bound_example:
  "length (queue (enqueueAll (newScheduler (Some 2))
       [mkMessage ''a'' Low 1, mkMessage ''b'' High 2, mkMessage ''c'' Medium 3,
        mkMessage ''d'' High 4])) \<le> 2
   \<and> maxQueueSize \<lparr>maxQueueSize = 1, queue = [mkMessage ''a'' Low 1]\<rparr>
        \<le> length (queue \<lparr>maxQueueSize = 1, queue = [mkMessage ''a'' Low 1]\<rparr>)
   \<and> length (queue (fst (enqueue \<lparr>maxQueueSize = 1, queue = [mkMessage ''a'' Low 1]\<rparr>
                             (mkMessage ''b'' High 2)))) = 1"
  using bounded_scheduler_queue_bound
          [of "Some 2"
              "[mkMessage ''a'' Low 1, mkMessage ''b'' High 2, mkMessage ''c'' Medium 3,
                mkMessage ''d'' High 4]"
              "\<lparr>maxQueueSize = 1, queue = [mkMessage ''a'' Low 1]\<rparr>"
              "mkMessage ''b'' High 2"]
  by (simp add: newScheduler_def)

lemma priorityTimeSorted_insertInPriorityOrder:
  assumes "priorityTimeSorted q"
      and "\<forall>x \<in> set q. bm_timestamp x \<le> bm_timestamp m"
  shows "priorityTimeSorted (insertInPriorityOrder q m)"
proof -
  let ?lo = "filter (\<lambda>x. priorityOrder (bm_priority x) \<le> priorityOrder (bm_priority m)) q"
  let ?hi = "filter (\<lambda>x. priorityOrder (bm_priority x) > priorityOrder (bm_priority m)) q"
  from assms(1) have lo: "sorted_wrt messageBefore ?lo" and hi: "sorted_wrt messageBefore ?hi"
    by (simp_all add: priorityTimeSorted_def sorted_wrt_filter)
  have lo_m: "\<forall>x \<in> set ?lo. messageBefore x m"
    using assms(2) by (auto simp: messageBefore_def)
  have m_hi: "\<forall>y \<in> set ?hi. messageBefore m y"
    by (auto simp: messageBefore_def)
  have lo_hi: "\<forall>x \<in> set ?lo. \<forall>y \<in> set ?hi. messageBefore x y"
    by (auto simp: messageBefore_def)
  from lo hi lo_m m_hi lo_hi show ?thesis
    unfolding priorityTimeSorted_def insertInPriorityOrder_def
    by (simp add: sorted_wrt_append)
qed

lemma sorted_wrt_evictFirst: "sorted_wrt R xs \<Longrightarrow> sorted_wrt R (evictFirst P xs)"
proof (induction xs)
  case Nil
  then show ?case by simp
next
  case (Cons x xs)
  have sub: "set (evictFirst P xs) \<subseteq> set xs"
    by (induction xs) auto
  from Cons sub show ?case by auto
qed

lemma set_evictFirst_subset: "set (evictFirst P xs) \<subseteq> set xs"
  by (induction xs) auto

lemma priorityTimeSorted_admissionRule:
  assumes "priorityTimeSorted q"
      and "\<forall>x \<in> set q. bm_timestamp x \<le> bm_timestamp m"
  shows "priorityTimeSorted (fst (admissionRule q m))"
proof -
  have ev: "priorityTimeSorted (evictFirst P q)" for P
    using assms(1) unfolding priorityTimeSorted_def by (rule sorted_wrt_evictFirst)
  have ts: "\<forall>x \<in> set (evictFirst P q). bm_timestamp x \<le> bm_timestamp m" for P
    using assms(2) set_evictFirst_subset [of P q] by blast
  show ?thesis
    using assms(1) priorityTimeSorted_insertInPriorityOrder [OF ev ts]
    by (simp add: admissionRule_def)
qed

text \<open>
  Claim C3. When \<^verbatim>\<open>enqueue\<close> is called on a queue that holds exactly \<open>maxQueueSize\<close>
  messages (kept in priority order, as every queue built by \<^verbatim>\<open>enqueue\<close> is), its result is the
  one the four steps of the admission rule prescribe: a queued low message and a non-low
  incoming one evict the first low message and insert the incoming one in priority order,
  behind the queued messages of its own priority; otherwise a low incoming message is
  rejected; otherwise a queued medium message and a high incoming one evict the first medium
  message and insert; otherwise the message is rejected. Every accepted enqueue leaves the
  length at \<open>maxQueueSize\<close>, and the queue stays in priority order. Ties go by the time of
  the enqueue: when the incoming message is stamped no earlier than the queued ones, a queue
  ordered by priority and timestamp stays so ordered.
\<close>

theorem enqueue_full_follows_admission_rule:
  assumes "length (queue s) = maxQueueSize s"
      and "prioritySorted (queue s)"
  shows "enqueue s m =
           (s\<lparr>queue := fst (admissionRule (queue s) m)\<rparr>, snd (admissionRule (queue s) m))
         \<and> (snd (enqueue s m) \<longrightarrow> length (queue (fst (enqueue s m))) = maxQueueSize s)
         \<and> prioritySorted (queue (fst (enqueue s m)))
         \<and> (priorityTimeSorted (queue s)
              \<and> (\<forall>x \<in> set (queue s). bm_timestamp x \<le> bm_timestamp m) \<longrightarrow>
            priorityTimeSorted (queue (fst (enqueue s m))))"
proof -
  from assms(1) have full: "maxQueueSize s \<le> length (queue s)" by simp
  have eq: "enqueue s m =
           (s\<lparr>queue := fst (admissionRule (queue s) m)\<rparr>, snd (admissionRule (queue s) m))"
    by (rule enqueue_full_admissionRule [OF full assms(2)])
  have len: "length (queue (fst (enqueue s m))) = maxQueueSize s"
    using length_enqueue_full [OF full, of m] assms(1) by simp
  have srt: "prioritySorted (queue (fst (enqueue s m)))"
    by (rule prioritySorted_enqueue [OF assms(2)])
  have ts: "priorityTimeSorted (queue s)
              \<and> (\<forall>x \<in> set (queue s). bm_timestamp x \<le> bm_timestamp m) \<longrightarrow>
            priorityTimeSorted (queue (fst (enqueue s m)))"
    using priorityTimeSorted_admissionRule [of "queue s" m] by (simp add: eq)
  from eq len srt ts show ?thesis by blast
qed

theorem enqueue_full_follows_admission_rule_witness:
  "length (queue (enqueueAll (newScheduler (Some 3))
       [mkMessage ''L1'' Low 1, mkMessage ''L2'' Low 2, mkMessage ''L3'' Low 3])) = 3
   \<and> prioritySorted (queue (enqueueAll (newScheduler (Some 3))
       [mkMessage ''L1'' Low 1, mkMessage ''L2'' Low 2, mkMessage ''L3'' Low 3]))
   \<and> enqueue (enqueueAll (newScheduler (Some 3))
         [mkMessage ''L1'' Low 1, mkMessage ''L2'' Low 2, mkMessage ''L3'' Low 3])
       (mkMessage ''H1'' High 4)
     = (\<lparr>maxQueueSize = 3,
         queue = [mkMessage ''H1'' High 4, mkMessage ''L2'' Low 2, mkMessage ''L3'' Low 3]\<rparr>,
        True)"
proof -
  let ?s = "enqueueAll (newScheduler (Some 3))
       [mkMessage ''L1'' Low 1, mkMessage ''L2'' Low 2, mkMessage ''L3'' Low 3]"
  have q: "?s = \<lparr>maxQueueSize = 3,
       queue = [mkMessage ''L1'' Low 1, mkMessage ''L2'' Low 2, mkMessage ''L3'' Low 3]\<rparr>"
    by (simp add: enqueueAll_def enqueue_def newScheduler_def insertByPriority_def
                  splice_insert_def mkMessage_def)
  have h1: "length (queue ?s) = maxQueueSize ?s"
    unfolding q by simp
  have h2: "prioritySorted (queue ?s)"
    unfolding q by (simp add: prioritySorted_def mkMessage_def)
  from enqueue_full_follows_admission_rule [OF h1 h2, of "mkMessage ''H1'' High 4"]
  have "enqueue ?s (mkMessage ''H1'' High 4) =
          (?s\<lparr>queue := fst (admissionRule (queue ?s) (mkMessage ''H1'' High 4))\<rparr>,
           snd (admissionRule (queue ?s) (mkMessage ''H1'' High 4)))"
    by blast
  then have "enqueue ?s (mkMessage ''H1'' High 4)
     = (\<lparr>maxQueueSize = 3,
         queue = [mkMessage ''H1'' High 4, mkMessage ''L2'' Low 2, mkMessage ''L3'' Low 3]\<rparr>,
        True)"
    unfolding q by (simp add: admissionRule_def insertInPriorityOrder_def mkMessage_def)
  with h1 h2 show ?thesis unfolding q by simp
qed

text \<open>
  The second half of the displacement scenario: with the queue at \<open>[H1, L2, L3]\<close> and
  \<open>maxQueueSize = 3\<close>, a further low message is rejected and the queue is unchanged.
\<close>

lemma displacement_scenario_low_rejected:
  "enqueue \<lparr>maxQueueSize = 3,
            queue = [mkMessage ''H1'' High 4, mkMessage ''L2'' Low 2, mkMessage ''L3'' Low 3]\<rparr>
          (mkMessage ''L4'' Low 5)
   = (\<lparr>maxQueueSize = 3,
       queue = [mkMessage ''H1'' High 4, mkMessage ''L2'' Low 2, mkMessage ''L3'' Low 3]\<rparr>,
      False)"
  by (simp add: enqueue_def mkMessage_def)


subsection \<open>The websocket scheduler: sorting\<close>

lemma compareTasks_le_iff: "compareTasks a b \<le> 0 \<longleftrightarrow> taskBefore a b"
  by (auto simp: compareTasks_def taskBefore_def Let_def)

lemma taskBefore_total: "\<not> taskBefore a b \<Longrightarrow> taskBefore b a"
  by (auto simp: taskBefore_def)

lemma taskBefore_trans: "taskBefore a b \<Longrightarrow> taskBefore b c \<Longrightarrow> taskBefore a c"
  by (auto simp: taskBefore_def)

lemma set_insertBy: "set (insertBy cmp x ys) = insert x (set ys)"
  by (induction ys) auto

lemma mset_insertBy: "mset (insertBy cmp x ys) = add_mset x (mset ys)"
  by (induction ys) auto

lemma sorted_insertBy_compareTasks:
  "sorted_wrt taskBefore ys \<Longrightarrow> sorted_wrt taskBefore (insertBy compareTasks x ys)"
proof (induction ys)
  case Nil
  then show ?case by simp
next
  case (Cons y ys)
  show ?case
  proof (cases "taskBefore x y")
    case True
    with Cons.prems have "\<forall>z \<in> set ys. taskBefore x z"
      by (auto intro: taskBefore_trans)
    with True Cons.prems show ?thesis
      by (simp add: compareTasks_le_iff)
  next
    case False
    then have "taskBefore y x" by (rule taskBefore_total)
    with False Cons show ?thesis
      by (auto simp: compareTasks_le_iff set_insertBy)
  qed
qed

lemma sorted_sortQueue: "sorted_wrt taskBefore (sortQueue q)"
  unfolding sortQueue_def sortBy_def
  by (induction q) (simp_all add: sorted_insertBy_compareTasks)

lemma mset_sortQueue: "mset (sortQueue q) = mset q"
  unfolding sortQueue_def sortBy_def
  by (induction q) (simp_all add: mset_insertBy)

lemma sorted_wrt_filter_take:
  "sorted_wrt R xs \<Longrightarrow> sorted_wrt R (filter P (take n xs))"
  by (simp add: sorted_wrt_filter sorted_wrt_take)

lemma timestamps_toBatchEvent:
  "map be_timestamp (map toBatchEvent g) = map bt_timestamp g"
  by (simp add: toBatchEvent_def)

lemma same_priority_timestamps_sorted:
  assumes "sorted_wrt taskBefore g"
      and "\<forall>a \<in> set g. bt_priority a = p"
  shows "sorted (map be_timestamp (map toBatchEvent g))"
  unfolding timestamps_toBatchEvent
  using assms
proof (induction g)
  case Nil
  then show ?case by simp
next
  case (Cons a g)
  from Cons.prems have pa: "bt_priority a = p" and pg: "\<forall>b \<in> set g. bt_priority b = p"
    by simp_all
  from Cons.prems have srt: "sorted_wrt taskBefore g" and hd: "\<forall>b \<in> set g. taskBefore a b"
    by simp_all
  have "sorted (map bt_timestamp g)"
    by (rule Cons.IH [OF srt pg])
  moreover have "\<forall>b \<in> set g. bt_timestamp a \<le> bt_timestamp b"
  proof
    fix b assume b: "b \<in> set g"
    with hd have "taskBefore a b" by blast
    moreover from b pg pa have "bt_priority a = bt_priority b" by simp
    ultimately show "bt_timestamp a \<le> bt_timestamp b"
      by (simp add: taskBefore_def)
  qed
  ultimately show ?case by simp
qed

subsection \<open>The websocket scheduler: grouping\<close>

lemma map_of_groupPush:
  "map_of (groupPush gs t) k =
     (if k = bt_type t
      then Some ((case map_of gs k of None \<Rightarrow> [] | Some g \<Rightarrow> g) @ [t])
      else map_of gs k)"
  by (induction gs t rule: groupPush.induct) auto

lemma keys_groupPush: "fst ` set (groupPush gs t) = insert (bt_type t) (fst ` set gs)"
  by (induction gs t rule: groupPush.induct) auto

lemma distinct_groupPush:
  "distinct (map fst gs) \<Longrightarrow> distinct (map fst (groupPush gs t))"
proof (induction gs t rule: groupPush.induct)
  case (1 task)
  then show ?case by simp
next
  case (2 k ts groups task)
  then show ?case
    using keys_groupPush [of groups task] by (auto simp: image_iff)
qed

lemma distinct_foldl_groupPush:
  "distinct (map fst gs) \<Longrightarrow> distinct (map fst (foldl groupPush gs ts))"
  by (induction ts arbitrary: gs) (simp_all add: distinct_groupPush)

lemma keys_foldl_groupPush:
  "fst ` set (foldl groupPush gs ts) = fst ` set gs \<union> bt_type ` set ts"
  by (induction ts arbitrary: gs) (auto simp: keys_groupPush)

lemma map_of_foldl_groupPush:
  "map_of (foldl groupPush gs ts) k =
     (if k \<in> fst ` set gs \<union> bt_type ` set ts
      then Some ((case map_of gs k of None \<Rightarrow> [] | Some g \<Rightarrow> g)
                 @ filter (\<lambda>t. bt_type t = k) ts)
      else None)"
proof (induction ts arbitrary: gs)
  case Nil
  show ?case
  proof (cases "map_of gs k")
    case None
    then show ?thesis by (simp add: map_of_eq_None_iff)
  next
    case (Some a)
    then have "(k, a) \<in> set gs" by (rule map_of_SomeD)
    then have "k \<in> fst ` set gs" by force
    with Some show ?thesis by simp
  qed
next
  case (Cons t ts)
  show ?case
    by (simp add: Cons.IH keys_groupPush map_of_groupPush)
qed

lemma distinct_groupByType: "distinct (map fst (groupByType tasks))"
  unfolding groupByType_def by (rule distinct_foldl_groupPush) simp

lemma keys_groupByType: "fst ` set (groupByType tasks) = bt_type ` set tasks"
  unfolding groupByType_def by (simp add: keys_foldl_groupPush)

lemma groupByType_member:
  assumes "(k, g) \<in> set (groupByType tasks)"
  shows "g = filter (\<lambda>t. bt_type t = k) tasks \<and> k \<in> bt_type ` set tasks"
proof -
  from assms distinct_groupByType [of tasks]
  have "map_of (groupByType tasks) k = Some g" by simp
  then show ?thesis
    unfolding groupByType_def
    by (simp add: map_of_foldl_groupPush split: if_splits)
qed



subsection \<open>The websocket scheduler: one drain\<close>

lemma createMergedMessage_type [simp]: "sm_type (createMergedMessage u t ty g) = ty"
  by (simp add: createMergedMessage_def split: list.splits)

lemma createMergedMessage_single:
  "length g = 1 \<Longrightarrow>
     sm_event (createMergedMessage u t ty g) = bt_event (hd g)
     \<and> sm_data (createMergedMessage u t ty g) = TaskData (bt_data (hd g))"
  by (cases g) (auto simp: createMergedMessage_def split: list.splits)

lemma createMergedMessage_many:
  "length g \<noteq> 1 \<Longrightarrow>
     sm_event (createMergedMessage u t ty g) = Ev_batch_update
     \<and> sm_data (createMergedMessage u t ty g) = BatchData (map toBatchEvent g)"
  by (cases g) (auto simp: createMergedMessage_def split: list.splits)

lemma createMergedMessage_envelope: "createMergedMessage u t ty g = envelope u t ty g"
proof (cases g)
  case Nil
  then show ?thesis by (simp add: createMergedMessage_def envelope_def)
next
  case (Cons a g')
  then show ?thesis
    by (cases g') (simp_all add: createMergedMessage_def envelope_def toBatchEvent_def)
qed

lemma concat_sendToConnection:
  "concat (map (\<lambda>conn. sendToConnection conn msg) cs)
   = map (\<lambda>conn. (cm_id conn, msg)) (filter (\<lambda>conn. cm_isAlive conn \<and> cm_socketOpen conn) cs)"
  by (induction cs) (simp_all add: sendToConnection_def)

lemma getConnectionsBySubscription_empty_iff:
  "getConnectionsBySubscription conns ty = []
     \<longleftrightarrow> \<not> (\<exists>conn \<in> set conns. matchingSubscriber ty conn)"
  by (auto simp: getConnectionsBySubscription_def matchingSubscriber_def filter_empty_conv)

lemma recipients_getConnectionsBySubscription:
  "filter (\<lambda>conn. cm_isAlive conn \<and> cm_socketOpen conn) (getConnectionsBySubscription conns ty)
   = recipients conns ty"
  by (simp add: getConnectionsBySubscription_def recipients_def matchingSubscriber_def conj_ac)

lemma broadcastGroups_emitted:
  "\<forall>kg \<in> set gs. snd kg = filter (\<lambda>t. bt_type t = fst kg) batch \<Longrightarrow>
     broadcastGroups conns env stringify n gs = emitted conns env stringify batch n (map fst gs)"
proof (induction conns env stringify n gs rule: broadcastGroups.induct)
  case (1 conns env stringify n)
  then show ?case by simp
next
  case (2 conns env stringify n ty typeTasks groups)
  from "2.prems" have g: "typeTasks = filter (\<lambda>t. bt_type t = ty) batch"
    and rest: "\<forall>kg \<in> set groups. snd kg = filter (\<lambda>t. bt_type t = fst kg) batch"
    by simp_all
  show ?case
  proof (cases "getConnectionsBySubscription conns ty = []")
    case True
    from "2.IH"(1) [OF refl True rest] True show ?thesis
      by (simp add: getConnectionsBySubscription_empty_iff)
  next
    case False
    show ?thesis
    proof (cases "stringify (createMergedMessage (fst (env n)) (snd (env n)) ty typeTasks)")
      case None
      with False show ?thesis
        by (simp add: getConnectionsBySubscription_empty_iff createMergedMessage_envelope g)
    next
      case (Some bytes)
      from "2.IH"(2) [OF refl False refl Some rest] False Some show ?thesis
        by (simp add: getConnectionsBySubscription_empty_iff createMergedMessage_envelope g
             concat_sendToConnection recipients_getConnectionsBySubscription)
    qed
  qed
qed

lemma keys_groupPush_order:
  "map fst (groupPush gs t)
     = (if bt_type t \<in> set (map fst gs) then map fst gs else map fst gs @ [bt_type t])"
  by (induction gs t rule: groupPush.induct) auto

lemma keys_foldl_groupPush_order:
  "map fst (foldl groupPush gs ts) = map fst gs @ typesInOrder (map fst gs) ts"
proof (induction ts arbitrary: gs)
  case Nil
  then show ?case by simp
next
  case (Cons t ts)
  show ?case
    by (simp add: Cons.IH keys_groupPush_order)
qed

lemma keys_groupByType_order: "map fst (groupByType batch) = typesInOrder [] batch"
  unfolding groupByType_def by (simp add: keys_foldl_groupPush_order)

lemma broadcastGroups_groupByType:
  "broadcastGroups conns env stringify 0 (groupByType batch)
     = emitted conns env stringify batch 0 (typesInOrder [] batch)"
proof -
  have "\<forall>kg \<in> set (groupByType batch). snd kg = filter (\<lambda>t. bt_type t = fst kg) batch"
  proof
    fix kg assume "kg \<in> set (groupByType batch)"
    then have "(fst kg, snd kg) \<in> set (groupByType batch)" by simp
    from groupByType_member [OF this] show "snd kg = filter (\<lambda>t. bt_type t = fst kg) batch"
      by simp
  qed
  from broadcastGroups_emitted [OF this] show ?thesis
    by (simp add: keys_groupByType_order)
qed

lemma broadcastUntilAwait_then_rest:
  "fst (broadcastUntilAwait conns env stringify n gs)
     @ broadcastGroups conns env stringify
         (fst (snd (broadcastUntilAwait conns env stringify n gs)))
         (snd (snd (broadcastUntilAwait conns env stringify n gs)))
   = broadcastGroups conns env stringify n gs"
  by (induction conns env stringify n gs rule: broadcastUntilAwait.induct)
     (simp_all add: Let_def split: option.splits)

lemma drainBatch_nonempty:
  assumes "messageQueue s \<noteq> []"
  shows "drainBatch s \<noteq> []"
proof -
  from assms have "sortQueue (messageQueue s) \<noteq> []"
    using mset_sortQueue [of "messageQueue s"] by (metis mset_zero_iff)
  moreover have "0 < batchSizeOf (config s)" by (simp add: batchSizeOf_def)
  ultimately show ?thesis by (simp add: drainBatch_def)
qed

lemma processQueue_drain:
  assumes "\<not> isProcessing s" and "messageQueue s \<noteq> []"
  shows "processQueue env stringify s =
           (s\<lparr>messageQueue := drop (batchSizeOf (config s)) (sortQueue (messageQueue s)),
               isProcessing := False, inFlight := None\<rparr>,
            broadcastGroups (connectionManager s) env stringify 0 (groupByType (drainBatch s)),
            drop (batchSizeOf (config s)) (sortQueue (messageQueue s)) \<noteq> [])"
proof -
  let ?started = "broadcastUntilAwait (connectionManager s) env stringify 0
                    (groupByType (drainBatch s))"
  let ?s1 = "s\<lparr>messageQueue := drop (batchSizeOf (config s)) (sortQueue (messageQueue s)),
                isProcessing := True, inFlight := Some (snd ?started)\<rparr>"
  from drainBatch_nonempty [OF assms(2)]
  have groups: "batchGroups (drainBatch s) = groupByType (drainBatch s)"
    by (simp add: batchGroups_def)
  from assms have start: "processQueueStart env stringify s = (?s1, fst ?started)"
    using groups by (simp add: processQueueStart_def Let_def drainBatch_def)
  have settle: "processQueueSettle env stringify ?s1 =
      (s\<lparr>messageQueue := drop (batchSizeOf (config s)) (sortQueue (messageQueue s)),
          isProcessing := False, inFlight := None\<rparr>,
       broadcastGroups (connectionManager s) env stringify (fst (snd ?started))
         (snd (snd ?started)),
       drop (batchSizeOf (config s)) (sortQueue (messageQueue s)) \<noteq> [])"
    by (simp add: processQueueSettle_def split: prod.splits)
  from assms have "processQueue env stringify s =
      (fst (processQueueSettle env stringify ?s1),
       fst ?started @ fst (snd (processQueueSettle env stringify ?s1)),
       snd (snd (processQueueSettle env stringify ?s1)))"
    by (simp add: processQueue_def Let_def start)
  then show ?thesis
    by (simp only: settle fst_conv snd_conv broadcastUntilAwait_then_rest)
qed

lemma processQueue_active:
  assumes "\<not> isProcessing s" and "messageQueue s \<noteq> []"
  shows "messageQueue (fst (processQueue env stringify s))
           = drop (batchSizeOf (config s)) (sortQueue (messageQueue s))"
    and "fst (snd (processQueue env stringify s))
           = broadcastGroups (connectionManager s) env stringify 0 (groupByType (drainBatch s))"
  by (simp_all add: processQueue_drain [OF assms])


lemma envelope_type [simp]: "sm_type (envelope u t ty g) = ty"
  by (simp add: envelope_def)

lemma emitted_member:
  "e \<in> set (emitted conns env stringify batch n tys) \<Longrightarrow>
     sm_type (em_message e) \<in> set tys
     \<and> (\<exists>conn \<in> set conns. matchingSubscriber (sm_type (em_message e)) conn)
     \<and> (\<exists>k. em_message e = envelope (fst (env k)) (snd (env k)) (sm_type (em_message e))
                (filter (\<lambda>t. bt_type t = sm_type (em_message e)) batch))
     \<and> stringify (em_message e) = Some (em_serialized e)
     \<and> em_writes e = map (\<lambda>conn. (cm_id conn, em_serialized e))
                        (recipients conns (sm_type (em_message e)))"
proof (induction tys arbitrary: n)
  case Nil
  then show ?case by simp
next
  case (Cons ty tys)
  show ?case
  proof (cases "\<exists>conn \<in> set conns. matchingSubscriber ty conn")
    case False
    with Cons.prems have "e \<in> set (emitted conns env stringify batch n tys)" by simp
    from Cons.IH [OF this] show ?thesis by auto
  next
    case True
    let ?m = "envelope (fst (env n)) (snd (env n)) ty (filter (\<lambda>t. bt_type t = ty) batch)"
    show ?thesis
    proof (cases "stringify ?m")
      case None
      with True Cons.prems show ?thesis by simp
    next
      case (Some bytes)
      with True Cons.prems
      consider "e = \<lparr> em_message = ?m, em_serialized = bytes,
                       em_writes = map (\<lambda>conn. (cm_id conn, bytes)) (recipients conns ty) \<rparr>"
        | "e \<in> set (emitted conns env stringify batch (Suc n) tys)"
        by auto
      then show ?thesis
      proof cases
        case 1
        with True Some show ?thesis
          by (auto intro!: exI [of _ n])
      next
        case 2
        from Cons.IH [OF 2] show ?thesis by auto
      qed
    qed
  qed
qed

lemma emitted_types_prefix:
  "\<exists>k. map (\<lambda>e. sm_type (em_message e)) (emitted conns env stringify batch n tys)
        = take k (filter (\<lambda>ty. \<exists>conn \<in> set conns. matchingSubscriber ty conn) tys)"
proof (induction tys arbitrary: n)
  case Nil
  then show ?case by simp
next
  case (Cons ty tys)
  show ?case
  proof (cases "\<exists>conn \<in> set conns. matchingSubscriber ty conn")
    case False
    with Cons.IH [of n] show ?thesis by simp
  next
    case True
    let ?m = "envelope (fst (env n)) (snd (env n)) ty (filter (\<lambda>t. bt_type t = ty) batch)"
    show ?thesis
    proof (cases "stringify ?m")
      case None
      with True show ?thesis by (auto intro!: exI [of _ 0])
    next
      case (Some bytes)
      from Cons.IH [of "Suc n"] obtain k where
        "map (\<lambda>e. sm_type (em_message e)) (emitted conns env stringify batch (Suc n) tys)
           = take k (filter (\<lambda>ty. \<exists>conn \<in> set conns. matchingSubscriber ty conn) tys)"
        by blast
      with True Some show ?thesis by (auto intro!: exI [of _ "Suc k"])
    qed
  qed
qed

lemma emitted_types_distinct:
  assumes "distinct tys"
  shows "distinct (map (\<lambda>e. sm_type (em_message e)) (emitted conns env stringify batch n tys))"
proof -
  from emitted_types_prefix [of conns env stringify batch n tys] obtain k where
    "map (\<lambda>e. sm_type (em_message e)) (emitted conns env stringify batch n tys)
       = take k (filter (\<lambda>ty. \<exists>conn \<in> set conns. matchingSubscriber ty conn) tys)"
    by blast
  with assms show ?thesis by (simp add: distinct_take)
qed

lemma emitted_types_all:
  "\<forall>m. stringify m \<noteq> None \<Longrightarrow>
     map (\<lambda>e. sm_type (em_message e)) (emitted conns env stringify batch n tys)
       = filter (\<lambda>ty. \<exists>conn \<in> set conns. matchingSubscriber ty conn) tys"
proof (induction tys arbitrary: n)
  case Nil
  then show ?case by simp
next
  case (Cons ty tys)
  let ?m = "envelope (fst (env n)) (snd (env n)) ty (filter (\<lambda>t. bt_type t = ty) batch)"
  from Cons.prems obtain bytes where "stringify ?m = Some bytes" by auto
  with Cons.IH [OF Cons.prems] show ?case by simp
qed

lemma typesInOrder_distinct: "distinct (typesInOrder [] batch)"
  using distinct_groupByType [of batch] by (simp add: keys_groupByType_order)

lemma typesInOrder_set: "set (typesInOrder [] batch) = bt_type ` set batch"
  using keys_groupByType [of batch] keys_groupByType_order [of batch]
  by (metis list.set_map)

lemma taskBefore_drainsBefore: "taskBefore a b \<longleftrightarrow> drainsBefore a b"
  by (cases "bt_priority a"; cases "bt_priority b") (simp_all add: taskBefore_def drainsBefore_def)

lemma sorted_sortQueue_drainsBefore: "sorted_wrt drainsBefore (sortQueue q)"
proof -
  have "taskBefore = (drainsBefore :: 'a BroadcastTask \<Rightarrow> 'a BroadcastTask \<Rightarrow> bool)"
    by (intro ext) (rule taskBefore_drainsBefore)
  with sorted_sortQueue [of q] show ?thesis by simp
qed

lemma envelope_one:
  "length g = 1 \<Longrightarrow> sm_event (envelope u t ty g) = bt_event (hd g)
     \<and> sm_data (envelope u t ty g) = TaskData (bt_data (hd g))"
  by (simp add: envelope_def)

lemma envelope_many:
  "1 < length g \<Longrightarrow> sm_event (envelope u t ty g) = Ev_batch_update
     \<and> sm_data (envelope u t ty g)
         = BatchData (map (\<lambda>t. \<lparr> be_event = bt_event t, be_data = bt_data t,
                                   be_timestamp = bt_timestamp t \<rparr>) g)"
  by (simp add: envelope_def)

lemma processQueue_broadcastBatch:
  assumes "\<not> isProcessing s" and "messageQueue s \<noteq> []"
  shows "fst (snd (processQueue env stringify s))
           = broadcastBatch (connectionManager s) env stringify (drainBatch s)"
  using drainBatch_nonempty [OF assms(2)]
  by (simp add: processQueue_active(2) [OF assms] broadcastBatch_def batchGroups_def)

lemma drain_emission_message:
  assumes "e \<in> set (fst (snd (processQueue env stringify s)))"
  shows "\<exists>k. em_message e =
           createMergedMessage (fst (env k)) (snd (env k)) (sm_type (em_message e))
             (typeGroup (sm_type (em_message e)) (drainBatch s))"
proof -
  from assms have active: "\<not> isProcessing s" "messageQueue s \<noteq> []"
    by (auto simp: processQueue_def split: if_splits)
  from assms processQueue_active(2) [OF active, of env stringify]
  have "e \<in> set (emitted (connectionManager s) env stringify (drainBatch s) 0
                    (typesInOrder [] (drainBatch s)))"
    by (simp add: broadcastGroups_groupByType)
  from emitted_member [OF this] show ?thesis
    by (auto simp: createMergedMessage_envelope typeGroup_def)
qed

lemmas drain_eval =
  sortQueue_def sortBy_def compareTasks_def prefixSize_def envelope_def recipients_def
  matchingSubscriber_def exampleTask_def exampleConnection_def exampleConnections_def
  exampleIds_def exampleEnv_def exampleStringify_def exampleFanout_def exampleScheduler_def

lemmas processQueue_eval =
  processQueue_def processQueueStart_def processQueueSettle_def batchGroups_def batchSizeOf_def
  groupByType_def createMergedMessage_def getConnectionsBySubscription_def sendToConnection_def
  toBatchEvent_def Let_def

text \<open>
  Claim C6, as amended. A drain that runs (the scheduler is not already processing and the
  queue is not empty) sorts the whole queue by (priority, enqueuedAt): the sorted queue is a
  permutation of the queue in which every task stands before the tasks behind it in the sense
  of \<open>drainsBefore\<close>. It takes the prefix of \<open>broadcastBatchSize\<close> tasks, of 100 tasks when the
  configured size is 0, and leaves the rest queued. What it emits is what the specification
  says of the batch, type by type (\<open>emitted\<close>): the result of \<open>processQueue\<close> is the scheduler
  with the rest as its queue and not processing, those emissions, and the request for a
  further drain when the rest is not empty.

  In detail: no two emissions have the same type, and when no serialization fails the types
  emitted are exactly the types of the batch that have a matching subscriber (a connection
  subscribed to the type or to \<open>all\<close>). Every emission belongs to a non-empty group of the
  batch that has a matching subscriber; if the group has exactly one task, the envelope has
  that task's event and data; if it has more, the envelope has the event \<open>batch_update\<close> and
  as data the list of the \<^verbatim>\<open>{event, data, timestamp}\<close> of the group's tasks in the order of the
  batch; the serialized string is the one serialization of the envelope, and that string is
  what is written, once each, to the matching subscribers that are alive with an open socket
  and to no one else. A serialization that fails ends the drain, and the groups behind it emit
  nothing.
\<close>

theorem drain_sorts_slices_groups_and_merges:
  assumes "\<not> isProcessing s" and "messageQueue s \<noteq> []"
  shows "let ordered = sortQueue (messageQueue s);
             batch = take (prefixSize (config s)) ordered;
             rest = drop (prefixSize (config s)) ordered;
             emissions = fst (snd (processQueue env stringify s))
         in sorted_wrt drainsBefore ordered
          \<and> mset ordered = mset (messageQueue s)
          \<and> processQueue env stringify s =
              (s\<lparr>messageQueue := rest, isProcessing := False, inFlight := None\<rparr>,
               emitted (connectionManager s) env stringify batch 0 (typesInOrder [] batch),
               rest \<noteq> [])
          \<and> distinct (map (\<lambda>e. sm_type (em_message e)) emissions)
          \<and> ((\<forall>m. stringify m \<noteq> None) \<longrightarrow>
               set (map (\<lambda>e. sm_type (em_message e)) emissions)
                 = {ty \<in> bt_type ` set batch.
                      \<exists>conn \<in> set (connectionManager s).
                        ty \<in> cm_subscriptions conn \<or> MT_all \<in> cm_subscriptions conn})
          \<and> (\<forall>e \<in> set emissions.
               let ty = sm_type (em_message e);
                   group = filter (\<lambda>t. bt_type t = ty) batch
               in group \<noteq> []
                \<and> (\<exists>conn \<in> set (connectionManager s).
                      ty \<in> cm_subscriptions conn \<or> MT_all \<in> cm_subscriptions conn)
                \<and> (length group = 1 \<longrightarrow>
                      sm_event (em_message e) = bt_event (hd group)
                      \<and> sm_data (em_message e) = TaskData (bt_data (hd group)))
                \<and> (1 < length group \<longrightarrow>
                      sm_event (em_message e) = Ev_batch_update
                      \<and> sm_data (em_message e)
                          = BatchData (map (\<lambda>t. \<lparr> be_event = bt_event t, be_data = bt_data t,
                                                    be_timestamp = bt_timestamp t \<rparr>) group))
                \<and> stringify (em_message e) = Some (em_serialized e)
                \<and> em_writes e
                    = map (\<lambda>conn. (cm_id conn, em_serialized e))
                        (filter (\<lambda>conn. (ty \<in> cm_subscriptions conn
                                          \<or> MT_all \<in> cm_subscriptions conn)
                                       \<and> cm_isAlive conn \<and> cm_socketOpen conn)
                           (connectionManager s)))"
proof -
  let ?ordered = "sortQueue (messageQueue s)"
  let ?batch = "take (prefixSize (config s)) ?ordered"
  let ?rest = "drop (prefixSize (config s)) ?ordered"
  let ?conns = "connectionManager s"
  let ?ems = "fst (snd (processQueue env stringify s))"
  let ?spec = "emitted ?conns env stringify ?batch 0 (typesInOrder [] ?batch)"
  have size: "batchSizeOf (config s) = prefixSize (config s)"
    by (simp add: batchSizeOf_def prefixSize_def)
  have batch: "drainBatch s = ?batch"
    by (simp add: drainBatch_def size)
  have c1: "sorted_wrt drainsBefore ?ordered"
    by (rule sorted_sortQueue_drainsBefore)
  have c2: "mset ?ordered = mset (messageQueue s)"
    by (rule mset_sortQueue)
  have c3: "processQueue env stringify s =
              (s\<lparr>messageQueue := ?rest, isProcessing := False, inFlight := None\<rparr>,
               ?spec, ?rest \<noteq> [])"
    using processQueue_drain [OF assms, of env stringify]
    by (simp only: size batch broadcastGroups_groupByType)
  have ems: "?ems = ?spec"
    by (simp only: c3 fst_conv snd_conv)
  have c4: "distinct (map (\<lambda>e. sm_type (em_message e)) ?ems)"
    unfolding ems by (rule emitted_types_distinct [OF typesInOrder_distinct])
  have c5: "(\<forall>m. stringify m \<noteq> None) \<longrightarrow>
               set (map (\<lambda>e. sm_type (em_message e)) ?ems)
                 = {ty \<in> bt_type ` set ?batch.
                      \<exists>conn \<in> set ?conns.
                        ty \<in> cm_subscriptions conn \<or> MT_all \<in> cm_subscriptions conn}"
  proof
    assume "\<forall>m. stringify m \<noteq> None"
    from emitted_types_all [OF this, of ?conns env ?batch 0 "typesInOrder [] ?batch"]
    show "set (map (\<lambda>e. sm_type (em_message e)) ?ems)
                 = {ty \<in> bt_type ` set ?batch.
                      \<exists>conn \<in> set ?conns.
                        ty \<in> cm_subscriptions conn \<or> MT_all \<in> cm_subscriptions conn}"
      unfolding ems by (auto simp: typesInOrder_set matchingSubscriber_def)
  qed
  have c6: "\<forall>e \<in> set ?ems.
               let ty = sm_type (em_message e);
                   group = filter (\<lambda>t. bt_type t = ty) ?batch
               in group \<noteq> []
                \<and> (\<exists>conn \<in> set ?conns.
                      ty \<in> cm_subscriptions conn \<or> MT_all \<in> cm_subscriptions conn)
                \<and> (length group = 1 \<longrightarrow>
                      sm_event (em_message e) = bt_event (hd group)
                      \<and> sm_data (em_message e) = TaskData (bt_data (hd group)))
                \<and> (1 < length group \<longrightarrow>
                      sm_event (em_message e) = Ev_batch_update
                      \<and> sm_data (em_message e)
                          = BatchData (map (\<lambda>t. \<lparr> be_event = bt_event t, be_data = bt_data t,
                                                    be_timestamp = bt_timestamp t \<rparr>) group))
                \<and> stringify (em_message e) = Some (em_serialized e)
                \<and> em_writes e
                    = map (\<lambda>conn. (cm_id conn, em_serialized e))
                        (filter (\<lambda>conn. (ty \<in> cm_subscriptions conn
                                          \<or> MT_all \<in> cm_subscriptions conn)
                                       \<and> cm_isAlive conn \<and> cm_socketOpen conn)
                           ?conns)"
  proof
    fix e assume "e \<in> set ?ems"
    then have e: "e \<in> set ?spec" by (simp only: ems)
    let ?ty = "sm_type (em_message e)"
    let ?g = "filter (\<lambda>t. bt_type t = ?ty) ?batch"
    from emitted_member [OF e]
    obtain k where ty: "?ty \<in> set (typesInOrder [] ?batch)"
      and sub: "\<exists>conn \<in> set ?conns. matchingSubscriber ?ty conn"
      and m: "em_message e = envelope (fst (env k)) (snd (env k)) ?ty ?g"
      and ser: "stringify (em_message e) = Some (em_serialized e)"
      and wr: "em_writes e = map (\<lambda>conn. (cm_id conn, em_serialized e)) (recipients ?conns ?ty)"
      by blast
    from ty have g: "?g \<noteq> []"
      by (auto simp: typesInOrder_set filter_empty_conv)
    have one: "length ?g = 1 \<longrightarrow>
                 sm_event (em_message e) = bt_event (hd ?g)
                 \<and> sm_data (em_message e) = TaskData (bt_data (hd ?g))"
      using envelope_one [of ?g "fst (env k)" "snd (env k)" ?ty] m by simp
    have many: "1 < length ?g \<longrightarrow>
                 sm_event (em_message e) = Ev_batch_update
                 \<and> sm_data (em_message e)
                     = BatchData (map (\<lambda>t. \<lparr> be_event = bt_event t, be_data = bt_data t,
                                               be_timestamp = bt_timestamp t \<rparr>) ?g)"
      using envelope_many [of ?g "fst (env k)" "snd (env k)" ?ty] m by simp
    from sub have sub': "\<exists>conn \<in> set ?conns.
                      ?ty \<in> cm_subscriptions conn \<or> MT_all \<in> cm_subscriptions conn"
      by (simp add: matchingSubscriber_def)
    from wr have wr': "em_writes e
                    = map (\<lambda>conn. (cm_id conn, em_serialized e))
                        (filter (\<lambda>conn. (?ty \<in> cm_subscriptions conn
                                          \<or> MT_all \<in> cm_subscriptions conn)
                                       \<and> cm_isAlive conn \<and> cm_socketOpen conn)
                           ?conns)"
      by (simp add: recipients_def matchingSubscriber_def)
    from g sub' one many ser wr'
    show "let ty = sm_type (em_message e);
                   group = filter (\<lambda>t. bt_type t = ty) ?batch
               in group \<noteq> []
                \<and> (\<exists>conn \<in> set ?conns.
                      ty \<in> cm_subscriptions conn \<or> MT_all \<in> cm_subscriptions conn)
                \<and> (length group = 1 \<longrightarrow>
                      sm_event (em_message e) = bt_event (hd group)
                      \<and> sm_data (em_message e) = TaskData (bt_data (hd group)))
                \<and> (1 < length group \<longrightarrow>
                      sm_event (em_message e) = Ev_batch_update
                      \<and> sm_data (em_message e)
                          = BatchData (map (\<lambda>t. \<lparr> be_event = bt_event t, be_data = bt_data t,
                                                    be_timestamp = bt_timestamp t \<rparr>) group))
                \<and> stringify (em_message e) = Some (em_serialized e)
                \<and> em_writes e
                    = map (\<lambda>conn. (cm_id conn, em_serialized e))
                        (filter (\<lambda>conn. (ty \<in> cm_subscriptions conn
                                          \<or> MT_all \<in> cm_subscriptions conn)
                                       \<and> cm_isAlive conn \<and> cm_socketOpen conn)
                           ?conns)"
      unfolding Let_def by blast
  qed
  from c1 c2 c3 c4 c5 c6 show ?thesis
    unfolding Let_def by blast
qed

theorem drain_sorts_slices_groups_and_merges_witness:
  "processQueue exampleIds exampleStringify
     (exampleFanout 3
        [exampleTask MT_status 1 P_normal 70, exampleTask MT_stats 2 P_high 80,
         exampleTask MT_status 3 P_normal 50, exampleTask MT_health 4 P_low 10,
         exampleTask MT_status 5 P_normal 60])
   = (exampleFanout 3 [exampleTask MT_status 1 P_normal 70, exampleTask MT_health 4 P_low 10],
      [\<lparr>em_message =
          \<lparr>sm_id = ''#'', sm_type = MT_stats, sm_timestamp = 1000,
            sm_direction = ServerToClient, sm_event = Ev_status_update,
            sm_data = TaskData 2\<rparr>,
        em_serialized = ''#'', em_writes = [(''c2'', ''#'')]\<rparr>,
       \<lparr>em_message =
          \<lparr>sm_id = ''##'', sm_type = MT_status, sm_timestamp = 1001,
            sm_direction = ServerToClient, sm_event = Ev_batch_update,
            sm_data = BatchData
              [\<lparr>be_event = Ev_status_update, be_data = 3, be_timestamp = 50\<rparr>,
               \<lparr>be_event = Ev_status_update, be_data = 5, be_timestamp = 60\<rparr>]\<rparr>,
        em_serialized = ''##'', em_writes = [(''c1'', ''##''), (''c2'', ''##'')]\<rparr>],
      True)"
proof -
  let ?s = "exampleFanout 3
        [exampleTask MT_status 1 P_normal 70, exampleTask MT_stats 2 P_high 80,
         exampleTask MT_status 3 P_normal 50, exampleTask MT_health 4 P_low 10,
         exampleTask MT_status 5 P_normal 60]"
  let ?ordered = "sortQueue (messageQueue ?s)"
  let ?batch = "take (prefixSize (config ?s)) ?ordered"
  let ?rest = "drop (prefixSize (config ?s)) ?ordered"
  have h1: "\<not> isProcessing ?s" by (simp add: exampleFanout_def)
  have h2: "messageQueue ?s \<noteq> []" by (simp add: exampleFanout_def)
  from drain_sorts_slices_groups_and_merges
         [OF h1 h2, where env = exampleIds and stringify = exampleStringify]
  have "processQueue exampleIds exampleStringify ?s =
          (?s\<lparr>messageQueue := ?rest, isProcessing := False, inFlight := None\<rparr>,
           emitted (connectionManager ?s) exampleIds exampleStringify ?batch 0
             (typesInOrder [] ?batch),
           ?rest \<noteq> [])"
    unfolding Let_def by blast
  also have "\<dots> =
     (exampleFanout 3 [exampleTask MT_status 1 P_normal 70, exampleTask MT_health 4 P_low 10],
      [\<lparr>em_message =
          \<lparr>sm_id = ''#'', sm_type = MT_stats, sm_timestamp = 1000,
            sm_direction = ServerToClient, sm_event = Ev_status_update,
            sm_data = TaskData 2\<rparr>,
        em_serialized = ''#'', em_writes = [(''c2'', ''#'')]\<rparr>,
       \<lparr>em_message =
          \<lparr>sm_id = ''##'', sm_type = MT_status, sm_timestamp = 1001,
            sm_direction = ServerToClient, sm_event = Ev_batch_update,
            sm_data = BatchData
              [\<lparr>be_event = Ev_status_update, be_data = 3, be_timestamp = 50\<rparr>,
               \<lparr>be_event = Ev_status_update, be_data = 5, be_timestamp = 60\<rparr>]\<rparr>,
        em_serialized = ''##'', em_writes = [(''c1'', ''##''), (''c2'', ''##'')]\<rparr>],
      True)"
    by (simp add: drain_eval)
  finally show ?thesis .
qed

text \<open>
  Claim C6 as stated fails on the size of the prefix. With \<open>broadcastBatchSize\<close> configured as
  0 a prefix of up to \<open>broadcastBatchSize\<close> tasks is empty, but the code reads
  \<^verbatim>\<open>this.config.broadcastBatchSize || 100\<close>: the drain takes both queued tasks and broadcasts
  them.
\<close>

theorem batch_size_zero_counterexample:
  "broadcastBatchSize (config (exampleFanout 0
       [exampleTask MT_status 1 P_normal 50, exampleTask MT_status 2 P_normal 60])) = 0
   \<and> take (broadcastBatchSize (config (exampleFanout 0
       [exampleTask MT_status 1 P_normal 50, exampleTask MT_status 2 P_normal 60])))
       (sortQueue [exampleTask MT_status 1 P_normal 50, exampleTask MT_status 2 P_normal 60])
       = []
   \<and> processQueue exampleIds exampleStringify
       (exampleFanout 0
          [exampleTask MT_status 1 P_normal 50, exampleTask MT_status 2 P_normal 60])
     = (exampleFanout 0 [],
        [\<lparr>em_message =
            \<lparr>sm_id = ''#'', sm_type = MT_status, sm_timestamp = 1000,
              sm_direction = ServerToClient, sm_event = Ev_batch_update,
              sm_data = BatchData
                [\<lparr>be_event = Ev_status_update, be_data = 1, be_timestamp = 50\<rparr>,
                 \<lparr>be_event = Ev_status_update, be_data = 2, be_timestamp = 60\<rparr>]\<rparr>,
          em_serialized = ''#'', em_writes = [(''c1'', ''#''), (''c2'', ''#'')]\<rparr>],
        False)"
  by (simp add: processQueue_eval drain_eval)

text \<open>
  A drain with one connection, subscribed to \<open>status\<close>, computed: the stats task has no
  subscriber and produces nothing; the three status tasks are merged into one
  \<open>batch_update\<close>, written once to the one subscriber.
\<close>

lemma drain_example:
  "processQueue exampleEnv exampleStringify
     (exampleScheduler
        [exampleTask MT_status 1 P_normal 70, exampleTask MT_stats 2 P_high 80,
         exampleTask MT_status 3 P_normal 50, exampleTask MT_status 4 P_normal 60])
   = (exampleScheduler [],
      [\<lparr>em_message =
          \<lparr>sm_id = ''uuid'', sm_type = MT_status, sm_timestamp = 1000,
            sm_direction = ServerToClient, sm_event = Ev_batch_update,
            sm_data = BatchData (map toBatchEvent
              [exampleTask MT_status 3 P_normal 50, exampleTask MT_status 4 P_normal 60,
               exampleTask MT_status 1 P_normal 70])\<rparr>,
        em_serialized = ''uuid'', em_writes = [(''c1'', ''uuid'')]\<rparr>],
      False)"
  by (simp add: processQueue_eval drain_eval)

text \<open>
  A serialization that fails: the stats task is drained first and its envelope cannot be
  serialized. The exception leaves \<^verbatim>\<open>broadcastBatch\<close>, so the two status tasks of the same
  batch, which have recipients, are not broadcast; they have left the queue with the batch.
\<close>

lemma serialization_failure_ends_drain:
  "processQueue exampleIds failingStringify
     (exampleFanout 3
        [exampleTask MT_status 1 P_normal 70, exampleTask MT_stats 2 P_high 80,
         exampleTask MT_status 3 P_normal 50])
   = (exampleFanout 3 [], [], False)"
  by (simp add: processQueue_eval drain_eval failingStringify_def)

text \<open>
  Claim C4, as amended. The events of a merged message are the tasks of its type group in
  drain order, which is by priority weight first (high, normal, low) and by timestamp among
  tasks of the same priority. Their timestamps are in non-decreasing order when the tasks of
  the group all have the same priority \<open>p\<close>; a group that mixes priorities lists the
  higher-priority tasks first whatever their timestamps.
\<close>

theorem batch_events_follow_drain_order:
  assumes "e \<in> set (fst (snd (processQueue env stringify s)))"
  shows "sorted_wrt taskBefore (typeGroup (sm_type (em_message e)) (drainBatch s))
       \<and> (1 < length (typeGroup (sm_type (em_message e)) (drainBatch s)) \<longrightarrow>
            sm_event (em_message e) = Ev_batch_update
            \<and> dataEvents (sm_data (em_message e))
                = map toBatchEvent (typeGroup (sm_type (em_message e)) (drainBatch s)))
       \<and> ((\<forall>a \<in> set (typeGroup (sm_type (em_message e)) (drainBatch s)). bt_priority a = p) \<longrightarrow>
            sorted (map be_timestamp (dataEvents (sm_data (em_message e)))))"
proof -
  let ?g = "typeGroup (sm_type (em_message e)) (drainBatch s)"
  from drain_emission_message [OF assms]
  obtain k where m: "em_message e =
      createMergedMessage (fst (env k)) (snd (env k)) (sm_type (em_message e)) ?g"
    by blast
  have srt: "sorted_wrt taskBefore ?g"
    unfolding typeGroup_def drainBatch_def
    by (rule sorted_wrt_filter_take [OF sorted_sortQueue])
  have many: "1 < length ?g \<longrightarrow>
            sm_event (em_message e) = Ev_batch_update
            \<and> dataEvents (sm_data (em_message e)) = map toBatchEvent ?g"
    using createMergedMessage_many [of ?g "fst (env k)" "snd (env k)" "sm_type (em_message e)"] m
    by simp
  have ts: "(\<forall>a \<in> set ?g. bt_priority a = p) \<longrightarrow>
            sorted (map be_timestamp (dataEvents (sm_data (em_message e))))"
  proof
    assume same: "\<forall>a \<in> set ?g. bt_priority a = p"
    show "sorted (map be_timestamp (dataEvents (sm_data (em_message e))))"
    proof (cases "length ?g = 1")
      case True
      from createMergedMessage_single [OF True, of "fst (env k)" "snd (env k)" "sm_type (em_message e)"] m
      have "sm_data (em_message e) = TaskData (bt_data (hd ?g))" by simp
      then show ?thesis by simp
    next
      case False
      from createMergedMessage_many [OF False, of "fst (env k)" "snd (env k)" "sm_type (em_message e)"] m
      have "sm_data (em_message e) = BatchData (map toBatchEvent ?g)" by simp
      with same_priority_timestamps_sorted [OF srt same] show ?thesis by simp
    qed
  qed
  from srt many ts show ?thesis by blast
qed

theorem batch_events_follow_drain_order_witness:
  "hd (fst (snd (processQueue exampleEnv exampleStringify
        (exampleScheduler
           [exampleTask MT_status 1 P_normal 70, exampleTask MT_status 3 P_normal 50,
            exampleTask MT_status 4 P_normal 60]))))
     \<in> set (fst (snd (processQueue exampleEnv exampleStringify
        (exampleScheduler
           [exampleTask MT_status 1 P_normal 70, exampleTask MT_status 3 P_normal 50,
            exampleTask MT_status 4 P_normal 60]))))
   \<and> sorted (map be_timestamp (dataEvents (sm_data (em_message
        (hd (fst (snd (processQueue exampleEnv exampleStringify
          (exampleScheduler
             [exampleTask MT_status 1 P_normal 70, exampleTask MT_status 3 P_normal 50,
              exampleTask MT_status 4 P_normal 60]))))))))) 
   \<and> map be_timestamp (dataEvents (sm_data (em_message
        (hd (fst (snd (processQueue exampleEnv exampleStringify
          (exampleScheduler
             [exampleTask MT_status 1 P_normal 70, exampleTask MT_status 3 P_normal 50,
              exampleTask MT_status 4 P_normal 60])))))))) = [50, 60, 70]"
proof -
  let ?s = "exampleScheduler
           [exampleTask MT_status 1 P_normal 70, exampleTask MT_status 3 P_normal 50,
            exampleTask MT_status 4 P_normal 60]"
  let ?ems = "fst (snd (processQueue exampleEnv exampleStringify ?s))"
  have ems: "?ems =
      [\<lparr>em_message =
          \<lparr>sm_id = ''uuid'', sm_type = MT_status, sm_timestamp = 1000,
            sm_direction = ServerToClient, sm_event = Ev_batch_update,
            sm_data = BatchData (map toBatchEvent
              [exampleTask MT_status 3 P_normal 50, exampleTask MT_status 4 P_normal 60,
               exampleTask MT_status 1 P_normal 70])\<rparr>,
        em_serialized = ''uuid'', em_writes = [(''c1'', ''uuid'')]\<rparr>]"
    by (simp add: processQueue_eval drain_eval)
  have h: "hd ?ems \<in> set ?ems" unfolding ems by simp
  have grp: "typeGroup (sm_type (em_message (hd ?ems))) (drainBatch ?s) =
      [exampleTask MT_status 3 P_normal 50, exampleTask MT_status 4 P_normal 60,
       exampleTask MT_status 1 P_normal 70]"
    unfolding ems
    by (simp add: typeGroup_def drainBatch_def exampleScheduler_def sortQueue_def sortBy_def
         compareTasks_def batchSizeOf_def exampleTask_def)
  have same: "\<forall>a \<in> set (typeGroup (sm_type (em_message (hd ?ems))) (drainBatch ?s)).
                bt_priority a = P_normal"
    unfolding grp by (simp add: exampleTask_def)
  from batch_events_follow_drain_order [OF h, of P_normal] same
  have "sorted (map be_timestamp (dataEvents (sm_data (em_message (hd ?ems)))))"
    by blast
  moreover have "map be_timestamp (dataEvents (sm_data (em_message (hd ?ems)))) = [50, 60, 70]"
    unfolding ems by (simp add: toBatchEvent_def exampleTask_def)
  ultimately show ?thesis using h by blast
qed

text \<open>
  Claim C4 as stated fails. A normal status task stamped 50 is queued; a high status task
  stamped 100 is enqueued and drains the queue at once. Both tasks fall into one group, and
  the \<open>batch_update\<close> lists the high task first: the timestamps read 100, 50.
\<close>

theorem batch_update_timestamp_order_counterexample:
  "sm_event (em_message (hd (snd
       (wsEnqueue exampleEnv exampleStringify
          (exampleScheduler [exampleTask MT_status 1 P_normal 50])
          (exampleTask MT_status 2 P_high 100))))) = Ev_batch_update
   \<and> map be_timestamp (dataEvents (sm_data (em_message (hd (snd
       (wsEnqueue exampleEnv exampleStringify
          (exampleScheduler [exampleTask MT_status 1 P_normal 50])
          (exampleTask MT_status 2 P_high 100))))))) = [100, 50]
   \<and> \<not> sorted (map be_timestamp (dataEvents (sm_data (em_message (hd (snd
       (wsEnqueue exampleEnv exampleStringify
          (exampleScheduler [exampleTask MT_status 1 P_normal 50])
          (exampleTask MT_status 2 P_high 100))))))))"
  by (simp add: wsEnqueue_def processQueue_eval drain_eval)

subsection \<open>The websocket scheduler: a drain in flight\<close>

text \<open>
  Two high tasks enqueued one after the other in the same turn: the first enqueue starts a
  drain, which has broadcast the first task when the call returns and is then suspended with
  \<open>isProcessing\<close> set. The second enqueue finds the scheduler processing: its task is queued
  and nothing is drained. When the first drain settles, it clears \<open>isProcessing\<close> and asks for
  a further drain, which will take the second task.
\<close>

lemma second_high_enqueue_waits:
  "wsEnqueue exampleEnv exampleStringify
     (fst (wsEnqueue exampleEnv exampleStringify (exampleScheduler [])
            (exampleTask MT_status 1 P_high 10)))
     (exampleTask MT_status 2 P_high 20)
   = (\<lparr> messageQueue = [exampleTask MT_status 2 P_high 20], isProcessing = True,
        config = \<lparr> broadcastBatchSize = 100, broadcastFlushInterval = 50 \<rparr>,
        connectionManager = [exampleConnection], inFlight = Some (1, []) \<rparr>,
      [])"
  by (simp add: wsEnqueue_def processQueue_eval drain_eval)

lemma second_high_enqueue_settles:
  "processQueueSettle exampleEnv exampleStringify
     (fst (wsEnqueue exampleEnv exampleStringify
        (fst (wsEnqueue exampleEnv exampleStringify (exampleScheduler [])
               (exampleTask MT_status 1 P_high 10)))
        (exampleTask MT_status 2 P_high 20)))
   = (exampleScheduler [exampleTask MT_status 2 P_high 20], [], True)"
  by (simp add: wsEnqueue_def processQueue_eval drain_eval)

subsection \<open>The websocket scheduler: the queue has no bound\<close>

lemma wsEnqueue_not_high:
  "bt_priority task \<noteq> P_high \<Longrightarrow>
     fst (wsEnqueue env stringify s task) = s\<lparr>messageQueue := messageQueue s @ [task]\<rparr>"
  by (simp add: wsEnqueue_def Let_def)

lemma wsEnqueueAll_not_high:
  "\<forall>t \<in> set tasks. bt_priority t \<noteq> P_high \<Longrightarrow>
     wsEnqueueAll env stringify s tasks = s\<lparr>messageQueue := messageQueue s @ tasks\<rparr>"
  unfolding wsEnqueueAll_def
proof (induction tasks arbitrary: s)
  case Nil
  then show ?case by simp
next
  case (Cons t tasks)
  from Cons.prems have t: "bt_priority t \<noteq> P_high"
    and rest: "\<forall>u \<in> set tasks. bt_priority u \<noteq> P_high"
    by simp_all
  show ?case
    by (simp add: wsEnqueue_not_high [OF t] Cons.IH [OF rest])
qed

text \<open>
  Claim C1 does not hold of the websocket scheduler. Its \<^verbatim>\<open>enqueue\<close> pushes the task
  whatever the length of the queue, and only a task of priority high starts a drain: a run
  of enqueue calls with tasks of the other priorities leaves the queue longer by the number
  of tasks. There is no \<open>maxQueueSize\<close> and no displacement. (The scheduler of
  src/broadcast-scheduler.ts does keep its queue within \<open>maxQueueSize\<close>, as
  \<open>bounded_scheduler_queue_bound\<close> shows.)
\<close>

theorem websocket_enqueue_appends_without_bound:
  "(\<forall>t \<in> set tasks. bt_priority t \<noteq> P_high) \<longrightarrow>
     messageQueue (wsEnqueueAll env stringify s tasks) = messageQueue s @ tasks
     \<and> length (messageQueue (wsEnqueueAll env stringify s tasks))
         = length (messageQueue s) + length tasks"
  by (simp add: wsEnqueueAll_not_high)

theorem websocket_enqueue_appends_without_bound_witness:
  "bt_priority (exampleTask MT_status 0 P_normal 0) \<noteq> P_high
   \<and> length (messageQueue
        (wsEnqueueAll exampleEnv exampleStringify (exampleScheduler [])
           (replicate 1001 (exampleTask MT_status 0 P_normal 0)))) = 1001
   \<and> DEFAULT_MAX_QUEUE_SIZE < 1001"
proof -
  have h: "bt_priority (exampleTask MT_status 0 P_normal 0) \<noteq> P_high"
    by (simp add: exampleTask_def)
  then have all: "\<forall>t \<in> set (replicate 1001 (exampleTask MT_status 0 P_normal 0)).
                    bt_priority t \<noteq> P_high"
    by simp
  from websocket_enqueue_appends_without_bound
         [where tasks = "replicate 1001 (exampleTask MT_status 0 P_normal 0)"
            and env = exampleEnv and stringify = exampleStringify
            and s = "exampleScheduler []"] all
  have "length (messageQueue
        (wsEnqueueAll exampleEnv exampleStringify (exampleScheduler [])
           (replicate 1001 (exampleTask MT_status 0 P_normal 0))))
        = length (messageQueue (exampleScheduler [])) + length (replicate 1001 (exampleTask MT_status 0 P_normal 0))"
    by blast
  then have "length (messageQueue
        (wsEnqueueAll exampleEnv exampleStringify (exampleScheduler [])
           (replicate 1001 (exampleTask MT_status 0 P_normal 0)))) = 1001"
    by (simp add: exampleScheduler_def)
  with h show ?thesis by (simp add: DEFAULT_MAX_QUEUE_SIZE_def)
qed

subsection \<open>The reserved type\<close>

lemma subscribe_keeps_error_free:
  "subscribers r ''error'' = None \<Longrightarrow> subscribers (fst (subscribe r ty cb)) ''error'' = None"
  by (auto simp: subscribe_def RESERVED_TYPES_def Let_def split: option.splits)

lemma unsubscribe_keeps_error_free:
  "subscribers r ''error'' = None \<Longrightarrow> subscribers (unsubscribe r ty cb) ''error'' = None"
  by (auto simp: unsubscribe_def split: option.splits)

lemma routerRun_keeps_error_free:
  "subscribers r ''error'' = None \<Longrightarrow> subscribers (routerRun r reqs) ''error'' = None"
  unfolding routerRun_def
proof (induction reqs arbitrary: r)
  case Nil
  then show ?case by simp
next
  case (Cons req reqs)
  have "subscribers (routerStep r req) ''error'' = None"
    using Cons.prems
    by (cases req) (simp_all add: subscribe_keeps_error_free unsubscribe_keeps_error_free)
  from Cons.IH [OF this] show ?case by simp
qed

lemma handleSubscribe_noError:
  "noErrorSubscription conns \<Longrightarrow> noErrorSubscription (fst (handleSubscribe conns cid payload))"
  by (auto simp: handleSubscribe_def noErrorSubscription_def updateSubscription_def Let_def
           split: option.splits)

lemma removeSubscription_noError:
  "noErrorSubscription conns \<Longrightarrow> noErrorSubscription (removeSubscription conns cid str)"
  by (auto simp: noErrorSubscription_def removeSubscription_def)

lemma handleUnsubscribe_noError:
  "noErrorSubscription conns \<Longrightarrow> noErrorSubscription (fst (handleUnsubscribe conns cid payload))"
proof (cases payload)
  case None
  assume "noErrorSubscription conns"
  with None show ?thesis by (simp add: handleUnsubscribe_def)
next
  case (Some types)
  assume inv: "noErrorSubscription conns"
  have "noErrorSubscription (foldl (\<lambda>cs str. removeSubscription cs cid str) conns types)"
    using inv by (induction types arbitrary: conns) (simp_all add: removeSubscription_noError)
  with Some show ?thesis by (simp add: handleUnsubscribe_def)
qed

lemma subscriptionStep_noError:
  "noErrorSubscription conns \<Longrightarrow> noErrorSubscription (subscriptionStep conns req)"
  by (cases req) (simp_all add: handleSubscribe_noError handleUnsubscribe_noError)

lemma subscription_run_noError:
  "noErrorSubscription conns \<Longrightarrow> noErrorSubscription (foldl subscriptionStep conns reqs)"
  by (induction reqs arbitrary: conns) (simp_all add: subscriptionStep_noError)

text \<open>
  Claim C5. The reserved type \<open>error\<close> is never subscribed. In the registry of
  src/message-router.js, after every sequence of subscribe calls (and calls of the returned
  unsubscribe closures) on a fresh router there is no entry for \<open>error\<close> and its subscriber
  count is 0; a call \<^verbatim>\<open>subscribe('error', cb)\<close> fails and leaves the router as it was. In the
  websocket router, every sequence of subscribe and unsubscribe frames keeps \<open>error\<close> out
  of the subscription set of every connection.
\<close>

theorem error_type_never_subscribed:
  "subscribers (routerRun (newMessageRouter opt) reqs) ''error'' = None
   \<and> getSubscriberCount (routerRun (newMessageRouter opt) reqs) ''error'' = 0
   \<and> fst (subscribe r ''error'' cb) = r
   \<and> snd (subscribe r ''error'' cb) =
        SubscribeFailure
          (''Cannot subscribe to reserved type '' @ [CHR 0x27] @ ''error'' @ [CHR 0x27]
           @ ''. This type is reserved for system internal use.'')
   \<and> (noErrorSubscription conns \<longrightarrow>
        noErrorSubscription (foldl subscriptionStep conns frames))"
proof -
  have "subscribers (newMessageRouter opt :: 'a MessageRouter) ''error'' = None"
    by (simp add: newMessageRouter_def)
  from routerRun_keeps_error_free [OF this, of reqs]
  have 1: "subscribers (routerRun (newMessageRouter opt :: 'a MessageRouter) reqs) ''error'' = None" .
  then have 2: "getSubscriberCount (routerRun (newMessageRouter opt :: 'a MessageRouter) reqs) ''error'' = 0"
    by (simp add: getSubscriberCount_def)
  have 3: "subscribe r ''error'' cb = (r, SubscribeFailure
          (''Cannot subscribe to reserved type '' @ [CHR 0x27] @ ''error'' @ [CHR 0x27]
           @ ''. This type is reserved for system internal use.''))"
    by (simp add: subscribe_def RESERVED_TYPES_def)
  from 1 2 3 subscription_run_noError [of conns frames] show ?thesis by simp
qed

theorem error_type_never_subscribed_witness:
  "noErrorSubscription [exampleConnection\<lparr>cm_subscriptions := {}\<rparr>]
   \<and> noErrorSubscription
        (foldl subscriptionStep [exampleConnection\<lparr>cm_subscriptions := {}\<rparr>]
           [SubscribeFrame ''c1'' (Some [''error'']),
            SubscribeFrame ''c1'' (Some [''error'', ''stats'', ''bogus'']),
            UnsubscribeFrame ''c1'' (Some [''status''])])
   \<and> subscribers (routerRun (newMessageRouter None)
          [Subscribe ''error'' (1::nat), Subscribe ''status'' 2, Unsubscribe ''error'' 1])
        ''error'' = None"
proof -
  have h: "noErrorSubscription [exampleConnection\<lparr>cm_subscriptions := {}\<rparr>]"
    by (simp add: noErrorSubscription_def)
  from error_type_never_subscribed
         [where conns = "[exampleConnection\<lparr>cm_subscriptions := {}\<rparr>]"
            and frames = "[SubscribeFrame ''c1'' (Some [''error'']),
                           SubscribeFrame ''c1'' (Some [''error'', ''stats'', ''bogus'']),
                           UnsubscribeFrame ''c1'' (Some [''status''])]"
            and opt = None
            and r = "newMessageRouter None"
            and cb = "1::nat"
            and reqs = "[Subscribe ''error'' (1::nat), Subscribe ''status'' 2,
                         Unsubscribe ''error'' 1]"]
       h
  show ?thesis by blast
qed

text \<open>
  The reserved-type scenario: a subscribe frame naming only \<open>error\<close> is answered with
  \<open>SUBSCRIPTION_INVALID\<close> and the subscription set of the connection stays empty.
\<close>

lemma reserved_type_scenario:
  "handleSubscribe [exampleConnection\<lparr>cm_subscriptions := {}\<rparr>] ''c1'' (Some [''error''])
   = ([exampleConnection\<lparr>cm_subscriptions := {}\<rparr>],
      ErrorReply SUBSCRIPTION_INVALID ''No valid message types provided'')"
  by (simp add: handleSubscribe_def parseMessageType_def)

subsection \<open>The change detector: status priority\<close>

lemma detectStatusChanges_unfold:
  "detectStatusChanges a b =
     (if cpuUsage a \<noteq> cpuUsage b
      then [\<lparr> ch_field = ''cpuUsage'', ch_oldValue = NumberValue (cpuUsage a),
               ch_newValue = NumberValue (cpuUsage b),
               ch_delta = Some (cpuUsage b - cpuUsage a) \<rparr>] else [])
     @ (if memoryUsage a \<noteq> memoryUsage b
        then [\<lparr> ch_field = ''memoryUsage'', ch_oldValue = NumberValue (memoryUsage a),
                 ch_newValue = NumberValue (memoryUsage b),
                 ch_delta = Some (memoryUsage b - memoryUsage a) \<rparr>] else [])
     @ (if diskUsage a \<noteq> diskUsage b
        then [\<lparr> ch_field = ''diskUsage'', ch_oldValue = NumberValue (diskUsage a),
                 ch_newValue = NumberValue (diskUsage b),
                 ch_delta = Some (diskUsage b - diskUsage a) \<rparr>] else [])
     @ (if activeConnections a \<noteq> activeConnections b
        then [\<lparr> ch_field = ''activeConnections'',
                 ch_oldValue = NumberValue (real (activeConnections a)),
                 ch_newValue = NumberValue (real (activeConnections b)),
                 ch_delta = Some (real (activeConnections b) - real (activeConnections a)) \<rparr>]
        else [])
     @ (if systemOnline a \<noteq> systemOnline b
        then [\<lparr> ch_field = ''systemOnline'', ch_oldValue = BooleanValue (systemOnline a),
                 ch_newValue = BooleanValue (systemOnline b), ch_delta = None \<rparr>] else [])"
  by (simp add: detectStatusChanges_def fieldsToMonitor_def detectFieldChange_def
                statusField_def Let_def)

lemma length_detectStatusChanges:
  "length (detectStatusChanges a b) = changedFieldCount a b"
  by (simp add: detectStatusChanges_unfold changedFieldCount_def)

lemma hasCritical_detectStatusChanges:
  "list_ex (isCriticalChange cfg) (detectStatusChanges a b) \<longleftrightarrow>
     (cpuUsage a \<noteq> cpuUsage b \<and> cpuUsage b > cpuThreshold cfg)
     \<or> (memoryUsage a \<noteq> memoryUsage b \<and> memoryUsage b > memoryThreshold cfg)"
  by (simp add: detectStatusChanges_unfold isCriticalChange_def criticalFields_def)

lemma calculateStatusPriority_exceeding:
  "calculateStatusPriority cfg (detectStatusChanges a b) = exceedingPriority cfg a b"
  by (simp add: calculateStatusPriority_def exceedingPriority_def Let_def
                hasCritical_detectStatusChanges length_detectStatusChanges)

text \<open>
  Claim C9, as amended. When a last sample exists and at least one monitored field of the
  new sample differs from it, \<^verbatim>\<open>checkStatusChange\<close> makes exactly one broadcast call, a
  \<open>status_update\<close> carrying the list of changes (one per differing field), with priority
  high if CPU or memory usage changed and its new value exceeds its threshold, normal if
  more than three fields changed, low otherwise.
\<close>

theorem status_update_priority_by_exceeding:
  assumes "lastStatus d = Some old"
      and "changedFieldCount old cur > 0"
  shows "snd (checkStatusChange d now (Some cur)) =
           [\<lparr> bc_type = MT_status, bc_event = Ev_status_update,
              bc_data = StatusUpdateData cur (detectStatusChanges old cur) now,
              bc_priority = exceedingPriority (cd_config d) old cur \<rparr>]
         \<and> length (detectStatusChanges old cur) = changedFieldCount old cur
         \<and> lastStatus (fst (checkStatusChange d now (Some cur))) = Some cur"
proof -
  from assms(2) length_detectStatusChanges [of old cur]
  have "detectStatusChanges old cur \<noteq> []" by auto
  with assms(1) show ?thesis
    by (simp add: checkStatusChange_def Let_def calculateStatusPriority_exceeding
                  length_detectStatusChanges)
qed

theorem status_update_priority_by_exceeding_witness:
  "lastStatus ((newChangeDetector defaultChangeDetectorConfig)\<lparr>lastStatus := Some (cpuSample 70)\<rparr>)
     = Some (cpuSample 70)
   \<and> changedFieldCount (cpuSample 70) (cpuSample 85) > 0
   \<and> map callSummary (snd (checkStatusChange
        ((newChangeDetector defaultChangeDetectorConfig)\<lparr>lastStatus := Some (cpuSample 70)\<rparr>)
        5 (Some (cpuSample 85))))
     = [(Ev_status_update, P_high, None)]"
proof -
  let ?d = "(newChangeDetector defaultChangeDetectorConfig)\<lparr>lastStatus := Some (cpuSample 70)\<rparr>"
  have h1: "lastStatus ?d = Some (cpuSample 70)" by simp
  have h2: "changedFieldCount (cpuSample 70) (cpuSample 85) > 0"
    by (simp add: changedFieldCount_def cpuSample_def)
  from status_update_priority_by_exceeding [OF h1 h2, of 5]
  have "snd (checkStatusChange ?d 5 (Some (cpuSample 85))) =
           [\<lparr> bc_type = MT_status, bc_event = Ev_status_update,
              bc_data = StatusUpdateData (cpuSample 85)
                          (detectStatusChanges (cpuSample 70) (cpuSample 85)) 5,
              bc_priority = exceedingPriority (cd_config ?d) (cpuSample 70) (cpuSample 85) \<rparr>]"
    by blast
  then have "map callSummary (snd (checkStatusChange ?d 5 (Some (cpuSample 85))))
     = [(Ev_status_update, P_high, None)]"
    by (simp add: callSummary_def exceedingPriority_def newChangeDetector_def
                  defaultChangeDetectorConfig_def cpuSample_def)
  with h1 h2 show ?thesis by blast
qed

text \<open>
  Claim C9 as stated fails. CPU usage falls from 90 to 85 with the threshold at 80 and
  nothing else changes: no field crosses above its threshold and one field changed, so the
  claim gives low; the code gives high, because the new CPU value exceeds the threshold.
\<close>

theorem status_priority_crossing_counterexample:
  "map callSummary (snd (checkStatusChange
        ((newChangeDetector defaultChangeDetectorConfig)\<lparr>lastStatus := Some (cpuSample 90)\<rparr>)
        5 (Some (cpuSample 85))))
     = [(Ev_status_update, P_high, None)]
   \<and> changedFieldCount (cpuSample 90) (cpuSample 85) = 1
   \<and> \<not> crossesAbove (cpuThreshold defaultChangeDetectorConfig)
          (cpuUsage (cpuSample 90)) (cpuUsage (cpuSample 85))
   \<and> \<not> crossesAbove (memoryThreshold defaultChangeDetectorConfig)
          (memoryUsage (cpuSample 90)) (memoryUsage (cpuSample 85))
   \<and> crossingPriority defaultChangeDetectorConfig (cpuSample 90) (cpuSample 85) = P_low"
  by (simp add: checkStatusChange_def detectStatusChanges_unfold calculateStatusPriority_def
                isCriticalChange_def criticalFields_def callSummary_def crossingPriority_def
                crossesAbove_def changedFieldCount_def newChangeDetector_def
                defaultChangeDetectorConfig_def cpuSample_def Let_def)

subsection \<open>The change detector: health levels\<close>

lemma healthCheckStep_transition:
  "healthCheckStep fadd now (health, calls) (name, v, T) =
     (if map_option snd (health name) = Some (levelOf fadd T v) then health
      else health(name \<mapsto> (v, levelOf fadd T v)),
      calls @ transitionEvents now name T v (map_option snd (health name)) (levelOf fadd T v))"
  by (cases "health name")
     (auto simp: healthCheckStep_def getAlertLevel_def levelOf_def transitionEvents_def Let_def)

lemma checkHealthAlerts_events:
  assumes "lastStatus d = Some st"
  shows "snd (checkHealthAlerts fadd d now) =
           concat (map (\<lambda>(name, usage, threshold).
                          transitionEvents now name (threshold (cd_config d)) (usage st)
                            (map_option snd (lastHealthStatus d name))
                            (levelOf fadd (threshold (cd_config d)) (usage st)))
                       monitored)"
  using assms
  by (simp add: checkHealthAlerts_def Let_def healthCheckStep_transition monitored_def)

lemma checkHealthAlerts_levels:
  assumes "lastStatus d = Some st"
  shows "map_option snd (lastHealthStatus (fst (checkHealthAlerts fadd d now)) name) =
           (if name = ''cpu'' then Some (levelOf fadd (cpuThreshold (cd_config d)) (cpuUsage st))
            else if name = ''memory''
              then Some (levelOf fadd (memoryThreshold (cd_config d)) (memoryUsage st))
            else if name = ''disk''
              then Some (levelOf fadd (diskThreshold (cd_config d)) (diskUsage st))
            else map_option snd (lastHealthStatus d name))"
  using assms
  by (simp add: checkHealthAlerts_def Let_def healthCheckStep_transition)

lemma checkHealthAlerts_keeps:
  "lastStatus (fst (checkHealthAlerts fadd d now)) = lastStatus d"
  "cd_config (fst (checkHealthAlerts fadd d now)) = cd_config d"
  by (simp_all add: checkHealthAlerts_def Let_def split: option.splits)

lemma checkStatusChange_stores:
  "fst (checkStatusChange d now (Some st)) = d\<lparr>lastStatus := Some st\<rparr>"
  by (simp add: checkStatusChange_def Let_def split: option.splits)


lemma detectorTick_acc:
  "snd (foldl (detectorTick fadd now) (d, acc) samples)
     = acc @ snd (foldl (detectorTick fadd now) (d, []) samples)"
proof (induction samples arbitrary: d acc)
  case Nil
  then show ?case by simp
next
  case (Cons st samples)
  let ?d' = "fst (checkHealthAlerts fadd (fst (checkStatusChange d now (Some st))) now)"
  let ?c = "snd (checkHealthAlerts fadd (fst (checkStatusChange d now (Some st))) now)"
  have "snd (foldl (detectorTick fadd now) (d, acc) (st # samples))
          = snd (foldl (detectorTick fadd now) (?d', acc @ [?c]) samples)"
    by (simp add: detectorTick_def Let_def)
  also have "\<dots> = (acc @ [?c]) @ snd (foldl (detectorTick fadd now) (?d', []) samples)"
    by (rule Cons.IH)
  also have "\<dots> = acc @ snd (foldl (detectorTick fadd now) (?d', [?c]) samples)"
    using Cons.IH [of ?d' "[?c]"] by simp
  also have "\<dots> = acc @ snd (foldl (detectorTick fadd now) (d, []) (st # samples))"
    by (simp add: detectorTick_def Let_def)
  finally show ?case .
qed

lemma healthRun_Cons:
  "healthRun fadd now d (st # samples) =
     snd (checkHealthAlerts fadd (d\<lparr>lastStatus := Some st\<rparr>) now)
     # healthRun fadd now (fst (checkHealthAlerts fadd (d\<lparr>lastStatus := Some st\<rparr>) now)) samples"
proof -
  let ?d' = "fst (checkHealthAlerts fadd (d\<lparr>lastStatus := Some st\<rparr>) now)"
  let ?c = "snd (checkHealthAlerts fadd (d\<lparr>lastStatus := Some st\<rparr>) now)"
  have "healthRun fadd now d (st # samples)
          = snd (foldl (detectorTick fadd now) (?d', [?c]) samples)"
    by (simp add: healthRun_def detectorTick_def Let_def checkStatusChange_stores)
  also have "\<dots> = [?c] @ snd (foldl (detectorTick fadd now) (?d', []) samples)"
    by (rule detectorTick_acc)
  finally show ?thesis by (simp add: healthRun_def)
qed

lemma healthRun_expected:
  assumes "\<forall>(name, usage, threshold) \<in> set monitored.
             map_option snd (lastHealthStatus d name)
               = map_option (\<lambda>b. levelOf fadd (threshold (cd_config d)) (usage b)) before"
  shows "healthRun fadd now d samples = expectedHealthEvents fadd now (cd_config d) before samples"
  using assms
proof (induction samples arbitrary: d before)
  case Nil
  then show ?case by (simp add: healthRun_def)
next
  case (Cons st samples)
  let ?d0 = "d\<lparr>lastStatus := Some st\<rparr>"
  let ?d' = "fst (checkHealthAlerts fadd ?d0 now)"
  have ls: "lastStatus ?d0 = Some st" by simp
  have cfg: "cd_config ?d' = cd_config d"
    by (simp add: checkHealthAlerts_keeps)
  have inv: "\<forall>(name, usage, threshold) \<in> set monitored.
             map_option snd (lastHealthStatus ?d' name)
               = map_option (\<lambda>b. levelOf fadd (threshold (cd_config ?d')) (usage b)) (Some st)"
    unfolding cfg
    by (simp add: checkHealthAlerts_levels [OF ls] monitored_def)
  have tail: "healthRun fadd now ?d' samples
                = expectedHealthEvents fadd now (cd_config d) (Some st) samples"
    using Cons.IH [OF inv] by (simp only: cfg)
  have head: "snd (checkHealthAlerts fadd ?d0 now) =
           concat (map (\<lambda>(name, usage, threshold).
                          transitionEvents now name (threshold (cd_config d)) (usage st)
                            (map_option (\<lambda>b. levelOf fadd (threshold (cd_config d)) (usage b)) before)
                            (levelOf fadd (threshold (cd_config d)) (usage st)))
                       monitored)"
    using Cons.prems
    by (simp add: checkHealthAlerts_events [OF ls] monitored_def)
  show ?case
    by (simp only: healthRun_Cons tail head expectedHealthEvents.simps)
qed

lemma healthRun_new:
  "healthRun fadd now (newChangeDetector cfg) samples
     = expectedHealthEvents fadd now cfg None samples"
proof -
  have "\<forall>(name, usage, threshold) \<in> set monitored.
             map_option snd (lastHealthStatus (newChangeDetector cfg) name)
               = map_option (\<lambda>b. levelOf fadd (threshold (cd_config (newChangeDetector cfg))) (usage b)) None"
    by (simp add: newChangeDetector_def)
  from healthRun_expected [OF this, of now samples] show ?thesis
    by (simp add: newChangeDetector_def)
qed

lemma transitionEvents_component:
  "filter (\<lambda>c. callComponent c = Some name) (transitionEvents now name' T v before level)
     = (if name = name' then transitionEvents now name' T v before level else [])"
  by (auto simp: transitionEvents_def callComponent_def)

lemma checkHealthAlerts_about:
  assumes "lastStatus d = Some st" and "(name, usage, threshold) \<in> set monitored"
  shows "filter (\<lambda>c. callComponent c = Some name) (snd (checkHealthAlerts fadd d now))
           = transitionEvents now name (threshold (cd_config d)) (usage st)
               (map_option snd (lastHealthStatus d name))
               (levelOf fadd (threshold (cd_config d)) (usage st))"
  using assms(2)
  by (auto simp: checkHealthAlerts_events [OF assms(1)] monitored_def transitionEvents_component)

lemma checkHealthAlerts_level_after:
  assumes "lastStatus d = Some st" and "(name, usage, threshold) \<in> set monitored"
  shows "map_option snd (lastHealthStatus (fst (checkHealthAlerts fadd d now)) name)
           = Some (levelOf fadd (threshold (cd_config d)) (usage st))"
  using assms(2)
  by (auto simp: checkHealthAlerts_levels [OF assms(1)] monitored_def)

text \<open>
  Claim C7. \<^verbatim>\<open>getAlertLevel\<close> gives critical when the value exceeds \<open>T + 15\<close>, warning when it
  exceeds \<open>T\<close> and info otherwise; the sum is the program's sum of two doubles, which is the
  sum of the real numbers whenever that is a double, as it is at the thresholds 80 and 90.

  For every sequence of samples fed to a new detector, the health calls of each tick are
  those the specification gives (\<open>expectedHealthEvents\<close>): for each of the monitored
  components cpu, memory and disk, with its own usage figure and its own threshold, the
  events of the transition from the level of the sample before to the level of this sample.

  One run of \<^verbatim>\<open>checkHealthAlerts\<close> in any state of the detector that holds a sample makes, for
  the three components in turn, the calls of the transition from the recorded level to the
  level of the sample, and afterwards the recorded level of every component is the level of
  the sample. For every monitored component, of the calls about it: when the recorded level
  is info and the new level is not, there is exactly one, a \<open>health_alert\<close> that carries the
  new level, at priority high if the new level is critical and normal otherwise; when the
  recorded level is not info and the new level is info, there is exactly one, a
  \<open>health_recovery\<close> at priority normal; when the new level is the recorded level, there is
  none.
\<close>

theorem health_level_transitions:
  "getAlertLevel fadd v T = (if v > fadd T 15 then Critical else if v > T then Warning else Info)
   \<and> (fadd T 15 = T + 15 \<longrightarrow>
        getAlertLevel fadd v T = (if v > T + 15 then Critical else if v > T then Warning else Info))
   \<and> getAlertLevel fadd v T = levelOf fadd T v
   \<and> healthRun fadd now (newChangeDetector cfg) samples
        = expectedHealthEvents fadd now cfg None samples
   \<and> (lastStatus d = Some st \<longrightarrow>
        snd (checkHealthAlerts fadd d now) =
          concat (map (\<lambda>(name, usage, threshold).
                         transitionEvents now name (threshold (cd_config d)) (usage st)
                           (map_option snd (lastHealthStatus d name))
                           (levelOf fadd (threshold (cd_config d)) (usage st)))
                      monitored)
        \<and> (\<forall>(name, usage, threshold) \<in> set monitored.
             let limit = threshold (cd_config d);
                 sampled = usage st;
                 level = levelOf fadd limit sampled;
                 before = map_option snd (lastHealthStatus d name);
                 about = filter (\<lambda>c. callComponent c = Some name)
                           (snd (checkHealthAlerts fadd d now))
             in map_option snd (lastHealthStatus (fst (checkHealthAlerts fadd d now)) name)
                  = Some level
              \<and> (before = Some Info \<and> level \<noteq> Info \<longrightarrow>
                   about =
                     [\<lparr> bc_type = MT_health, bc_event = Ev_health_alert,
                        bc_data = HealthAlertData
                          \<lparr> ha_level = level, ha_component = name, ha_threshold = limit,
                            ha_currentValue = sampled, ha_timestamp = now \<rparr>,
                        bc_priority = (if level = Critical then P_high else P_normal) \<rparr>])
              \<and> (before \<noteq> None \<and> before \<noteq> Some Info \<and> level = Info \<longrightarrow>
                   about =
                     [\<lparr> bc_type = MT_health, bc_event = Ev_health_recovery,
                        bc_data = HealthRecoveryData name now, bc_priority = P_normal \<rparr>])
              \<and> (before = Some level \<longrightarrow> about = [])))"
proof -
  have 1: "getAlertLevel fadd v T
             = (if v > fadd T 15 then Critical else if v > T then Warning else Info)"
    by (simp add: getAlertLevel_def)
  have 2: "fadd T 15 = T + 15 \<longrightarrow>
        getAlertLevel fadd v T = (if v > T + 15 then Critical else if v > T then Warning else Info)"
    by (simp add: getAlertLevel_def)
  have 3: "getAlertLevel fadd v T = levelOf fadd T v"
    by (simp add: getAlertLevel_def levelOf_def)
  have 4: "healthRun fadd now (newChangeDetector cfg) samples
        = expectedHealthEvents fadd now cfg None samples"
    by (rule healthRun_new)
  have 5: "lastStatus d = Some st \<longrightarrow>
        snd (checkHealthAlerts fadd d now) =
          concat (map (\<lambda>(name, usage, threshold).
                         transitionEvents now name (threshold (cd_config d)) (usage st)
                           (map_option snd (lastHealthStatus d name))
                           (levelOf fadd (threshold (cd_config d)) (usage st)))
                      monitored)
        \<and> (\<forall>(name, usage, threshold) \<in> set monitored.
             let limit = threshold (cd_config d);
                 sampled = usage st;
                 level = levelOf fadd limit sampled;
                 before = map_option snd (lastHealthStatus d name);
                 about = filter (\<lambda>c. callComponent c = Some name)
                           (snd (checkHealthAlerts fadd d now))
             in map_option snd (lastHealthStatus (fst (checkHealthAlerts fadd d now)) name)
                  = Some level
              \<and> (before = Some Info \<and> level \<noteq> Info \<longrightarrow>
                   about =
                     [\<lparr> bc_type = MT_health, bc_event = Ev_health_alert,
                        bc_data = HealthAlertData
                          \<lparr> ha_level = level, ha_component = name, ha_threshold = limit,
                            ha_currentValue = sampled, ha_timestamp = now \<rparr>,
                        bc_priority = (if level = Critical then P_high else P_normal) \<rparr>])
              \<and> (before \<noteq> None \<and> before \<noteq> Some Info \<and> level = Info \<longrightarrow>
                   about =
                     [\<lparr> bc_type = MT_health, bc_event = Ev_health_recovery,
                        bc_data = HealthRecoveryData name now, bc_priority = P_normal \<rparr>])
              \<and> (before = Some level \<longrightarrow> about = []))"
  proof (intro impI conjI)
    assume ls: "lastStatus d = Some st"
    show "snd (checkHealthAlerts fadd d now) =
          concat (map (\<lambda>(name, usage, threshold).
                         transitionEvents now name (threshold (cd_config d)) (usage st)
                           (map_option snd (lastHealthStatus d name))
                           (levelOf fadd (threshold (cd_config d)) (usage st)))
                      monitored)"
      by (rule checkHealthAlerts_events [OF ls])
    show "\<forall>(name, usage, threshold) \<in> set monitored.
             let limit = threshold (cd_config d);
                 sampled = usage st;
                 level = levelOf fadd limit sampled;
                 before = map_option snd (lastHealthStatus d name);
                 about = filter (\<lambda>c. callComponent c = Some name)
                           (snd (checkHealthAlerts fadd d now))
             in map_option snd (lastHealthStatus (fst (checkHealthAlerts fadd d now)) name)
                  = Some level
              \<and> (before = Some Info \<and> level \<noteq> Info \<longrightarrow>
                   about =
                     [\<lparr> bc_type = MT_health, bc_event = Ev_health_alert,
                        bc_data = HealthAlertData
                          \<lparr> ha_level = level, ha_component = name, ha_threshold = limit,
                            ha_currentValue = sampled, ha_timestamp = now \<rparr>,
                        bc_priority = (if level = Critical then P_high else P_normal) \<rparr>])
              \<and> (before \<noteq> None \<and> before \<noteq> Some Info \<and> level = Info \<longrightarrow>
                   about =
                     [\<lparr> bc_type = MT_health, bc_event = Ev_health_recovery,
                        bc_data = HealthRecoveryData name now, bc_priority = P_normal \<rparr>])
              \<and> (before = Some level \<longrightarrow> about = [])"
    proof (intro ballI, clarify)
      fix name usage threshold
      assume mem: "(name, usage, threshold) \<in> set monitored"
      note about = checkHealthAlerts_about [OF ls mem, of fadd now]
      note after = checkHealthAlerts_level_after [OF ls mem, of fadd now]
      show "let limit = threshold (cd_config d);
                 sampled = usage st;
                 level = levelOf fadd limit sampled;
                 before = map_option snd (lastHealthStatus d name);
                 about = filter (\<lambda>c. callComponent c = Some name)
                           (snd (checkHealthAlerts fadd d now))
             in map_option snd (lastHealthStatus (fst (checkHealthAlerts fadd d now)) name)
                  = Some level
              \<and> (before = Some Info \<and> level \<noteq> Info \<longrightarrow>
                   about =
                     [\<lparr> bc_type = MT_health, bc_event = Ev_health_alert,
                        bc_data = HealthAlertData
                          \<lparr> ha_level = level, ha_component = name, ha_threshold = limit,
                            ha_currentValue = sampled, ha_timestamp = now \<rparr>,
                        bc_priority = (if level = Critical then P_high else P_normal) \<rparr>])
              \<and> (before \<noteq> None \<and> before \<noteq> Some Info \<and> level = Info \<longrightarrow>
                   about =
                     [\<lparr> bc_type = MT_health, bc_event = Ev_health_recovery,
                        bc_data = HealthRecoveryData name now, bc_priority = P_normal \<rparr>])
              \<and> (before = Some level \<longrightarrow> about = [])"
        unfolding Let_def about after
        by (auto simp: transitionEvents_def)
    qed
  qed
  from 1 2 3 4 5 show ?thesis by blast
qed

theorem health_level_transitions_witness:
  "lastStatus exampleDetector = Some (usageSample 85 40 65)
   \<and> exactSum 80 15 = 80 + 15
   \<and> getAlertLevel exactSum 96 80 = Critical
   \<and> snd (checkHealthAlerts exactSum exampleDetector 7) =
       [\<lparr> bc_type = MT_health, bc_event = Ev_health_alert,
          bc_data = HealthAlertData
            \<lparr> ha_level = Warning, ha_component = ''cpu'', ha_threshold = 80,
              ha_currentValue = 85, ha_timestamp = 7 \<rparr>,
          bc_priority = P_normal \<rparr>,
        \<lparr> bc_type = MT_health, bc_event = Ev_health_recovery,
          bc_data = HealthRecoveryData ''memory'' 7, bc_priority = P_normal \<rparr>]
   \<and> map (map (\<lambda>c. (callComponent c, callSummary c)))
       (healthRun exactSum 0 (newChangeDetector defaultChangeDetectorConfig)
          [usageSample 70 40 65, usageSample 85 40 65, usageSample 96 97 65,
           usageSample 85 97 95, usageSample 70 40 65])
     = [[],
        [(Some ''cpu'', Ev_health_alert, P_normal, Some Warning)],
        [(Some ''cpu'', Ev_health_alert, P_high, Some Critical),
         (Some ''memory'', Ev_health_alert, P_high, Some Critical)],
        [(Some ''cpu'', Ev_health_alert, P_normal, Some Warning),
         (Some ''disk'', Ev_health_alert, P_normal, Some Warning)],
        [(Some ''cpu'', Ev_health_recovery, P_normal, None),
         (Some ''memory'', Ev_health_recovery, P_normal, None),
         (Some ''disk'', Ev_health_recovery, P_normal, None)]]"
proof -
  let ?samples = "[usageSample 70 40 65, usageSample 85 40 65, usageSample 96 97 65,
           usageSample 85 97 95, usageSample 70 40 65]"
  note one = health_level_transitions
         [where fadd = exactSum and v = 96 and T = 80 and now = 7 and d = exampleDetector
            and st = "usageSample 85 40 65" and cfg = defaultChangeDetectorConfig
            and samples = "[]"]
  note run = health_level_transitions
         [where fadd = exactSum and v = 96 and T = 80 and now = 0 and d = exampleDetector
            and st = "usageSample 85 40 65" and cfg = defaultChangeDetectorConfig
            and samples = ?samples]
  have h: "lastStatus exampleDetector = Some (usageSample 85 40 65)"
    by (simp add: exampleDetector_def)
  have e: "exactSum 80 15 = 80 + 15"
    by (simp add: exactSum_def)
  from one e have a: "getAlertLevel exactSum 96 80
      = (if (96::real) > 80 + 15 then Critical else if (96::real) > 80 then Warning else Info)"
    by blast
  from one h have "snd (checkHealthAlerts exactSum exampleDetector 7) =
          concat (map (\<lambda>(name, usage, threshold).
                         transitionEvents 7 name (threshold (cd_config exampleDetector))
                           (usage (usageSample 85 40 65))
                           (map_option snd (lastHealthStatus exampleDetector name))
                           (levelOf exactSum (threshold (cd_config exampleDetector))
                              (usage (usageSample 85 40 65))))
                      monitored)"
    by blast
  then have b: "snd (checkHealthAlerts exactSum exampleDetector 7) =
       [\<lparr> bc_type = MT_health, bc_event = Ev_health_alert,
          bc_data = HealthAlertData
            \<lparr> ha_level = Warning, ha_component = ''cpu'', ha_threshold = 80,
              ha_currentValue = 85, ha_timestamp = 7 \<rparr>,
          bc_priority = P_normal \<rparr>,
        \<lparr> bc_type = MT_health, bc_event = Ev_health_recovery,
          bc_data = HealthRecoveryData ''memory'' 7, bc_priority = P_normal \<rparr>]"
    by (simp add: monitored_def transitionEvents_def levelOf_def exactSum_def
          exampleDetector_def defaultChangeDetectorConfig_def usageSample_def)
  from run have "healthRun exactSum 0 (newChangeDetector defaultChangeDetectorConfig) ?samples
        = expectedHealthEvents exactSum 0 defaultChangeDetectorConfig None ?samples"
    by blast
  then have c: "map (map (\<lambda>c. (callComponent c, callSummary c)))
       (healthRun exactSum 0 (newChangeDetector defaultChangeDetectorConfig) ?samples)
     = [[],
        [(Some ''cpu'', Ev_health_alert, P_normal, Some Warning)],
        [(Some ''cpu'', Ev_health_alert, P_high, Some Critical),
         (Some ''memory'', Ev_health_alert, P_high, Some Critical)],
        [(Some ''cpu'', Ev_health_alert, P_normal, Some Warning),
         (Some ''disk'', Ev_health_alert, P_normal, Some Warning)],
        [(Some ''cpu'', Ev_health_recovery, P_normal, None),
         (Some ''memory'', Ev_health_recovery, P_normal, None),
         (Some ''disk'', Ev_health_recovery, P_normal, None)]]"
    by (simp add: monitored_def transitionEvents_def levelOf_def exactSum_def
          defaultChangeDetectorConfig_def usageSample_def callComponent_def callSummary_def)
  from a have a': "getAlertLevel exactSum 96 80 = Critical" by simp
  from h e a' b c show ?thesis by blast
qed

text \<open>
  The health scenario: with the CPU threshold at 80, the samples 70, 85, 96, 85, 70 produce
  no call, a warning alert, a critical alert at priority high, a warning alert, and a
  recovery.
\<close>

lemma health_scenario:
  "map (map callSummary)
     (healthRun exactSum 0 (newChangeDetector defaultChangeDetectorConfig)
        (map cpuSample [70, 85, 96, 85, 70]))
   = [[], [(Ev_health_alert, P_normal, Some Warning)],
      [(Ev_health_alert, P_high, Some Critical)],
      [(Ev_health_alert, P_normal, Some Warning)],
      [(Ev_health_recovery, P_normal, None)]]"
  by (simp add: healthRun_def detectorTick_def checkStatusChange_def checkHealthAlerts_def
                healthCheckStep_def getAlertLevel_def newChangeDetector_def exactSum_def
                defaultChangeDetectorConfig_def cpuSample_def callSummary_def Let_def)

subsection \<open>The websocket client: flushing the offline queue\<close>

lemma flushLoop_connected:
  assumes "c_state c = Connected" and "c_ws c = Some WS_OPEN"
  shows "flushLoop c = Some (c\<lparr>c_messageQueue := [], c_wire := c_wire c @ c_messageQueue c\<rparr>)"
  using assms
proof (induction "c_messageQueue c" arbitrary: c)
  case Nil
  then show ?case by (subst flushLoop.simps) simp
next
  case (Cons message rest)
  let ?c' = "fst (send (c\<lparr>c_messageQueue := rest\<rparr>) message)"
  have c': "?c' = c\<lparr>c_messageQueue := rest, c_wire := c_wire c @ [message]\<rparr>"
    using Cons.prems by (simp add: send_def)
  have "flushLoop ?c' = Some (?c'\<lparr>c_messageQueue := [], c_wire := c_wire ?c' @ c_messageQueue ?c'\<rparr>)"
    by (rule Cons.hyps(1)) (simp_all add: c' Cons.prems)
  moreover have "flushLoop c = flushLoop ?c'"
    by (subst flushLoop.simps) (simp add: Cons.hyps(2) [symmetric])
  ultimately show ?case
    using Cons.hyps(2) by (simp add: c')
qed

lemma send_keeps [simp]:
  "c_reconnectAttempts (fst (send c m)) = c_reconnectAttempts c"
  "c_options (fst (send c m)) = c_options c"
  by (simp_all add: send_def)

lemma flushLoop_keeps:
  assumes "flushLoop c = Some c'"
  shows "c_reconnectAttempts c' = c_reconnectAttempts c \<and> c_options c' = c_options c"
proof -
  let ?P = "\<lambda>x y. c_reconnectAttempts y = c_reconnectAttempts x \<and> c_options y = c_options x"
  have step: "?P x y"
    if IH: "\<And>x y. f x = Some y \<Longrightarrow> ?P x y"
    and body: "(case c_messageQueue x of
                  [] \<Rightarrow> Some x
                | message # rest \<Rightarrow> f (fst (send (x\<lparr>c_messageQueue := rest\<rparr>) message)))
               = Some y"
    for f x y
  proof (cases "c_messageQueue x")
    case Nil
    with body show ?thesis by simp
  next
    case (Cons message rest)
    with body have "f (fst (send (x\<lparr>c_messageQueue := rest\<rparr>) message)) = Some y"
      by simp
    from IH [OF this] show ?thesis by simp
  qed
  show ?thesis
    by (rule flushLoop.raw_induct [where P = ?P, OF step assms])
qed

subsection \<open>The websocket client: reconnecting\<close>

lemma attemptsBounded_attemptReconnect:
  "attemptsBounded opts c \<Longrightarrow> attemptsBounded opts (attemptReconnect c)"
  by (auto simp: attemptsBounded_def attemptReconnect_def Let_def)

lemma attemptsBounded_connect:
  "attemptsBounded opts c \<Longrightarrow> attemptsBounded opts (connect c throws)"
proof -
  assume a: "attemptsBounded opts c"
  then have "attemptsBounded opts
               (c\<lparr>c_state := Connecting,
                  c_callbacks := c_callbacks c @ [OnError ''SyntaxError'']\<rparr>)"
    by (simp add: attemptsBounded_def)
  from attemptsBounded_attemptReconnect [OF this] a show ?thesis
    by (simp add: connect_def Let_def attemptsBounded_def)
qed

lemma attemptsBounded_handleClose:
  "attemptsBounded opts c \<Longrightarrow> attemptsBounded opts (handleClose c)"
proof -
  assume a: "attemptsBounded opts c"
  let ?c3 = "cleanup c\<lparr>c_connectionId := None,
               c_callbacks := c_callbacks (cleanup c) @ [OnClose]\<rparr>"
  from a have b: "attemptsBounded opts ?c3"
    by (simp add: attemptsBounded_def cleanup_def)
  from attemptsBounded_attemptReconnect [OF b] b show ?thesis
    by (simp add: handleClose_def Let_def)
qed

lemma attemptsBounded_handleOpen:
  assumes "attemptsBounded opts c" and "handleOpen c uuid now = Some c'"
  shows "attemptsBounded opts c'"
proof -
  let ?c2 = "startHeartbeat (c\<lparr>c_state := Connected, c_reconnectAttempts := 0,
                                c_lastPongTime := now\<rparr>)"
  from assms(2) obtain c3 where c3: "flushMessageQueue ?c2 uuid now = Some c3"
    and c': "c' = c3\<lparr>c_callbacks := c_callbacks c3 @ [OnOpen]\<rparr>"
    by (auto simp: handleOpen_def Let_def split: option.splits)
  have "c_reconnectAttempts c3 = 0 \<and> c_options c3 = c_options c"
  proof (cases "c_messageQueue ?c2 = []")
    case True
    with c3 show ?thesis by (auto simp: flushMessageQueue_def startHeartbeat_def)
  next
    case False
    with c3 obtain c4 where c4: "flushLoop ?c2 = Some c4"
      and c3': "c3 = (if c_subscriptions c4 \<noteq> []
                      then fst (send c4 (subscribeFrame uuid now (c_subscriptions c4)))
                      else c4)"
      by (auto simp: flushMessageQueue_def split: option.splits if_splits)
    from flushLoop_keeps [OF c4] c3' show ?thesis
      by (simp add: startHeartbeat_def)
  qed
  with assms(1) c' show ?thesis by (simp add: attemptsBounded_def)
qed

lemma attemptsBounded_handleMessage:
  "attemptsBounded opts c \<Longrightarrow> attemptsBounded opts (handleMessage c now parsed)"
  by (auto simp: attemptsBounded_def handleMessage_def failedToParse_def Let_def
           split: option.splits json.splits)

lemma attemptsBounded_clientStep:
  assumes "attemptsBounded opts c" and "clientStep c e = Some c'"
  shows "attemptsBounded opts c'"
proof (cases e)
  case (SocketOpened uuid now)
  from assms(1) have "attemptsBounded opts (c\<lparr>c_ws := map_option (\<lambda>r. WS_OPEN) (c_ws c)\<rparr>)"
    by (simp add: attemptsBounded_def)
  from attemptsBounded_handleOpen [OF this] assms(2) SocketOpened show ?thesis by simp
next
  case SocketClosed
  from assms(1) have "attemptsBounded opts (c\<lparr>c_ws := map_option (\<lambda>r. WS_CLOSED) (c_ws c)\<rparr>)"
    by (simp add: attemptsBounded_def)
  from attemptsBounded_handleClose [OF this] assms(2) SocketClosed show ?thesis by auto
next
  case SocketErrored
  with assms show ?thesis by (auto simp: attemptsBounded_def handleError_def)
next
  case (FrameReceived now parsed)
  with assms attemptsBounded_handleMessage [OF assms(1), of now parsed] show ?thesis by auto
next
  case (ReconnectTimerFired throws)
  with assms attemptsBounded_connect [OF assms(1), of throws] show ?thesis
    by (auto split: if_splits)
next
  case (HeartbeatTimerFired uuid now)
  with assms show ?thesis
    by (auto simp: attemptsBounded_def heartbeatTick_def ping_def Let_def split: if_splits)
next
  case (CallConnect throws)
  with assms attemptsBounded_connect [OF assms(1), of throws] show ?thesis by auto
next
  case CallDisconnect
  with assms show ?thesis
    by (auto simp: attemptsBounded_def disconnect_def cleanup_def Let_def)
next
  case (CallSend message)
  with assms show ?thesis by (auto simp: attemptsBounded_def)
next
  case (CallSubscribe uuid now types)
  with assms show ?thesis by (auto simp: attemptsBounded_def clientSubscribe_def Let_def)
next
  case (CallUnsubscribe uuid now types)
  with assms show ?thesis by (auto simp: attemptsBounded_def clientUnsubscribe_def Let_def)
qed

lemma attemptsBounded_clientRun:
  "attemptsBounded opts c \<Longrightarrow> clientRun c es = Some c' \<Longrightarrow> attemptsBounded opts c'"
proof (induction es arbitrary: c)
  case Nil
  then show ?case by simp
next
  case (Cons e es)
  from Cons.prems(2) obtain c1 where c1: "clientStep c e = Some c1"
    and rest: "clientRun c1 es = Some c'"
    by (auto split: option.splits)
  from Cons.IH [OF attemptsBounded_clientStep [OF Cons.prems(1) c1] rest] show ?case .
qed

lemma attemptsBounded_newClient: "attemptsBounded opts (newClient opts now throws)"
proof -
  have "attemptsBounded opts
          \<lparr> c_ws = None, c_state = Disconnected, c_reconnectAttempts = 0,
            c_reconnectTimer = None, c_heartbeatTimer = False, c_lastPongTime = now,
            c_messageQueue = [], c_subscriptions = [], c_connectionId = None,
            c_options = opts, c_wire = [], c_callbacks = [], c_closeRequests = 0 \<rparr>"
    by (simp add: attemptsBounded_def)
  from attemptsBounded_connect [OF this, of throws] this show ?thesis
    by (simp add: newClient_def Let_def)
qed


text \<open>
  Claim C8. While the attempt counter is below \<open>maxReconnectAttempts\<close>, \<^verbatim>\<open>attemptReconnect\<close>
  moves the client to reconnecting, counts the attempt \<open>n\<close> and schedules \<^verbatim>\<open>connect\<close> after
  \<open>min (reconnectInterval * 1.5 ^ (n - 1)) 30000\<close> milliseconds. Once the counter has reached
  the ceiling, \<^verbatim>\<open>attemptReconnect\<close> sets the state to disconnected and calls the error
  callback with \<open>Max reconnection attempts reached\<close>, and a close handled in that situation
  leaves no timer pending. Whatever happens to a client after its construction, the counter
  never exceeds \<open>maxReconnectAttempts\<close>. The defaults are 3000 ms and 5 attempts.

  A close that permits a retry is a close event that reaches a client which has not been
  disconnected on purpose and whose counter is below the ceiling. \<^verbatim>\<open>handleClose\<close> then clears
  both timers and the connection id, calls the close callback, and makes the attempt: with
  \<open>n\<close> the counter plus one, the client is reconnecting, its counter is \<open>n\<close>, the reconnecting
  callback has been called with \<open>n\<close>, and the one pending timer waits
  \<open>min (reconnectInterval * 1.5 ^ (n - 1)) 30000\<close> milliseconds; nothing else changes. The
  socket's close event does the same. A close that reaches a client in the state disconnected
  schedules nothing, and when the pending timer fires the client connects again.
\<close>

theorem reconnect_backoff_and_ceiling:
  "(c_reconnectAttempts c < maxReconnectAttempts (c_options c) \<longrightarrow>
      c_state (attemptReconnect c) = Reconnecting
      \<and> c_reconnectAttempts (attemptReconnect c) = c_reconnectAttempts c + 1
      \<and> c_reconnectTimer (attemptReconnect c) =
          Some (min (reconnectInterval (c_options c)
                       * (3 / 2) ^ (c_reconnectAttempts (attemptReconnect c) - 1))
                    30000)
      \<and> c_callbacks (attemptReconnect c)
          = c_callbacks c @ [OnReconnecting (c_reconnectAttempts c + 1)])
   \<and> (maxReconnectAttempts (c_options c) \<le> c_reconnectAttempts c \<longrightarrow>
      attemptReconnect c =
        c\<lparr>c_state := Disconnected,
          c_callbacks := c_callbacks c @ [OnError ''Max reconnection attempts reached'']\<rparr>)
   \<and> (maxReconnectAttempts (c_options c) \<le> c_reconnectAttempts c
        \<and> c_state c \<noteq> Disconnected \<longrightarrow>
      c_state (handleClose c) = Disconnected
      \<and> c_reconnectTimer (handleClose c) = None
      \<and> c_reconnectAttempts (handleClose c) = c_reconnectAttempts c
      \<and> c_callbacks (handleClose c)
          = c_callbacks c @ [OnClose, OnError ''Max reconnection attempts reached''])
   \<and> (clientRun (newClient opts now0 throws0) events = Some c' \<longrightarrow>
      c_reconnectAttempts c' \<le> maxReconnectAttempts opts \<and> c_options c' = opts)
   \<and> reconnectInterval (defaultOptions u) = 3000
   \<and> maxReconnectAttempts (defaultOptions u) = 5
   \<and> (c_state c \<noteq> Disconnected
        \<and> c_reconnectAttempts c < maxReconnectAttempts (c_options c) \<longrightarrow>
      handleClose c =
        c\<lparr>c_state := Reconnecting,
          c_reconnectAttempts := c_reconnectAttempts c + 1,
          c_reconnectTimer :=
            Some (min (reconnectInterval (c_options c) * (3 / 2) ^ c_reconnectAttempts c)
                      30000),
          c_heartbeatTimer := False,
          c_connectionId := None,
          c_callbacks := c_callbacks c @ [OnClose, OnReconnecting (c_reconnectAttempts c + 1)]\<rparr>
      \<and> clientStep c SocketClosed =
          Some (c\<lparr>c_ws := map_option (\<lambda>r. WS_CLOSED) (c_ws c),
                  c_state := Reconnecting,
                  c_reconnectAttempts := c_reconnectAttempts c + 1,
                  c_reconnectTimer :=
                    Some (min (reconnectInterval (c_options c) * (3 / 2) ^ c_reconnectAttempts c)
                              30000),
                  c_heartbeatTimer := False,
                  c_connectionId := None,
                  c_callbacks :=
                    c_callbacks c @ [OnClose, OnReconnecting (c_reconnectAttempts c + 1)]\<rparr>))
   \<and> (c_reconnectAttempts c < maxReconnectAttempts (c_options c) \<longrightarrow>
      attemptReconnect c =
        c\<lparr>c_state := Reconnecting,
          c_reconnectAttempts := c_reconnectAttempts c + 1,
          c_callbacks := c_callbacks c @ [OnReconnecting (c_reconnectAttempts c + 1)],
          c_reconnectTimer :=
            Some (min (reconnectInterval (c_options c) * (3 / 2) ^ c_reconnectAttempts c)
                      30000)\<rparr>)
   \<and> (c_state c = Disconnected \<longrightarrow>
      handleClose c =
        c\<lparr>c_reconnectTimer := None, c_heartbeatTimer := False, c_connectionId := None,
          c_callbacks := c_callbacks c @ [OnClose]\<rparr>)
   \<and> (c_reconnectTimer c \<noteq> None \<and> c_state c = Reconnecting \<longrightarrow>
      clientStep c (ReconnectTimerFired False)
        = Some (c\<lparr>c_state := Connecting, c_ws := Some WS_CONNECTING\<rparr>))"
proof -
  have 1: "c_reconnectAttempts c < maxReconnectAttempts (c_options c) \<longrightarrow>
      c_state (attemptReconnect c) = Reconnecting
      \<and> c_reconnectAttempts (attemptReconnect c) = c_reconnectAttempts c + 1
      \<and> c_reconnectTimer (attemptReconnect c) =
          Some (min (reconnectInterval (c_options c)
                       * (3 / 2) ^ (c_reconnectAttempts (attemptReconnect c) - 1))
                    30000)
      \<and> c_callbacks (attemptReconnect c)
          = c_callbacks c @ [OnReconnecting (c_reconnectAttempts c + 1)]"
    by (simp add: attemptReconnect_def Let_def)
  have 2: "maxReconnectAttempts (c_options c) \<le> c_reconnectAttempts c \<longrightarrow>
      attemptReconnect c =
        c\<lparr>c_state := Disconnected,
          c_callbacks := c_callbacks c @ [OnError ''Max reconnection attempts reached'']\<rparr>"
    by (simp add: attemptReconnect_def)
  have 3: "maxReconnectAttempts (c_options c) \<le> c_reconnectAttempts c
        \<and> c_state c \<noteq> Disconnected \<longrightarrow>
      c_state (handleClose c) = Disconnected
      \<and> c_reconnectTimer (handleClose c) = None
      \<and> c_reconnectAttempts (handleClose c) = c_reconnectAttempts c
      \<and> c_callbacks (handleClose c)
          = c_callbacks c @ [OnClose, OnError ''Max reconnection attempts reached'']"
    by (simp add: handleClose_def attemptReconnect_def cleanup_def Let_def)
  have 4: "clientRun (newClient opts now0 throws0) events = Some c' \<longrightarrow>
      c_reconnectAttempts c' \<le> maxReconnectAttempts opts \<and> c_options c' = opts"
    using attemptsBounded_clientRun [OF attemptsBounded_newClient, of opts now0 throws0 events c']
    by (simp add: attemptsBounded_def)
  have 5: "reconnectInterval (defaultOptions u) = 3000"
          "maxReconnectAttempts (defaultOptions u) = 5"
    by (simp_all add: defaultOptions_def)
  have 6: "c_state c \<noteq> Disconnected
        \<and> c_reconnectAttempts c < maxReconnectAttempts (c_options c) \<longrightarrow>
      handleClose c =
        c\<lparr>c_state := Reconnecting,
          c_reconnectAttempts := c_reconnectAttempts c + 1,
          c_reconnectTimer :=
            Some (min (reconnectInterval (c_options c) * (3 / 2) ^ c_reconnectAttempts c)
                      30000),
          c_heartbeatTimer := False,
          c_connectionId := None,
          c_callbacks := c_callbacks c @ [OnClose, OnReconnecting (c_reconnectAttempts c + 1)]\<rparr>
      \<and> clientStep c SocketClosed =
          Some (c\<lparr>c_ws := map_option (\<lambda>r. WS_CLOSED) (c_ws c),
                  c_state := Reconnecting,
                  c_reconnectAttempts := c_reconnectAttempts c + 1,
                  c_reconnectTimer :=
                    Some (min (reconnectInterval (c_options c) * (3 / 2) ^ c_reconnectAttempts c)
                              30000),
                  c_heartbeatTimer := False,
                  c_connectionId := None,
                  c_callbacks :=
                    c_callbacks c @ [OnClose, OnReconnecting (c_reconnectAttempts c + 1)]\<rparr>)"
    by (simp add: handleClose_def attemptReconnect_def cleanup_def Let_def)
  have 7: "c_reconnectAttempts c < maxReconnectAttempts (c_options c) \<longrightarrow>
      attemptReconnect c =
        c\<lparr>c_state := Reconnecting,
          c_reconnectAttempts := c_reconnectAttempts c + 1,
          c_callbacks := c_callbacks c @ [OnReconnecting (c_reconnectAttempts c + 1)],
          c_reconnectTimer :=
            Some (min (reconnectInterval (c_options c) * (3 / 2) ^ c_reconnectAttempts c)
                      30000)\<rparr>"
    by (simp add: attemptReconnect_def Let_def)
  have 8: "c_state c = Disconnected \<longrightarrow>
      handleClose c =
        c\<lparr>c_reconnectTimer := None, c_heartbeatTimer := False, c_connectionId := None,
          c_callbacks := c_callbacks c @ [OnClose]\<rparr>"
    by (simp add: handleClose_def cleanup_def Let_def)
  have 9: "c_reconnectTimer c \<noteq> None \<and> c_state c = Reconnecting \<longrightarrow>
      clientStep c (ReconnectTimerFired False)
        = Some (c\<lparr>c_state := Connecting, c_ws := Some WS_CONNECTING\<rparr>)"
    by (simp add: connect_def Let_def)
  from 1 2 3 4 5 6 7 8 9 show ?thesis by blast
qed

theorem reconnect_backoff_and_ceiling_witness:
  "c_reconnectAttempts (exampleClient\<lparr>c_reconnectAttempts := 2\<rparr>)
     < maxReconnectAttempts (c_options (exampleClient\<lparr>c_reconnectAttempts := 2\<rparr>))
   \<and> c_reconnectTimer (attemptReconnect (exampleClient\<lparr>c_reconnectAttempts := 2\<rparr>))
       = Some 6750
   \<and> maxReconnectAttempts (c_options (exampleClient\<lparr>c_reconnectAttempts := 5\<rparr>))
       \<le> c_reconnectAttempts (exampleClient\<lparr>c_reconnectAttempts := 5\<rparr>)
   \<and> c_state (attemptReconnect (exampleClient\<lparr>c_reconnectAttempts := 5\<rparr>)) = Disconnected
   \<and> clientRun (newClient (defaultOptions ''wss://host/ws'') 0 False)
         [SocketClosed, ReconnectTimerFired False, SocketClosed] \<noteq> None
   \<and> c_reconnectAttempts
         (the (clientRun (newClient (defaultOptions ''wss://host/ws'') 0 False)
                 [SocketClosed, ReconnectTimerFired False, SocketClosed])) \<le> 5
   \<and> c_state (exampleClient\<lparr>c_state := Connected, c_reconnectAttempts := 1\<rparr>) \<noteq> Disconnected
   \<and> handleClose (exampleClient\<lparr>c_state := Connected, c_reconnectAttempts := 1\<rparr>)
       = exampleClient
           \<lparr>c_state := Reconnecting, c_reconnectAttempts := 2, c_reconnectTimer := Some 4500,
             c_callbacks := [OnClose, OnReconnecting 2]\<rparr>"
proof -
  let ?c2 = "exampleClient\<lparr>c_reconnectAttempts := 2\<rparr>"
  let ?c5 = "exampleClient\<lparr>c_reconnectAttempts := 5\<rparr>"
  let ?cc = "exampleClient\<lparr>c_state := Connected, c_reconnectAttempts := 1\<rparr>"
  let ?run = "clientRun (newClient (defaultOptions ''wss://host/ws'') 0 False)
                [SocketClosed, ReconnectTimerFired False, SocketClosed]"
  have opts: "c_options exampleClient
                = (defaultOptions ''wss://host/ws'')\<lparr>autoConnect := False\<rparr>"
    by (simp add: exampleClient_def newClient_def)
  have h2: "c_reconnectAttempts ?c2 < maxReconnectAttempts (c_options ?c2)"
    by (simp add: opts defaultOptions_def)
  have h5: "maxReconnectAttempts (c_options ?c5) \<le> c_reconnectAttempts ?c5"
    by (simp add: opts defaultOptions_def)
  have hc: "c_state ?cc \<noteq> Disconnected"
           "c_reconnectAttempts ?cc < maxReconnectAttempts (c_options ?cc)"
    by (simp_all add: opts defaultOptions_def)
  have hn: "?run \<noteq> None"
    by (simp add: newClient_def defaultOptions_def connect_def handleClose_def cleanup_def
          attemptReconnect_def Let_def)
  then obtain c' where c': "?run = Some c'" by blast
  from reconnect_backoff_and_ceiling [where c = ?c2] h2
  have "c_reconnectTimer (attemptReconnect ?c2) =
          Some (min (reconnectInterval (c_options ?c2)
                       * (3 / 2) ^ (c_reconnectAttempts (attemptReconnect ?c2) - 1)) 30000)"
       "c_reconnectAttempts (attemptReconnect ?c2) = c_reconnectAttempts ?c2 + 1"
    by blast+
  then have r2: "c_reconnectTimer (attemptReconnect ?c2) = Some 6750"
    by (simp add: opts defaultOptions_def power2_eq_square)
  from reconnect_backoff_and_ceiling [where c = ?c5] h5
  have "attemptReconnect ?c5 =
          ?c5\<lparr>c_state := Disconnected,
               c_callbacks := c_callbacks ?c5 @ [OnError ''Max reconnection attempts reached'']\<rparr>"
    by blast
  then have r5: "c_state (attemptReconnect ?c5) = Disconnected" by simp
  from reconnect_backoff_and_ceiling
         [where opts = "defaultOptions ''wss://host/ws''" and ?now0.0 = 0
            and ?throws0.0 = False
            and events = "[SocketClosed, ReconnectTimerFired False, SocketClosed]"
            and c' = c'] c'
  have "c_reconnectAttempts c' \<le> maxReconnectAttempts (defaultOptions ''wss://host/ws'')"
    by blast
  then have "c_reconnectAttempts c' \<le> 5"
    by (simp add: defaultOptions_def)
  moreover have "the ?run = c'"
    unfolding c' by simp
  ultimately have rn: "c_reconnectAttempts (the ?run) \<le> 5"
    by (simp only:)
  from reconnect_backoff_and_ceiling [where c = ?cc] hc
  have "handleClose ?cc =
        ?cc\<lparr>c_state := Reconnecting,
          c_reconnectAttempts := c_reconnectAttempts ?cc + 1,
          c_reconnectTimer :=
            Some (min (reconnectInterval (c_options ?cc) * (3 / 2) ^ c_reconnectAttempts ?cc)
                      30000),
          c_heartbeatTimer := False,
          c_connectionId := None,
          c_callbacks := c_callbacks ?cc @ [OnClose, OnReconnecting (c_reconnectAttempts ?cc + 1)]\<rparr>"
    by blast
  also have "\<dots> = exampleClient
           \<lparr>c_state := Reconnecting, c_reconnectAttempts := 2, c_reconnectTimer := Some 4500,
             c_callbacks := [OnClose, OnReconnecting 2]\<rparr>"
    by (simp add: exampleClient_def newClient_def defaultOptions_def)
  finally have rc: "handleClose ?cc = exampleClient
           \<lparr>c_state := Reconnecting, c_reconnectAttempts := 2, c_reconnectTimer := Some 4500,
             c_callbacks := [OnClose, OnReconnecting 2]\<rparr>" .
  from h2 r2 h5 r5 hn rn hc(1) rc show ?thesis by blast
qed

text \<open>
  With the default options the five attempts wait 3000, 4500, 6750, 10125 and 15187.5
  milliseconds, and a sixth is not scheduled. A client that loses its socket twice in a row
  is two attempts in and waits 4500 milliseconds.
\<close>

lemma default_backoff_delays:
  "map (\<lambda>n. c_reconnectTimer (attemptReconnect (exampleClient\<lparr>c_reconnectAttempts := n\<rparr>)))
     [0, 1, 2, 3, 4, 5]
   = [Some 3000, Some 4500, Some 6750, Some 10125, Some (30375 / 2), None]"
  by (simp add: attemptReconnect_def exampleClient_def newClient_def defaultOptions_def Let_def
        power2_eq_square power3_eq_cube power4_eq_xxxx)

lemma two_closes_in_a_row:
  "map_option (\<lambda>c. (c_state c, c_reconnectAttempts c, c_reconnectTimer c, c_callbacks c))
     (clientRun (newClient (defaultOptions ''wss://host/ws'') 0 False)
        [SocketClosed, ReconnectTimerFired False, SocketClosed])
   = Some (Reconnecting, 2, Some 4500, [OnClose, OnReconnecting 1, OnClose, OnReconnecting 2])"
  by (simp add: newClient_def defaultOptions_def connect_def handleClose_def cleanup_def
        attemptReconnect_def Let_def)

subsection \<open>The websocket client: what an open event sends\<close>

lemma handleOpen_flushes_then_resubscribes:
  assumes "c_messageQueue c \<noteq> []" and "c_ws c = Some WS_OPEN"
  shows "handleOpen c uuid now =
           Some (c\<lparr>c_state := Connected, c_reconnectAttempts := 0, c_lastPongTime := now,
                   c_heartbeatTimer := True, c_messageQueue := [],
                   c_wire := c_wire c @ c_messageQueue c
                             @ (if c_subscriptions c \<noteq> []
                                then [subscribeFrame uuid now (c_subscriptions c)] else []),
                   c_callbacks := c_callbacks c @ [OnOpen]\<rparr>)"
proof -
  let ?c2 = "startHeartbeat (c\<lparr>c_state := Connected, c_reconnectAttempts := 0,
                                c_lastPongTime := now\<rparr>)"
  have "flushLoop ?c2 = Some (?c2\<lparr>c_messageQueue := [], c_wire := c_wire ?c2 @ c_messageQueue ?c2\<rparr>)"
    by (rule flushLoop_connected) (simp_all add: startHeartbeat_def assms)
  with assms show ?thesis
    by (simp add: handleOpen_def flushMessageQueue_def startHeartbeat_def send_def Let_def)
qed

text \<open>
  Claim C2 does not hold of the code. \<^verbatim>\<open>flushMessageQueue\<close> returns at once when the
  offline queue is empty, and the resubscription stands behind that return: an open event
  that finds the queue empty sets the state to connected, resets the counter, starts the
  heartbeat and calls \<^verbatim>\<open>onOpen\<close>, but hands nothing to the socket, whatever the local
  subscription set holds. (With a non-empty queue the frames are flushed in order and the
  subscribe frame follows, as \<open>handleOpen_flushes_then_resubscribes\<close> shows.)
\<close>

theorem handleOpen_empty_queue_sends_nothing:
  assumes "c_messageQueue c = []"
  shows "handleOpen c uuid now =
           Some (c\<lparr>c_state := Connected, c_reconnectAttempts := 0, c_lastPongTime := now,
                   c_heartbeatTimer := True, c_callbacks := c_callbacks c @ [OnOpen]\<rparr>)
         \<and> c_wire (the (handleOpen c uuid now)) = c_wire c"
  using assms
  by (simp add: handleOpen_def flushMessageQueue_def startHeartbeat_def Let_def)



theorem handleOpen_empty_queue_sends_nothing_witness:
  "c_messageQueue reconnectedClient = []
   \<and> c_subscriptions reconnectedClient = [''status'', ''stats'']
   \<and> c_state (the (handleOpen reconnectedClient ''u3'' 5000)) = Connected
   \<and> c_wire (the (handleOpen reconnectedClient ''u3'' 5000))
       = [subscribeFrame ''u2'' 11 [''status'', ''stats'']]"
proof -
  have h: "c_messageQueue reconnectedClient = []"
    by (simp add: reconnectedClient_def exampleClient_def newClient_def)
  from handleOpen_empty_queue_sends_nothing [OF h, of "''u3''" 5000]
  have "handleOpen reconnectedClient ''u3'' 5000 =
          Some (reconnectedClient\<lparr>c_state := Connected, c_reconnectAttempts := 0,
                  c_lastPongTime := 5000, c_heartbeatTimer := True,
                  c_callbacks := c_callbacks reconnectedClient @ [OnOpen]\<rparr>)"
    by blast
  then show ?thesis
    by (simp add: reconnectedClient_def exampleClient_def newClient_def)
qed

text \<open>
  The reconnect scenario. The client connects, subscribes to status and stats while
  connected, loses its socket and reconnects. \<open>reconnectedClient\<close> is the client at the
  moment the new socket opens; the run ends with the first subscribe frame as the only frame
  ever written.
\<close>

lemma reconnect_scenario_before_open:
  "clientRun exampleClient
     [CallConnect False, SocketOpened ''u1'' 10,
      CallSubscribe ''u2'' 11 [''status'', ''stats''], SocketClosed, ReconnectTimerFired False]
   = Some (reconnectedClient\<lparr>c_ws := Some WS_CONNECTING\<rparr>)"
  by (simp add: reconnectedClient_def exampleClient_def newClient_def defaultOptions_def
        connect_def handleOpen_def flushMessageQueue_def startHeartbeat_def
        clientSubscribe_def setAdd_def send_def handleClose_def cleanup_def
        attemptReconnect_def Let_def)

lemma reconnect_scenario_no_resubscribe:
  "map_option c_wire
     (clientRun exampleClient
        [CallConnect False, SocketOpened ''u1'' 10,
         CallSubscribe ''u2'' 11 [''status'', ''stats''], SocketClosed,
         ReconnectTimerFired False, SocketOpened ''u3'' 5000])
   = Some [subscribeFrame ''u2'' 11 [''status'', ''stats'']]"
  by (simp add: exampleClient_def newClient_def defaultOptions_def
        connect_def handleOpen_def flushMessageQueue_def startHeartbeat_def
        clientSubscribe_def setAdd_def send_def handleClose_def cleanup_def
        attemptReconnect_def Let_def)

subsection \<open>The websocket client: incoming frames\<close>

text \<open>
  Claim C10, as amended. Of a frame that \<^verbatim>\<open>JSON.parse\<close> accepts: a frame whose event is
  \<open>pong\<close> sets \<open>lastPongTime\<close> to the clock and calls nothing; a frame other than \<^verbatim>\<open>null\<close>
  whose event is neither \<open>pong\<close> nor \<open>connected\<close> is passed to \<^verbatim>\<open>onMessage\<close> and changes
  nothing else; a \<open>connected\<close> frame whose \<open>data\<close> is present and not \<^verbatim>\<open>null\<close> is passed to
  \<^verbatim>\<open>onMessage\<close> after its \<open>data.connectionId\<close> has been recorded, which happens when that
  value is truthy.
\<close>

theorem handleMessage_dispatch:
  "(getProp message ''event'' = Some (JString ''pong'') \<longrightarrow>
      handleMessage c now (Some message) = c\<lparr>c_lastPongTime := now\<rparr>)
   \<and> (message \<noteq> JNull
        \<and> getProp message ''event'' \<noteq> Some (JString ''pong'')
        \<and> getProp message ''event'' \<noteq> Some (JString ''connected'') \<longrightarrow>
      handleMessage c now (Some message) =
        c\<lparr>c_callbacks := c_callbacks c @ [OnMessage message]\<rparr>)
   \<and> (getProp message ''event'' = Some (JString ''connected'')
        \<and> getProp message ''data'' = Some d \<and> d \<noteq> JNull \<longrightarrow>
      handleMessage c now (Some message) =
        c\<lparr>c_connectionId :=
             (case getProp d ''connectionId'' of
                None \<Rightarrow> c_connectionId c
              | Some connectionId \<Rightarrow>
                  if truthy connectionId then Some connectionId else c_connectionId c),
          c_callbacks := c_callbacks c @ [OnMessage message]\<rparr>)"
proof -
  have 1: "getProp message ''event'' = Some (JString ''pong'') \<longrightarrow>
      handleMessage c now (Some message) = c\<lparr>c_lastPongTime := now\<rparr>"
    by (cases message) (simp_all add: handleMessage_def)
  have 2: "message \<noteq> JNull
        \<and> getProp message ''event'' \<noteq> Some (JString ''pong'')
        \<and> getProp message ''event'' \<noteq> Some (JString ''connected'') \<longrightarrow>
      handleMessage c now (Some message) =
        c\<lparr>c_callbacks := c_callbacks c @ [OnMessage message]\<rparr>"
    by (cases message) (simp_all add: handleMessage_def)
  have 3: "getProp message ''event'' = Some (JString ''connected'')
        \<and> getProp message ''data'' = Some d \<and> d \<noteq> JNull \<longrightarrow>
      handleMessage c now (Some message) =
        c\<lparr>c_connectionId :=
             (case getProp d ''connectionId'' of
                None \<Rightarrow> c_connectionId c
              | Some connectionId \<Rightarrow>
                  if truthy connectionId then Some connectionId else c_connectionId c),
          c_callbacks := c_callbacks c @ [OnMessage message]\<rparr>"
    by (cases message; cases d; cases "getProp d ''connectionId''")
       (simp_all add: handleMessage_def Let_def)
  from 1 2 3 show ?thesis by blast
qed

theorem handleMessage_dispatch_witness:
  "getProp pongFrame ''event'' = Some (JString ''pong'')
   \<and> handleMessage exampleClient 7 (Some pongFrame) = exampleClient\<lparr>c_lastPongTime := 7\<rparr>
   \<and> statusFrame \<noteq> JNull
   \<and> getProp statusFrame ''event'' \<noteq> Some (JString ''pong'')
   \<and> getProp statusFrame ''event'' \<noteq> Some (JString ''connected'')
   \<and> c_callbacks (handleMessage exampleClient 7 (Some statusFrame)) = [OnMessage statusFrame]
   \<and> getProp connectedFrame ''event'' = Some (JString ''connected'')
   \<and> getProp connectedFrame ''data'' = Some (JObject [(''connectionId'', JString ''abc'')])
   \<and> JObject [(''connectionId'', JString ''abc'')] \<noteq> JNull
   \<and> c_connectionId (handleMessage exampleClient 7 (Some connectedFrame)) = Some (JString ''abc'')
   \<and> c_callbacks (handleMessage exampleClient 7 (Some connectedFrame)) = [OnMessage connectedFrame]"
proof -
  have cb: "c_callbacks exampleClient = []"
    by (simp add: exampleClient_def newClient_def)
  have p: "getProp pongFrame ''event'' = Some (JString ''pong'')"
    by (simp add: pongFrame_def)
  have s: "statusFrame \<noteq> JNull"
          "getProp statusFrame ''event'' \<noteq> Some (JString ''pong'')"
          "getProp statusFrame ''event'' \<noteq> Some (JString ''connected'')"
    by (simp_all add: statusFrame_def)
  have k: "getProp connectedFrame ''event'' = Some (JString ''connected'')"
          "getProp connectedFrame ''data'' = Some (JObject [(''connectionId'', JString ''abc'')])"
          "JObject [(''connectionId'', JString ''abc'')] \<noteq> JNull"
    by (simp_all add: connectedFrame_def)
  from handleMessage_dispatch [where message = pongFrame and c = exampleClient and now = 7] p
  have 1: "handleMessage exampleClient 7 (Some pongFrame) = exampleClient\<lparr>c_lastPongTime := 7\<rparr>"
    by blast
  from handleMessage_dispatch [where message = statusFrame and c = exampleClient and now = 7] s
  have "handleMessage exampleClient 7 (Some statusFrame) =
          exampleClient\<lparr>c_callbacks := c_callbacks exampleClient @ [OnMessage statusFrame]\<rparr>"
    by blast
  then have 2: "c_callbacks (handleMessage exampleClient 7 (Some statusFrame)) = [OnMessage statusFrame]"
    by (simp add: cb)
  from handleMessage_dispatch
         [where message = connectedFrame and c = exampleClient and now = 7
            and d = "JObject [(''connectionId'', JString ''abc'')]"] k
  have "handleMessage exampleClient 7 (Some connectedFrame) =
        exampleClient\<lparr>c_connectionId :=
             (case getProp (JObject [(''connectionId'', JString ''abc'')]) ''connectionId'' of
                None \<Rightarrow> c_connectionId exampleClient
              | Some connectionId \<Rightarrow>
                  if truthy connectionId then Some connectionId
                  else c_connectionId exampleClient),
          c_callbacks := c_callbacks exampleClient @ [OnMessage connectedFrame]\<rparr>"
    by blast
  then have 3: "c_connectionId (handleMessage exampleClient 7 (Some connectedFrame)) = Some (JString ''abc'')"
               "c_callbacks (handleMessage exampleClient 7 (Some connectedFrame)) = [OnMessage connectedFrame]"
    by (simp_all add: cb)
  from p 1 s 2 k 3 show ?thesis by blast
qed

text \<open>
  Claim C10 as stated fails. The frame \<^verbatim>\<open>{"type":"system","event":"connected"}\<close> is
  parsed without error, its event is not \<open>pong\<close>, and it is not passed to \<^verbatim>\<open>onMessage\<close>:
  reading \<^verbatim>\<open>data.connectionId\<close> of the missing \<open>data\<close> throws inside the \<^verbatim>\<open>try\<close>, and the
  error callback is called instead.
\<close>

theorem connected_frame_without_data_counterexample:
  "getProp connectedFrameWithoutData ''event'' = Some (JString ''connected'')
   \<and> handleMessage exampleClient 7 (Some connectedFrameWithoutData)
       = exampleClient\<lparr>c_callbacks := [OnError ''Failed to parse message'']\<rparr>
   \<and> OnMessage connectedFrameWithoutData
       \<notin> set (c_callbacks (handleMessage exampleClient 7 (Some connectedFrameWithoutData)))"
  by (simp add: connectedFrameWithoutData_def handleMessage_def failedToParse_def
                exampleClient_def newClient_def)

end
